(* ===== verification/Prelude.thy ===== *)
theory Prelude
  imports
    Main
    "HOL-Library.Word"
    "HOL-Library.Char_ord"
    "HOL-Library.List_Lexorder"
    "HOL-Library.Product_Lexorder"
    "HOL-Library.Sublist"
    "HOL-Library.Multiset"
begin

text \<open>
  Shared vocabulary of the development.

  \<^item> \<open>res\<close>: what a Rust function returning \<open>Result\<close> does: it returns \<open>Ok\<close>, returns
    \<open>Err\<close>, or panics. \<open>res_bind\<close> is the \<open>?\<close> operator.
  \<^item> \<open>position\<close>, \<open>remove_at\<close>, \<open>pop_front_until\<close>: the \<open>Iterator\<close>/\<open>VecDeque\<close> operations the
    caches use.
  \<^item> \<open>al_upd\<close>, \<open>al_or_insert\<close>: hash and tree maps as association lists.
  \<^item> generic facts on sorting by a key that is unique in the list.

  Unsigned 64- and 32-bit counters are natural numbers with the wrap-around written out
  (\<open>u64_add\<close>, \<open>u32_of\<close>); hashes and frame headers are words.
\<close>

named_theorems res_simps \<open>equations for the result type\<close>
named_theorems pos_simps \<open>facts about position and removal in lists\<close>
named_theorems map_simps \<open>facts about association lists used as maps\<close>

subsection \<open>Results\<close>

datatype ('a, 'e) res = Ok 'a | Err 'e | Panic string

fun res_bind :: "('a, 'e) res \<Rightarrow> ('a \<Rightarrow> ('b, 'e) res) \<Rightarrow> ('b, 'e) res" where
  "res_bind (Ok a) f = f a"
| "res_bind (Err e) f = Err e"
| "res_bind (Panic m) f = Panic m"

definition ok_or :: "'a option \<Rightarrow> 'e \<Rightarrow> ('a, 'e) res" where
  "ok_or x e = (case x of Some a \<Rightarrow> Ok a | None \<Rightarrow> Err e)"

subsection \<open>Machine integers\<close>

definition u64_add :: "nat \<Rightarrow> nat \<Rightarrow> nat" where
  "u64_add a b = (a + b) mod 2 ^ 64"

definition u32_of :: "nat \<Rightarrow> nat" where
  "u32_of n = n mod 2 ^ 32"

definition usize_max :: nat where
  "usize_max = 2 ^ 64 - 1"

subsection \<open>Sequences\<close>

fun position :: "('a \<Rightarrow> bool) \<Rightarrow> 'a list \<Rightarrow> nat option" where
  "position P [] = None"
| "position P (x # xs) = (if P x then Some 0 else map_option Suc (position P xs))"

definition remove_at :: "nat \<Rightarrow> 'a list \<Rightarrow> 'a list" where
  "remove_at i xs = take i xs @ drop (Suc i) xs"

text \<open>\<open>while entries.len() >= cap { entries.pop_front(); }\<close>. For \<open>cap = 0\<close> the source's loop
  would not end; the callers return early in that case, and the model stops at the empty
  list.\<close>

fun pop_front_until :: "nat \<Rightarrow> 'a list \<Rightarrow> 'a list" where
  "pop_front_until cap [] = []"
| "pop_front_until cap (x # xs) =
     (if cap \<le> length (x # xs) then pop_front_until cap xs else x # xs)"

subsection \<open>Maps as association lists\<close>

fun al_upd :: "'k \<Rightarrow> 'v \<Rightarrow> ('k \<times> 'v) list \<Rightarrow> ('k \<times> 'v) list" where
  "al_upd k v [] = [(k, v)]"
| "al_upd k v ((k', v') # al) =
     (if k' = k then (k, v) # al else (k', v') # al_upd k v al)"

definition al_or_insert :: "'k \<Rightarrow> 'v \<Rightarrow> ('k \<times> 'v) list \<Rightarrow> ('k \<times> 'v) list" where
  "al_or_insert k v al = (case map_of al k of None \<Rightarrow> al @ [(k, v)] | Some _ \<Rightarrow> al)"

text \<open>A \<open>BTreeMap\<close> is an association list kept in increasing key order: \<open>bt_modify k d f\<close> is
  \<open>f\<close> applied to \<open>entry(k).or_insert(d)\<close>.\<close>

fun bt_modify :: "'k::linorder \<Rightarrow> 'v \<Rightarrow> ('v \<Rightarrow> 'v) \<Rightarrow> ('k \<times> 'v) list \<Rightarrow> ('k \<times> 'v) list" where
  "bt_modify k d f [] = [(k, f d)]"
| "bt_modify k d f ((k', v) # al) =
     (if k < k' then (k, f d) # (k', v) # al
      else if k = k' then (k', f v) # al
      else (k', v) # bt_modify k d f al)"

subsection \<open>Decimal and hexadecimal rendering\<close>

fun dec_of_nat :: "nat \<Rightarrow> string" where
  "dec_of_nat n =
     (if n < 10 then [char_of (48 + n)]
      else dec_of_nat (n div 10) @ [char_of (48 + n mod 10)])"

declare dec_of_nat.simps [simp del]

definition hex_digit :: "nat \<Rightarrow> char" where
  "hex_digit d = char_of (if d < 10 then 48 + d else 87 + d)"

subsection \<open>Lemmas: results\<close>

declare res_bind.simps [res_simps]

lemma res_bind_Ok_iff [res_simps]:
  "res_bind r f = Ok b \<longleftrightarrow> (\<exists>a. r = Ok a \<and> f a = Ok b)"
  by (cases r) auto

lemma res_bind_Err_iff [res_simps]:
  "res_bind r f = Err e \<longleftrightarrow> r = Err e \<or> (\<exists>a. r = Ok a \<and> f a = Err e)"
  by (cases r) auto

lemma ok_or_simps [simp, res_simps]: "ok_or (Some a) e = Ok a" "ok_or None e = Err e"
  by (simp_all add: ok_or_def)

subsection \<open>Lemmas: machine integers\<close>

lemma u64_add_small [simp]: "a + b < 2 ^ 64 \<Longrightarrow> u64_add a b = a + b"
  by (simp add: u64_add_def)

lemma u32_of_small [simp]: "n < 2 ^ 32 \<Longrightarrow> u32_of n = n"
  by (simp add: u32_of_def)

subsection \<open>Lemmas: sequences\<close>

lemma position_None [pos_simps]: "position P xs = None \<longleftrightarrow> (\<forall>x \<in> set xs. \<not> P x)"
  by (induction xs) auto

lemma position_SomeD:
  "position P xs = Some i \<Longrightarrow>
     i < length xs \<and> P (xs ! i) \<and> (\<forall>x \<in> set (take i xs). \<not> P x)"
proof (induction xs arbitrary: i)
  case Nil
  then show ?case by simp
next
  case (Cons x xs)
  then show ?case by (cases i) (auto split: if_splits)
qed

lemma position_split:
  assumes "position P xs = Some i"
  shows "xs = take i xs @ xs ! i # drop (Suc i) xs"
  using position_SomeD [OF assms] by (simp add: id_take_nth_drop)

lemma mset_remove_at [pos_simps]:
  "i < length xs \<Longrightarrow> mset xs = add_mset (xs ! i) (mset (remove_at i xs))"
  using id_take_nth_drop [of i xs]
  by (metis remove_at_def add_mset_add_single mset.simps(2) mset_append union_mset_add_mset_right)

lemma length_remove_at [pos_simps]: "i < length xs \<Longrightarrow> length (remove_at i xs) = length xs - 1"
  by (simp add: remove_at_def)

lemma set_remove_at_subset: "set (remove_at i xs) \<subseteq> set xs"
  by (auto simp: remove_at_def dest: in_set_takeD in_set_dropD)

lemma distinct_remove_at:
  assumes "distinct (map f xs)"
  shows "distinct (map f (remove_at i xs))"
proof -
  have eq: "map f (remove_at i xs) = take i (map f xs) @ drop (Suc i) (map f xs)"
    by (simp add: remove_at_def take_map drop_map)
  have "set (take i (map f xs)) \<inter> set (drop (Suc i) (map f xs)) = {}"
    using assms by (rule set_take_disj_set_drop_if_distinct) simp
  then show ?thesis using assms unfolding eq by simp
qed

lemma remove_at_distinct_other:
  assumes "distinct (map f xs)" "i < length xs" "x \<in> set xs" "f x \<noteq> f (xs ! i)"
  shows "x \<in> set (remove_at i xs)"
proof -
  have "x \<in># add_mset (xs ! i) (mset (remove_at i xs))"
    using assms(2,3) by (metis mset_remove_at set_mset_mset)
  with assms(4) show ?thesis by auto
qed

lemma remove_at_key_notin:
  assumes "distinct (map f xs)" "i < length xs"
  shows "f (xs ! i) \<notin> f ` set (remove_at i xs)"
proof -
  have "mset (map f xs) = add_mset (f (xs ! i)) (mset (map f (remove_at i xs)))"
    using mset_remove_at [OF assms(2)] by (metis mset_map image_mset_add_mset)
  moreover have "count (mset (map f xs)) (f (xs ! i)) = 1"
    using assms by (simp add: distinct_count_atmost_1)
  ultimately have "count (mset (map f (remove_at i xs))) (f (xs ! i)) = 0" by simp
  then show ?thesis by (metis count_eq_zero_iff set_map set_mset_mset)
qed

lemma pop_front_until_drop: "0 < cap \<Longrightarrow> pop_front_until cap xs = drop (Suc (length xs) - cap) xs"
proof (induction xs)
  case Nil
  then show ?case by simp
next
  case (Cons x xs)
  then show ?case by (cases "cap \<le> length (x # xs)") (auto simp: Suc_diff_le)
qed

lemma length_pop_front_until: "0 < cap \<Longrightarrow> length (pop_front_until cap xs) < cap"
  by (simp add: pop_front_until_drop)

lemma pop_front_until_id: "length xs < cap \<Longrightarrow> pop_front_until cap xs = xs"
  by (cases xs) auto

lemma set_pop_front_until: "set (pop_front_until cap xs) \<subseteq> set xs"
  by (induction xs) auto

lemma distinct_pop_front_until:
  "distinct (map f xs) \<Longrightarrow> distinct (map f (pop_front_until cap xs))"
  by (induction xs) auto

subsection \<open>Lemmas: maps\<close>

lemma map_of_al_upd [map_simps]: "map_of (al_upd k v al) = (map_of al)(k \<mapsto> v)"
  by (induction al) (auto simp: fun_eq_iff)

lemma keys_al_upd [map_simps]: "fst ` set (al_upd k v al) = insert k (fst ` set al)"
  by (induction k v al rule: al_upd.induct) (simp_all add: insert_commute)

lemma distinct_al_upd: "distinct (map fst al) \<Longrightarrow> distinct (map fst (al_upd k v al))"
  by (induction k v al rule: al_upd.induct) (auto simp: keys_al_upd)

lemma map_of_al_or_insert [map_simps]:
  "map_of (al_or_insert k v al) p =
     (case map_of al p of Some w \<Rightarrow> Some w | None \<Rightarrow> if p = k then Some v else None)"
  by (auto simp: al_or_insert_def map_add_def split: option.splits)

lemma distinct_al_or_insert:
  "distinct (map fst al) \<Longrightarrow> distinct (map fst (al_or_insert k v al))"
  by (auto simp: al_or_insert_def map_of_eq_None_iff split: option.splits)

lemma keys_bt_modify [map_simps]: "fst ` set (bt_modify k d f al) = insert k (fst ` set al)"
  by (induction k d f al rule: bt_modify.induct) (simp_all add: insert_commute)

lemma sorted_bt_modify:
  "sorted_wrt (<) (map fst al) \<Longrightarrow> sorted_wrt (<) (map fst (bt_modify k d f al))"
proof (induction al)
  case Nil
  then show ?case by simp
next
  case (Cons a al)
  obtain k' v where a: "a = (k', v)" by (cases a)
  have "\<forall>x \<in> fst ` set (bt_modify k d f al). k' < x" if "k' < k"
    using Cons.prems that by (auto simp: keys_bt_modify a)
  then show ?case using Cons a by (auto simp: image_iff)
qed

lemma map_of_bt_modify [map_simps]:
  "sorted_wrt (<) (map fst al) \<Longrightarrow>
     map_of (bt_modify k d f al) =
       (map_of al)(k \<mapsto> f (case map_of al k of Some v \<Rightarrow> v | None \<Rightarrow> d))"
proof (induction al)
  case Nil
  then show ?case by simp
next
  case (Cons a al)
  obtain k' v where a: "a = (k', v)" by (cases a)
  have "map_of al k = None" if "k < k'"
    using Cons.prems that a by (force simp: map_of_eq_None_iff)
  then show ?case using Cons a by (auto simp: fun_eq_iff)
qed

lemma set_map_filter_iff: "y \<in> set (List.map_filter f xs) \<longleftrightarrow> (\<exists>x \<in> set xs. f x = Some y)"
  by (induction xs) (auto simp: List.map_filter_simps split: option.splits)

lemma mset_map_filter_perm:
  "mset xs = mset ys \<Longrightarrow> mset (List.map_filter f xs) = mset (List.map_filter f ys)"
  by (simp add: List.map_filter_def)

subsection \<open>Lemmas: sorting by a unique key\<close>

lemma sort_key_unique:
  assumes "distinct (map f ys)" "sorted (map f ys)" "distinct xs" "set xs = set ys"
  shows "sort_key f xs = ys"
proof -
  let ?s = "sort_key f xs"
  have set_s: "set ?s = set ys" using assms(4) by simp
  have inj: "inj_on f (set ys)" using assms(1) by (simp add: distinct_map)
  have "distinct (map f ?s)"
    using assms(3) inj by (simp add: distinct_map assms(4))
  moreover have "sorted (map f ?s)" by simp
  moreover have "set (map f ?s) = set (map f ys)" using set_s by simp
  ultimately have "map f ?s = map f ys"
    using assms(1,2) by (metis sorted_distinct_set_unique)
  then show ?thesis
    using inj set_s by (metis map_inj_on sup.idem)
qed

lemma sort_key_perm_unique:
  assumes "mset xs = mset ys" "distinct (map f ys)"
  shows "sort_key f xs = sort_key f ys"
proof (rule sort_key_unique)
  have "set (map f (sort_key f ys)) = set (map f ys)" by simp
  show "distinct (map f (sort_key f ys))"
    using assms(2) by (simp add: distinct_map)
  show "distinct xs" using assms by (metis distinct_map mset_eq_imp_distinct_iff)
  show "set xs = set (sort_key f ys)" using mset_eq_setD [OF assms(1)] by simp
qed simp

end
