(* ===== verification/Protocol.thy ===== *)
theory Protocol
  imports Prelude
begin

text \<open>
  The wire types of \<^verbatim>\<open>src/crates/protocol/src/lib.rs\<close>, shared by the daemon, the bridge and the
  installer. Every struct is a record; its fields carry a prefix made of the struct's
  initials (\<open>FsReadParams.path\<close> is \<open>frp_path\<close>), because the same field name occurs in many
  structs. Strings are sequences of bytes (the UTF-8 encoding Rust keeps), \<open>u32\<close>, \<open>u64\<close> and
  \<open>usize\<close> fields are natural numbers, \<open>f64\<close> is its 64-bit pattern.

  \<open>json\<close> is \<open>serde_json::Value\<close>. The workspace's \<^verbatim>\<open>Cargo.lock\<close> builds \<open>serde_json\<close> with
  \<open>preserve_order\<close> (it depends on \<open>indexmap\<close>), so an object is a list of pairs in insertion
  order. Encoding and decoding of the structs is generated by \<open>serde\<close> and stays a parameter
  of the definitions that use it.
\<close>

subsection \<open>JSON values\<close>

datatype json_number = PosInt nat | NegInt int | Float "64 word"

datatype json =
    JNull
  | JBool bool
  | JNumber json_number
  | JString string
  | JArray "json list"
  | JObject "(string \<times> json) list"

type_synonym f64 = "64 word"

subsection \<open>Method names\<close>

definition PING :: string where
  "PING = ''ping''"

definition FS_READ :: string where
  "FS_READ = ''fs.read''"

definition FS_READ_BATCH :: string where
  "FS_READ_BATCH = ''fs.read_batch''"

definition FS_APPLY_PATCH :: string where
  "FS_APPLY_PATCH = ''fs.apply_patch''"

definition FS_REPLACE_ALL :: string where
  "FS_REPLACE_ALL = ''fs.replace_all''"

definition FS_SNAPSHOT :: string where
  "FS_SNAPSHOT = ''fs.snapshot''"

definition FS_CHANGES :: string where
  "FS_CHANGES = ''fs.changes''"

definition FS_SCAN :: string where
  "FS_SCAN = ''fs.scan''"

definition GIT_STATUS :: string where
  "GIT_STATUS = ''git.status''"

definition GIT_LOG :: string where
  "GIT_LOG = ''git.log''"

definition GIT_DIFF :: string where
  "GIT_DIFF = ''git.diff''"

definition GIT_BLAME :: string where
  "GIT_BLAME = ''git.blame''"

definition GIT_HISTORY :: string where
  "GIT_HISTORY = ''git.history''"

definition SEARCH_GREP :: string where
  "SEARCH_GREP = ''search.grep''"

definition CODE_OUTLINE :: string where
  "CODE_OUTLINE = ''code.outline''"

definition CODE_OUTLINE_BATCH :: string where
  "CODE_OUTLINE_BATCH = ''code.outline_batch''"

definition CODE_SYMBOLS :: string where
  "CODE_SYMBOLS = ''code.symbols''"

definition CODE_SYMBOLS_BATCH :: string where
  "CODE_SYMBOLS_BATCH = ''code.symbols_batch''"

definition CODE_IMPORTS :: string where
  "CODE_IMPORTS = ''code.imports''"

definition CODE_DEPENDENCIES :: string where
  "CODE_DEPENDENCIES = ''code.dependencies''"

definition CODE_FIND_OCCURRENCES :: string where
  "CODE_FIND_OCCURRENCES = ''code.find_occurrences''"

definition FS_READ_SKELETON :: string where
  "FS_READ_SKELETON = ''fs.read_skeleton''"

definition TOOL_RUN :: string where
  "TOOL_RUN = ''tool.run''"

definition TOOL_GH :: string where
  "TOOL_GH = ''tool.gh''"

definition TOOL_SPAWN :: string where
  "TOOL_SPAWN = ''tool.spawn''"

definition TOOL_READ_LOGS :: string where
  "TOOL_READ_LOGS = ''tool.read_logs''"

definition TOOL_KILL :: string where
  "TOOL_KILL = ''tool.kill''"

definition METRICS_GAIN :: string where
  "METRICS_GAIN = ''metrics.gain''"

definition METRICS_TOOL_LATENCY :: string where
  "METRICS_TOOL_LATENCY = ''metrics.tool_latency''"

definition PIPE :: string where
  "PIPE = ''pipe''"

definition all_methods :: "string list" where
  "all_methods = [PING, FS_READ, FS_READ_BATCH, FS_APPLY_PATCH, FS_REPLACE_ALL, FS_SNAPSHOT, FS_CHANGES, FS_SCAN, GIT_STATUS, GIT_LOG, GIT_DIFF, GIT_BLAME, GIT_HISTORY, SEARCH_GREP, CODE_OUTLINE, CODE_OUTLINE_BATCH, CODE_SYMBOLS, CODE_SYMBOLS_BATCH, CODE_IMPORTS, CODE_DEPENDENCIES, CODE_FIND_OCCURRENCES, FS_READ_SKELETON, TOOL_RUN, TOOL_GH, TOOL_SPAWN, TOOL_READ_LOGS, TOOL_KILL, METRICS_GAIN, METRICS_TOOL_LATENCY, PIPE]"

subsection \<open>Enumerations and structs\<close>

datatype ChangeKind = Created | Modified | Removed

record Request =
  req_id :: nat
  req_method :: string
  req_params :: json

record RpcError =
  err_code :: int
  err_message :: string

record Response =
  resp_id :: nat
  resp_result :: "json option"
  resp_error :: "RpcError option"

record FsReadParams =
  frp_path :: string
  frp_offset :: nat
  frp_length :: "nat option"
  frp_binary :: bool
  frp_strip_noise :: bool

record StrippedRegion =
  sr_kind :: string
  sr_start_line :: nat
  sr_end_line :: nat
  sr_lines :: nat

record FsReadResult =
  frr_path :: string
  frr_version :: nat
  frr_mtime_ns :: nat
  frr_bytes_read :: nat
  frr_total_size :: nat
  frr_content :: string
  frr_encoding :: "string option"
  frr_truncated :: bool
  frr_stripped_regions :: "StrippedRegion list"

record FsReadBatchParams =
  frbp_requests :: "FsReadParams list"

record FsReadBatchItem =
  frbi_path :: string
  frbi_result :: "FsReadResult option"
  frbi_error :: "RpcError option"

record FsReadBatchResult =
  frbr_responses :: "FsReadBatchItem list"

record FsApplyPatchParams =
  fapp_path :: string
  fapp_patch :: string
  fapp_expected_version :: "nat option"
  fapp_expected_mtime_ns :: "nat option"

record FsApplyPatchResult =
  fapr_path :: string
  fapr_applied :: bool
  fapr_version :: nat
  fapr_mtime_ns :: nat

record FsReplaceAllParams =
  frap_path :: string
  frap_search :: string
  frap_replacement :: string
  frap_expected_version :: "nat option"
  frap_expected_mtime_ns :: "nat option"
  frap_max_replacements :: "nat option"

record FsReplaceAllResult =
  frar_path :: string
  frar_replacements :: nat
  frar_version :: nat
  frar_mtime_ns :: nat

record GitStatusParams =
  gsp_repo :: "string option"
  gsp_compact :: bool

record GitStatusEntry =
  gse_path :: string
  gse_status :: string

record GitStatusDirCount =
  gsdc_dir :: string
  gsdc_count :: nat

record GitStatusClassBucket =
  gscb_class :: string
  gscb_count :: nat
  gscb_by_dir :: "GitStatusDirCount list"

record GitStatusCompact =
  gsc_by_class :: "GitStatusClassBucket list"
  gsc_total :: nat

record GitStatusResult =
  gsr_branch :: "string option"
  gsr_head :: "string option"
  gsr_entries :: "GitStatusEntry list"
  gsr_compact :: "GitStatusCompact option"

record GitLogParams =
  glp_repo :: "string option"
  glp_max_count :: "nat option"
  glp_revision :: "string option"
  glp_path :: "string option"

record GitCommit =
  gc_sha :: string
  gc_author :: string
  gc_date :: string
  gc_message :: string

record GitLogResult =
  glr_commits :: "GitCommit list"

record GitDiffParams =
  gdp_repo :: "string option"
  gdp_base :: "string option"
  gdp_target :: "string option"
  gdp_path :: "string option"

record GitDiffResult =
  gdr_diff :: string

record GitBlameParams =
  gbp_repo :: "string option"
  gbp_path :: string

record GitBlameSpan =
  gbs_start_line :: nat
  gbs_end_line :: nat
  gbs_lines :: nat
  gbs_sha :: string
  gbs_author :: string
  gbs_summary :: string

record GitBlameResult =
  gbr_path :: string
  gbr_spans :: "GitBlameSpan list"

record GitHistoryParams =
  ghp_repo :: "string option"
  ghp_path :: string
  ghp_max_count :: "nat option"

record GitHistoryResult =
  ghr_path :: string
  ghr_commits :: "GitCommit list"

record SearchGrepParams =
  sgp_pattern :: string
  sgp_path :: "string option"
  sgp_glob :: "string option"
  sgp_max_results :: "nat option"
  sgp_case_insensitive :: bool
  sgp_compact :: bool
  sgp_context :: nat

record SearchContextLine =
  ctx_line_number :: nat
  ctx_line :: string

record SearchHit =
  hit_path :: string
  hit_line_number :: nat
  hit_line :: string
  hit_context :: "SearchContextLine list"

record SearchFileBucket =
  sfb_path :: string
  sfb_matches :: nat
  sfb_first_line :: nat
  sfb_last_line :: nat

record SearchGrepCompact =
  sgc_buckets :: "SearchFileBucket list"
  sgc_total_matches :: nat

record SearchGrepResult =
  sgr_hits :: "SearchHit list"
  sgr_truncated :: bool
  sgr_compact :: "SearchGrepCompact option"

record FsSnapshotResult =
  fsnr_version :: nat
  fsnr_capacity :: nat
  fsnr_oldest_retained :: nat

record FsChangesParams =
  fchp_since :: nat

record ChangeEntry =
  ce_path :: string
  ce_kind :: ChangeKind
  ce_version :: nat

record FsChangesResult =
  fchr_version :: nat
  fchr_changes :: "ChangeEntry list"
  fchr_overflowed :: bool

record FsScanParams =
  fscp_path :: "string option"
  fscp_max_results :: "nat option"
  fscp_compact :: bool

record FsScanDirBucket =
  fsdb_dir :: string
  fsdb_count :: nat

record FsScanCompact =
  fscc_by_dir :: "FsScanDirBucket list"
  fscc_total :: nat

record FsScanResult =
  fscr_version :: nat
  fscr_files :: "string list"
  fscr_truncated :: bool
  fscr_compact :: "FsScanCompact option"

record CodeOutlineParams =
  cop_path :: string
  cop_signatures_only :: bool

record CodeOutlineEntry =
  coe_kind :: string
  coe_name :: string
  coe_start_byte :: nat
  coe_end_byte :: nat
  coe_start_line :: nat
  coe_end_line :: nat
  coe_signature :: "string option"

record CodeOutlineResult =
  cor_path :: string
  cor_language :: "string option"
  cor_entries :: "CodeOutlineEntry list"

record CodeSymbolsParams =
  csp_path :: string

record CodeSymbolsResult =
  csr_path :: string
  csr_language :: "string option"
  csr_names :: "string list"

record CodeOutlineBatchParams =
  cobp_requests :: "CodeOutlineParams list"

record CodeOutlineBatchItem =
  cobi_path :: string
  cobi_result :: "CodeOutlineResult option"
  cobi_error :: "RpcError option"

record CodeOutlineBatchResult =
  cobr_responses :: "CodeOutlineBatchItem list"

record CodeSymbolsBatchParams =
  csbp_requests :: "CodeSymbolsParams list"

record CodeSymbolsBatchItem =
  csbi_path :: string
  csbi_result :: "CodeSymbolsResult option"
  csbi_error :: "RpcError option"

record CodeSymbolsBatchResult =
  csbr_responses :: "CodeSymbolsBatchItem list"

record CodeImportsParams =
  cip_path :: string

record ImportEntry =
  ie_module :: string
  ie_resolved_path :: "string option"
  ie_line :: nat

record CodeImportsResult =
  cir_path :: string
  cir_language :: "string option"
  cir_imports :: "ImportEntry list"

record CodeDependenciesParams =
  cdp_path :: "string option"
  cdp_max_files :: "nat option"

record DependencyEdge =
  de_from :: string
  de_to :: string
  de_module :: string
  de_line :: nat

record CodeDependenciesResult =
  cdr_files_scanned :: nat
  cdr_dependencies :: "DependencyEdge list"
  cdr_dependents :: "DependencyEdge list"

record CodeFindOccurrencesParams =
  cfop_identifier :: string
  cfop_path :: "string option"
  cfop_max_results :: "nat option"

record CodeOccurrence =
  co_path :: string
  co_line :: nat
  co_column :: nat
  co_kind :: string

record CodeFindOccurrencesResult =
  cfor_occurrences :: "CodeOccurrence list"
  cfor_truncated :: bool

record FsReadSkeletonParams =
  frsp_path :: string
  frsp_target_line :: "nat option"
  frsp_target_symbol :: "string option"

record SkeletonElidedRegion =
  ser_symbol :: string
  ser_start_line :: nat
  ser_end_line :: nat
  ser_lines :: nat

record FsReadSkeletonResult =
  frsr_path :: string
  frsr_language :: "string option"
  frsr_content :: string
  frsr_elided_regions :: "SkeletonElidedRegion list"

record ToolGainEntry =
  tge_tool :: string
  tge_calls :: nat
  tge_raw_bytes :: nat
  tge_compacted_bytes :: nat

record MetricsGainResult =
  mgr_per_tool :: "ToolGainEntry list"
  mgr_total_raw_bytes :: nat
  mgr_total_compacted_bytes :: nat
  mgr_savings_ratio :: f64

record ToolLatencyEntry =
  tle_tool :: string
  tle_calls :: nat
  tle_latency_sum_us :: nat
  tle_mean_us :: nat
  tle_max_us :: nat

record MetricsToolLatencyResult =
  mtlr_per_tool :: "ToolLatencyEntry list"

record ToolRunEnv =
  tre_name :: string
  tre_value :: string

record ToolRunParams =
  trp_command :: string
  trp_args :: "string list"
  trp_cwd :: "string option"
  trp_env :: "ToolRunEnv list"
  trp_max_output_bytes :: "nat option"
  trp_cache :: bool

record ToolRunResult =
  trr_command :: string
  trr_args :: "string list"
  trr_cwd :: string
  trr_exit_code :: "int option"
  trr_success :: bool
  trr_stdout :: string
  trr_stderr :: string
  trr_stdout_truncated :: bool
  trr_stderr_truncated :: bool
  trr_failure_output :: string
  trr_cached :: bool

record ToolGhParams =
  tgp_kind :: string
  tgp_selector :: "string option"
  tgp_repo :: "string option"
  tgp_fields :: "string list"

record ToolGhResult =
  tgr_kind :: string
  tgr_selector :: "string option"
  tgr_exit_code :: "int option"
  tgr_success :: bool
  tgr_value :: "json option"
  tgr_stdout :: string
  tgr_stderr :: string

record ToolSpawnParams =
  tsp_command :: string
  tsp_args :: "string list"
  tsp_cwd :: "string option"
  tsp_env :: "ToolRunEnv list"

record ToolSpawnResult =
  tsr_job_id :: nat
  tsr_pid :: "nat option"
  tsr_command :: string
  tsr_args :: "string list"

record ToolReadLogsParams =
  trlp_job_id :: nat
  trlp_offset :: nat
  trlp_max_bytes :: "nat option"

record ToolReadLogsResult =
  trlr_job_id :: nat
  trlr_output :: string
  trlr_next_offset :: nat
  trlr_exit_code :: "int option"
  trlr_running :: bool
  trlr_killed :: bool

record ToolKillParams =
  tkp_job_id :: nat

record ToolKillResult =
  tkr_job_id :: nat
  tkr_killed :: bool
  tkr_exit_code :: "int option"

record PipeStep =
  ps_method :: string
  ps_params :: json
  ps_for_each :: "string option"
  ps_continue_on_error :: bool
  ps_concurrency :: "nat option"

record PipeParams =
  pp_steps :: "PipeStep list"

record PipeItemResult =
  pir_result :: "json option"
  pir_error :: "RpcError option"

record PipeStepResult =
  psr_method :: string
  psr_result :: "json option"
  psr_error :: "RpcError option"
  psr_items :: "PipeItemResult list option"

record PipeResult =
  pr_steps :: "PipeStepResult list"


type_synonym 'a rpc = "('a, RpcError) res"

definition rpc_error :: "int \<Rightarrow> string \<Rightarrow> RpcError" where
  "rpc_error code message = \<lparr>err_code = code, err_message = message\<rparr>"

lemmas method_defs = PING_def FS_READ_def FS_READ_BATCH_def FS_APPLY_PATCH_def FS_REPLACE_ALL_def FS_SNAPSHOT_def FS_CHANGES_def FS_SCAN_def GIT_STATUS_def GIT_LOG_def GIT_DIFF_def GIT_BLAME_def GIT_HISTORY_def SEARCH_GREP_def CODE_OUTLINE_def CODE_OUTLINE_BATCH_def CODE_SYMBOLS_def CODE_SYMBOLS_BATCH_def CODE_IMPORTS_def CODE_DEPENDENCIES_def CODE_FIND_OCCURRENCES_def FS_READ_SKELETON_def TOOL_RUN_def TOOL_GH_def TOOL_SPAWN_def TOOL_READ_LOGS_def TOOL_KILL_def METRICS_GAIN_def METRICS_TOOL_LATENCY_def PIPE_def

lemma err_code_rpc_error [simp]: "err_code (rpc_error c m) = c"
  by (simp add: rpc_error_def)

lemma rpc_error_inject [simp]: "rpc_error c m = rpc_error c' m' \<longleftrightarrow> c = c' \<and> m = m'"
  by (simp add: rpc_error_def)

text \<open>The method names are pairwise distinct, so the dispatch table has no dead arm.\<close>

lemma distinct_all_methods: "distinct all_methods"
  by (simp add: all_methods_def method_defs)

end
