(* ===== verification/Cache_Interface.thy ===== *)
theory Cache_Interface
  imports Prelude
begin

text \<open>
  The contract a result cache offers its clients. A cache state has a version it is
  consistent with and a partial map of entries; looking up at another version never hits,
  and an entry is only ever the value inserted for its key at the cache's version.

  The client side is proved once here: answering queries through the cache
  (\<open>cached_query\<close>) gives the same answers as computing them afresh, for every sequence of
  queries at arbitrary versions, whatever the cache evicts.
\<close>

fun cached_query ::
  "('v \<Rightarrow> 'k \<Rightarrow> 's \<Rightarrow> 'r option \<times> 's) \<Rightarrow> ('v \<Rightarrow> 'k \<Rightarrow> 'r \<Rightarrow> 's \<Rightarrow> 's) \<Rightarrow>
     ('v \<Rightarrow> 'k \<Rightarrow> 'r) \<Rightarrow> 'v \<times> 'k \<Rightarrow> 's \<Rightarrow> 'r \<times> 's" where
  "cached_query get ins compute (v, k) s =
     (case get v k s of
        (Some r, s') \<Rightarrow> (r, s')
      | (None, s') \<Rightarrow> (let r = compute v k in (r, ins v k r s')))"

fun cached_run ::
  "('v \<Rightarrow> 'k \<Rightarrow> 's \<Rightarrow> 'r option \<times> 's) \<Rightarrow> ('v \<Rightarrow> 'k \<Rightarrow> 'r \<Rightarrow> 's \<Rightarrow> 's) \<Rightarrow>
     ('v \<Rightarrow> 'k \<Rightarrow> 'r) \<Rightarrow> ('v \<times> 'k) list \<Rightarrow> 's \<Rightarrow> 'r list \<times> 's" where
  "cached_run get ins compute [] s = ([], s)"
| "cached_run get ins compute (q # qs) s =
     (case cached_query get ins compute q s of
        (r, s') \<Rightarrow> (case cached_run get ins compute qs s' of (rs, s'') \<Rightarrow> (r # rs, s'')))"

locale versioned_cache =
  fixes get :: "'v \<Rightarrow> 'k \<Rightarrow> 's \<Rightarrow> 'r option \<times> 's"
    and ins :: "'v \<Rightarrow> 'k \<Rightarrow> 'r \<Rightarrow> 's \<Rightarrow> 's"
    and holds :: "'s \<Rightarrow> 'v \<Rightarrow> 'k \<Rightarrow> 'r \<Rightarrow> bool"
  assumes get_hit: "get v k s = (Some r, s') \<Longrightarrow> holds s v k r"
    and get_keeps: "get v k s = (x, s') \<Longrightarrow> holds s' w k' r' \<Longrightarrow> holds s w k' r'"
    and ins_keeps:
      "holds (ins v k r s) w k' r' \<Longrightarrow> (w = v \<and> k' = k \<and> r' = r) \<or> holds s w k' r'"
begin

definition consistent :: "('v \<Rightarrow> 'k \<Rightarrow> 'r \<Rightarrow> bool) \<Rightarrow> 's \<Rightarrow> bool" where
  "consistent R s \<longleftrightarrow> (\<forall>v k r. holds s v k r \<longrightarrow> R v k r)"

lemma consistent_hit: "consistent R s \<Longrightarrow> get v k s = (Some r, s') \<Longrightarrow> R v k r"
  unfolding consistent_def using get_hit by blast

lemma consistent_get: "consistent R s \<Longrightarrow> get v k s = (x, s') \<Longrightarrow> consistent R s'"
  unfolding consistent_def using get_keeps by blast

lemma consistent_ins: "consistent R s \<Longrightarrow> R v k r \<Longrightarrow> consistent R (ins v k r s)"
  unfolding consistent_def using ins_keeps by blast

abbreviation exact :: "('v \<Rightarrow> 'k \<Rightarrow> 'r) \<Rightarrow> 'v \<Rightarrow> 'k \<Rightarrow> 'r \<Rightarrow> bool" where
  "exact c v k r \<equiv> r = c v k"

lemma cached_query_correct:
  assumes "consistent (exact c) s" "cached_query get ins c q s = (r, s')"
  shows "r = c (fst q) (snd q) \<and> consistent (exact c) s'"
proof -
  obtain v k where q: "q = (v, k)" by (cases q)
  obtain x t where g: "get v k s = (x, t)" by (cases "get v k s")
  from assms(1) g have t: "consistent (exact c) t" by (rule consistent_get)
  show ?thesis
  proof (cases x)
    case None
    then show ?thesis using assms(2) g q t consistent_ins by (auto simp: Let_def)
  next
    case (Some y)
    then have "y = c v k" using consistent_hit [OF assms(1)] g by simp
    then show ?thesis using assms(2) g q t Some by simp
  qed
qed

lemma cached_run_correct:
  "consistent (exact c) s \<Longrightarrow> fst (cached_run get ins c qs s) = map (\<lambda>(v, k). c v k) qs"
proof (induction qs arbitrary: s)
  case Nil
  then show ?case by simp
next
  case (Cons q qs)
  obtain r s' where q: "cached_query get ins c q s = (r, s')" by fastforce
  from cached_query_correct [OF Cons.prems q] Cons.IH [of s'] show ?case
    using q by (auto simp: split_beta)
qed

end

end
