(* ===== verification/Search_Cache.thy ===== *)
theory Search_Cache
  imports Protocol Cache_Interface
begin

text \<open>
  The \<open>search.grep\<close> result cache of \<^verbatim>\<open>src/crates/daemon/src/search_cache.rs\<close>: a least recently
  used list, oldest first, flushed whenever it is used at another change-log version.
\<close>

subsection \<open>State and operations\<close>

record SearchKey =
  sk_pattern :: string
  sk_path :: "string option"
  sk_glob :: "string option"
  sk_max_results :: "nat option"
  sk_case_insensitive :: bool
  sk_context :: nat

record SearchCache =
  sc_version :: nat
  sc_entries :: "(SearchKey \<times> SearchGrepResult) list"
  sc_capacity :: nat

definition search_cache_new :: "nat \<Rightarrow> SearchCache" where
  "search_cache_new capacity = \<lparr>sc_version = 0, sc_entries = [], sc_capacity = capacity\<rparr>"

definition search_cache_get ::
  "nat \<Rightarrow> SearchKey \<Rightarrow> SearchCache \<Rightarrow> SearchGrepResult option \<times> SearchCache" where
  "search_cache_get version key g =
     (if sc_capacity g = 0 then (None, g)
      else if sc_version g \<noteq> version
      then (None, g\<lparr>sc_version := version, sc_entries := []\<rparr>)
      else (case position (\<lambda>(k, _). k = key) (sc_entries g) of
              None \<Rightarrow> (None, g)
            | Some pos \<Rightarrow>
                (let entry = sc_entries g ! pos
                 in (Some (snd entry),
                     g\<lparr>sc_entries := remove_at pos (sc_entries g) @ [entry]\<rparr>))))"

definition search_cache_insert ::
  "nat \<Rightarrow> SearchKey \<Rightarrow> SearchGrepResult \<Rightarrow> SearchCache \<Rightarrow> SearchCache" where
  "search_cache_insert version key value g =
     (if sc_capacity g = 0 then g
      else let g1 = (if sc_version g \<noteq> version
                     then g\<lparr>sc_version := version, sc_entries := []\<rparr> else g);
               es = (case position (\<lambda>(k, _). k = key) (sc_entries g1) of
                       Some pos \<Rightarrow> remove_at pos (sc_entries g1)
                     | None \<Rightarrow> sc_entries g1)
           in g1\<lparr>sc_entries := pop_front_until (sc_capacity g1) es @ [(key, value)]\<rparr>)"

subsection \<open>Invariant and specification\<close>

definition search_cache_inv :: "SearchCache \<Rightarrow> bool" where
  "search_cache_inv g \<longleftrightarrow>
     distinct (map fst (sc_entries g)) \<and> length (sc_entries g) \<le> sc_capacity g"

definition search_cache_holds ::
  "SearchCache \<Rightarrow> nat \<Rightarrow> SearchKey \<Rightarrow> SearchGrepResult \<Rightarrow> bool" where
  "search_cache_holds g v k r \<longleftrightarrow> sc_version g = v \<and> (k, r) \<in> set (sc_entries g)"

datatype cache_op = Get nat SearchKey | Insert nat SearchKey SearchGrepResult

definition cache_step :: "cache_op \<Rightarrow> SearchCache \<Rightarrow> SearchCache" where
  "cache_step op g =
     (case op of Get v k \<Rightarrow> snd (search_cache_get v k g)
      | Insert v k r \<Rightarrow> search_cache_insert v k r g)"

text \<open>The keys used since the last flush, oldest use first: inserting a key uses it, and so
  does finding it.\<close>

definition trace_step :: "cache_op \<Rightarrow> SearchCache \<Rightarrow> SearchKey list \<Rightarrow> SearchKey list" where
  "trace_step op g tr =
     (case op of
        Get v k \<Rightarrow>
          if sc_version g \<noteq> v then []
          else if fst (search_cache_get v k g) \<noteq> None then tr @ [k] else tr
      | Insert v k r \<Rightarrow> (if sc_version g \<noteq> v then [] else tr) @ [k])"

fun run_ops :: "cache_op list \<Rightarrow> SearchCache \<times> SearchKey list \<Rightarrow> SearchCache \<times> SearchKey list" where
  "run_ops [] gt = gt"
| "run_ops (op # ops) (g, tr) = run_ops ops (cache_step op g, trace_step op g tr)"

definition lastn :: "nat \<Rightarrow> 'a list \<Rightarrow> 'a list" where
  "lastn n xs = drop (length xs - n) xs"

subsection \<open>Lemmas on recency lists\<close>

lemma lastn_snoc: "0 < n \<Longrightarrow> lastn n (xs @ [x]) = lastn (n - 1) xs @ [x]"
  by (cases n) (auto simp: lastn_def)

lemma remdups_snoc: "remdups (xs @ [x]) = filter (\<lambda>y. y \<noteq> x) (remdups xs) @ [x]"
  by (induction xs) auto

lemma length_filter_neq_distinct:
  "distinct xs \<Longrightarrow> length xs \<le> Suc (length (filter (\<lambda>y. y \<noteq> x) xs))"
proof (induction xs)
  case Nil
  then show ?case by simp
next
  case (Cons a xs)
  show ?case
  proof (cases "a = x")
    case True
    then have "filter (\<lambda>y. y \<noteq> x) xs = xs" using Cons.prems by (auto simp: filter_id_conv)
    then show ?thesis using True by simp
  next
    case False
    then show ?thesis using Cons by simp
  qed
qed

lemma lastn_filter_lastn:
  assumes "distinct xs" "0 < n"
  shows "lastn (n - 1) (filter (\<lambda>y. y \<noteq> x) (lastn n xs)) = lastn (n - 1) (filter (\<lambda>y. y \<noteq> x) xs)"
proof -
  let ?P = "\<lambda>y. y \<noteq> x"
  define pre where "pre = take (length xs - n) xs"
  have split: "xs = pre @ lastn n xs" by (simp add: pre_def lastn_def)
  have "n - 1 \<le> length (filter ?P (lastn n xs))" if "n \<le> length xs"
  proof -
    have "length (lastn n xs) = n" using that by (simp add: lastn_def)
    moreover have "distinct (lastn n xs)" using assms(1) by (simp add: lastn_def)
    ultimately show ?thesis using length_filter_neq_distinct [of "lastn n xs" x] by simp
  qed
  moreover have "lastn n xs = xs" if "\<not> n \<le> length xs" using that by (simp add: lastn_def)
  moreover have "lastn m (ys @ zs) = lastn m zs" if "m \<le> length zs" for m and ys zs :: "'a list"
    using that by (simp add: lastn_def)
  ultimately show ?thesis by (metis filter_append split)
qed

lemma remove_at_filter:
  assumes "distinct (map fst es)" "position (\<lambda>(k, _). k = key) es = Some pos"
  shows "map fst (remove_at pos es) = filter (\<lambda>k. k \<noteq> key) (map fst es)"
    and "fst (es ! pos) = key" "pos < length es"
proof -
  note D = position_SomeD [OF assms(2)]
  then show len: "pos < length es" and k: "fst (es ! pos) = key" by (auto simp: split_beta)
  have "map fst es = map fst (take pos es) @ key # map fst (drop (Suc pos) es)"
    using arg_cong [OF position_split [OF assms(2)], of "map fst"] k by simp
  moreover from this assms(1) have
    "key \<notin> set (map fst (take pos es))" "key \<notin> set (map fst (drop (Suc pos) es))"
    by (metis distinct_append disjoint_iff list.set_intros(1), metis distinct.simps(2) distinct_append)
  moreover have "filter (\<lambda>k. k \<noteq> key) ks = ks" if "key \<notin> set ks" for ks
    using that by (auto intro: filter_True)
  ultimately show "map fst (remove_at pos es) = filter (\<lambda>k. k \<noteq> key) (map fst es)"
    by (simp only: remove_at_def map_append filter_append filter.simps) simp
qed

lemma position_key_None: "position (\<lambda>(k, _). k = key) es = None \<longleftrightarrow> key \<notin> set (map fst es)"
  by (force simp: position_None)

lemma pop_front_lastn: "0 < cap \<Longrightarrow> pop_front_until cap xs = lastn (cap - 1) xs"
  by (cases cap) (simp_all add: pop_front_until_drop lastn_def)

lemma map_lastn: "map f (lastn n xs) = lastn n (map f xs)"
  by (simp add: lastn_def drop_map)

subsection \<open>The cache keeps the most recently used keys\<close>

lemma get_entries:
  assumes "search_cache_inv g" "sc_capacity g \<noteq> 0" "sc_version g = v"
  shows "fst (search_cache_get v k g) \<noteq> None \<longleftrightarrow> k \<in> set (map fst (sc_entries g))"
    and "k \<in> set (map fst (sc_entries g)) \<Longrightarrow>
      map fst (sc_entries (snd (search_cache_get v k g))) =
        filter (\<lambda>k'. k' \<noteq> k) (map fst (sc_entries g)) @ [k]"
    and "k \<notin> set (map fst (sc_entries g)) \<Longrightarrow> snd (search_cache_get v k g) = g"
proof -
  have d: "distinct (map fst (sc_entries g))" using assms(1) by (simp add: search_cache_inv_def)
  let ?p = "position (\<lambda>(k', _). k' = k) (sc_entries g)"
  show "fst (search_cache_get v k g) \<noteq> None \<longleftrightarrow> k \<in> set (map fst (sc_entries g))"
    using assms(2,3) position_key_None [of k "sc_entries g"]
    by (cases ?p) (simp_all add: search_cache_get_def Let_def)
  show "snd (search_cache_get v k g) = g" if "k \<notin> set (map fst (sc_entries g))"
  proof -
    have "?p = None" using that by (simp add: position_key_None)
    then show ?thesis using assms(2,3) by (simp add: search_cache_get_def)
  qed
  show "map fst (sc_entries (snd (search_cache_get v k g))) =
      filter (\<lambda>k'. k' \<noteq> k) (map fst (sc_entries g)) @ [k]"
    if "k \<in> set (map fst (sc_entries g))"
  proof -
    have "?p \<noteq> None" using that position_key_None [of k "sc_entries g"] by simp
    then obtain pos where pos: "?p = Some pos" by blast
    then show ?thesis
      using assms(2,3) remove_at_filter [OF d pos] by (simp add: search_cache_get_def Let_def)
  qed
qed

lemma insert_entries:
  assumes "search_cache_inv g" "sc_capacity g \<noteq> 0"
  shows "map fst (sc_entries (search_cache_insert v k r g)) =
    lastn (sc_capacity g - 1)
      (filter (\<lambda>k'. k' \<noteq> k) (if sc_version g = v then map fst (sc_entries g) else [])) @ [k]"
proof (cases "sc_version g = v")
  case False
  then show ?thesis using assms(2) by (simp add: search_cache_insert_def Let_def lastn_def)
next
  case True
  have d: "distinct (map fst (sc_entries g))" using assms(1) by (simp add: search_cache_inv_def)
  let ?p = "position (\<lambda>(k', _). k' = k) (sc_entries g)"
  have "map fst (case ?p of Some pos \<Rightarrow> remove_at pos (sc_entries g) | None \<Rightarrow> sc_entries g) =
      filter (\<lambda>k'. k' \<noteq> k) (map fst (sc_entries g))"
  proof (cases ?p)
    case None
    then have "k \<notin> set (map fst (sc_entries g))"
      using position_key_None [of k "sc_entries g"] by simp
    then have "\<forall>k' \<in> set (map fst (sc_entries g)). k' \<noteq> k" by blast
    then have "filter (\<lambda>k'. k' \<noteq> k) (map fst (sc_entries g)) = map fst (sc_entries g)"
      by (rule filter_True)
    with None show ?thesis by simp
  next
    case (Some pos)
    then show ?thesis using remove_at_filter(1) [OF d] by simp
  qed
  then show ?thesis
    using assms(2) True
    by (simp add: search_cache_insert_def Let_def pop_front_lastn map_lastn)
qed

lemma cache_step_inv: "search_cache_inv g \<Longrightarrow> search_cache_inv (cache_step op g)"
proof -
  assume inv: "search_cache_inv g"
  show ?thesis
  proof (cases "sc_capacity g = 0")
    case True
    then show ?thesis using inv
      by (simp add: cache_step_def search_cache_get_def search_cache_insert_def split: cache_op.split)
  next
    case False
    show ?thesis
    proof (cases op)
      case (Get v k)
      show ?thesis
      proof (cases "sc_version g = v")
        case True
        let ?g' = "snd (search_cache_get v k g)"
        have cap: "sc_capacity ?g' = sc_capacity g"
          by (simp add: search_cache_get_def Let_def split: option.split)
        note E = get_entries [OF inv False True, of k]
        have "distinct (map fst (sc_entries ?g')) \<and>
            length (map fst (sc_entries ?g')) \<le> length (map fst (sc_entries g))"
        proof (cases "k \<in> set (map fst (sc_entries g))")
          case True
          have "length (filter (\<lambda>k'. k' \<noteq> k) (map fst (sc_entries g))) < length (map fst (sc_entries g))"
            by (rule length_filter_less [OF True]) simp
          then show ?thesis
            unfolding E(2) [OF True] using inv by (simp add: search_cache_inv_def)
        next
          case False
          then show ?thesis using E(3) inv by (simp add: search_cache_inv_def)
        qed
        then show ?thesis
          using inv cap Get by (simp add: cache_step_def search_cache_inv_def)
      next
        case False
        then show ?thesis using Get \<open>sc_capacity g \<noteq> 0\<close>
          by (simp add: cache_step_def search_cache_get_def search_cache_inv_def)
      qed
    next
      case (Insert v k r)
      let ?g' = "search_cache_insert v k r g"
      have cap: "sc_capacity ?g' = sc_capacity g" by (simp add: search_cache_insert_def Let_def)
      note E = insert_entries [OF inv False, of v k r]
      have "distinct (map fst (sc_entries ?g'))"
        unfolding E using inv by (auto simp: lastn_def search_cache_inv_def dest: in_set_dropD)
      moreover have "length (map fst (sc_entries ?g')) \<le> sc_capacity g"
        unfolding E using False by (simp add: lastn_def)
      ultimately show ?thesis using cap Insert by (simp add: cache_step_def search_cache_inv_def)
    qed
  qed
qed

lemma cache_step_capacity: "sc_capacity (cache_step op g) = sc_capacity g"
  by (simp add: cache_step_def search_cache_get_def search_cache_insert_def Let_def
      split: cache_op.split option.split)

lemma cache_step_recency:
  assumes "search_cache_inv g" "sc_capacity g \<noteq> 0"
    and "map fst (sc_entries g) = lastn (sc_capacity g) (remdups tr)"
  shows "map fst (sc_entries (cache_step op g)) =
    lastn (sc_capacity g) (remdups (trace_step op g tr))"
proof -
  have use: "filter (\<lambda>k'. k' \<noteq> k) (map fst (sc_entries g)) @ [k] =
      lastn (sc_capacity g) (remdups (tr @ [k]))" if "k \<in> set (map fst (sc_entries g))" for k
  proof -
    have "length (filter (\<lambda>k'. k' \<noteq> k) (map fst (sc_entries g))) < length (map fst (sc_entries g))"
      by (rule length_filter_less [OF that]) simp
    then have "length (filter (\<lambda>k'. k' \<noteq> k) (map fst (sc_entries g))) \<le> sc_capacity g - 1"
      using assms(1) by (auto simp: search_cache_inv_def)
    then have "filter (\<lambda>k'. k' \<noteq> k) (map fst (sc_entries g)) =
        lastn (sc_capacity g - 1) (filter (\<lambda>k'. k' \<noteq> k) (map fst (sc_entries g)))"
      by (simp add: lastn_def)
    also have "\<dots> = lastn (sc_capacity g - 1) (filter (\<lambda>k'. k' \<noteq> k) (remdups tr))"
      unfolding assms(3) using assms(2) by (intro lastn_filter_lastn) simp_all
    finally show ?thesis using assms(2) by (simp add: remdups_snoc lastn_snoc)
  qed
  show ?thesis
  proof (cases op)
    case (Get v k)
    show ?thesis
    proof (cases "sc_version g = v")
      case True
      note E = get_entries [OF assms(1,2) True, of k]
      show ?thesis
        using E(1) E(2) E(3) use [of k] assms(3) Get True
        by (cases "k \<in> set (map fst (sc_entries g))") (simp_all add: cache_step_def trace_step_def)
    next
      case False
      then show ?thesis using Get assms(2)
        by (simp add: cache_step_def trace_step_def search_cache_get_def lastn_def)
    qed
  next
    case (Insert v k r)
    have "lastn (sc_capacity g - 1) (filter (\<lambda>k'. k' \<noteq> k) (map fst (sc_entries g))) @ [k] =
        lastn (sc_capacity g) (remdups (tr @ [k]))"
      unfolding assms(3) using assms(2) lastn_filter_lastn [of "remdups tr" "sc_capacity g" k]
      by (simp add: remdups_snoc lastn_snoc)
    then show ?thesis
      using insert_entries [OF assms(1,2), of v k r] Insert assms(2)
      by (simp add: cache_step_def trace_step_def lastn_def)
  qed
qed

lemma run_ops_recency:
  "search_cache_inv g \<Longrightarrow> sc_capacity g \<noteq> 0 \<Longrightarrow>
   map fst (sc_entries g) = lastn (sc_capacity g) (remdups tr) \<Longrightarrow>
   run_ops ops (g, tr) = (g', tr') \<Longrightarrow>
   map fst (sc_entries g') = lastn (sc_capacity g) (remdups tr')"
proof (induction ops arbitrary: g tr)
  case Nil
  then show ?case by simp
next
  case (Cons op ops)
  from Cons.IH [OF cache_step_inv [OF Cons.prems(1)] _ _ ] Cons.prems
    cache_step_recency [OF Cons.prems(1-3), of op]
  show ?case by (simp add: cache_step_capacity)
qed

subsection \<open>The cache meets the client contract\<close>

lemma get_shrinks:
  assumes "search_cache_get v k s = (x, s')"
  shows "sc_version s' = sc_version s \<and> set (sc_entries s') \<subseteq> set (sc_entries s) \<or>
    sc_entries s' = []"
proof (cases "position (\<lambda>(k', _). k' = k) (sc_entries s)")
  case None
  then show ?thesis using assms by (auto simp: search_cache_get_def split: if_splits)
next
  case (Some pos)
  have "set (remove_at pos (sc_entries s) @ [sc_entries s ! pos]) \<subseteq> set (sc_entries s)"
    using position_SomeD [OF Some] set_remove_at_subset [of pos "sc_entries s"] by simp
  then show ?thesis
    using assms Some by (auto simp: search_cache_get_def Let_def split: if_splits)
qed

interpretation sc: versioned_cache search_cache_get search_cache_insert search_cache_holds
proof
  fix v k s r s'
  assume "search_cache_get v k s = (Some r, s')"
  then obtain pos where "sc_version s = v" "position (\<lambda>(k', _). k' = k) (sc_entries s) = Some pos"
    "r = snd (sc_entries s ! pos)"
    by (auto simp: search_cache_get_def Let_def split: if_splits option.splits)
  with position_SomeD [of "\<lambda>(k', _). k' = k" "sc_entries s" pos]
  have "(k, r) = sc_entries s ! pos" "pos < length (sc_entries s)"
    by (auto simp: split_beta)
  then show "search_cache_holds s v k r"
    using \<open>sc_version s = v\<close> by (simp add: search_cache_holds_def)
next
  fix v k s x s' w k' r'
  assume g: "search_cache_get v k s = (x, s')" and "search_cache_holds s' w k' r'"
  moreover have "sc_version s' = sc_version s \<and> set (sc_entries s') \<subseteq> set (sc_entries s) \<or>
      sc_entries s' = []"
    using get_shrinks [OF g] .
  ultimately show "search_cache_holds s w k' r'" by (auto simp: search_cache_holds_def)
next
  fix v k r s w k' r'
  assume "search_cache_holds (search_cache_insert v k r s) w k' r'"
  moreover have "search_cache_insert v k r s = s \<or>
      sc_version (search_cache_insert v k r s) = v \<and>
      set (sc_entries (search_cache_insert v k r s)) \<subseteq>
        insert (k, r) (if sc_version s = v then set (sc_entries s) else {})"
  proof -
    let ?es = "case position (\<lambda>(k', _). k' = k) (sc_entries s) of
        Some pos \<Rightarrow> remove_at pos (sc_entries s) | None \<Rightarrow> sc_entries s"
    have "set ?es \<subseteq> set (sc_entries s)"
      by (cases "position (\<lambda>(k', _). k' = k) (sc_entries s)") (simp_all add: set_remove_at_subset)
    then have "set (pop_front_until (sc_capacity s) ?es) \<subseteq> set (sc_entries s)"
      by (rule order_trans [OF set_pop_front_until])
    then show ?thesis by (auto simp: search_cache_insert_def Let_def)
  qed
  ultimately show "w = v \<and> k' = k \<and> r' = r \<or> search_cache_holds s w k' r'"
    by (auto simp: search_cache_holds_def split: if_splits)
qed

lemma search_cache_new_consistent: "sc.consistent c (search_cache_new cap)"
  by (simp add: sc.consistent_def search_cache_holds_def search_cache_new_def)

lemma insert_then_get:
  assumes "search_cache_inv g" "sc_capacity g \<noteq> 0"
  shows "fst (search_cache_get v k (search_cache_insert v k r g)) = Some r"
proof -
  let ?g = "search_cache_insert v k r g"
  have inv: "search_cache_inv ?g"
    using cache_step_inv [OF assms(1), of "Insert v k r"] by (simp add: cache_step_def)
  have g: "sc_version ?g = v" "sc_capacity ?g \<noteq> 0" "(k, r) \<in> set (sc_entries ?g)"
    using assms(2) by (auto simp: search_cache_insert_def Let_def)
  then have "k \<in> set (map fst (sc_entries ?g))" by force
  with get_entries(1) [OF inv g(2) g(1)] obtain r' where
    hit: "fst (search_cache_get v k ?g) = Some r'" by blast
  then obtain s' where "search_cache_get v k ?g = (Some r', s')" by (metis prod.collapse)
  then have "(k, r') \<in> set (sc_entries ?g)"
    using sc.get_hit by (simp add: search_cache_holds_def)
  with g(3) inv have "r' = r" by (auto simp: search_cache_inv_def dest: eq_key_imp_eq_value)
  with hit show ?thesis by simp
qed

subsection \<open>Properties\<close>

text \<open>Answering grep queries through the cache is indistinguishable from computing them:
  for every sequence of queries, each at its own change-log version, a run through a fresh
  cache of any capacity returns exactly the computed results.\<close>

theorem search_cache_transparent:
  "fst (cached_run search_cache_get search_cache_insert compute qs (search_cache_new cap)) =
     map (\<lambda>(v, k). compute v k) qs"
  by (rule sc.cached_run_correct [OF search_cache_new_consistent])

text \<open>The cache is an LRU cache: after any sequence of lookups and insertions on a cache of
  capacity \<open>cap > 0\<close>, its keys are exactly the \<open>cap\<close> most recently used distinct keys since
  the last version change, in order of their last use.\<close>

theorem search_cache_is_lru:
  assumes "0 < cap" "run_ops ops (search_cache_new cap, []) = (g, tr)"
  shows "map fst (sc_entries g) = lastn cap (remdups tr)"
  using run_ops_recency [of "search_cache_new cap" "[]" ops g tr] assms
  by (simp add: search_cache_inv_def search_cache_new_def lastn_def)

theorem search_cache_is_lru_witness:
  "\<exists>k1 k2 r. map fst (sc_entries (fst (run_ops
      [Insert 1 k1 r, Insert 1 k2 r, Get 1 k1, Insert 1 (k2\<lparr>sk_context := 5\<rparr>) r]
      (search_cache_new 2, [])))) = [k1, k2\<lparr>sk_context := 5\<rparr>] \<and> k1 \<noteq> k2"
proof -
  let ?k = "\<lambda>p. \<lparr>sk_pattern = p, sk_path = None, sk_glob = None, sk_max_results = None,
      sk_case_insensitive = False, sk_context = 0\<rparr>"
  let ?r = "\<lparr>sgr_hits = [], sgr_truncated = False, sgr_compact = None\<rparr>"
  let ?ops = "[Insert 1 (?k ''a'') ?r, Insert 1 (?k ''b'') ?r, Get 1 (?k ''a''),
      Insert 1 ((?k ''b'')\<lparr>sk_context := 5\<rparr>) ?r]"
  obtain g tr where run: "run_ops ?ops (search_cache_new 2, []) = (g, tr)" by fastforce
  have tr: "tr = [?k ''a'', ?k ''b'', ?k ''a'', (?k ''b'')\<lparr>sk_context := 5\<rparr>]"
    using run by (simp add: trace_step_def cache_step_def search_cache_new_def
        search_cache_insert_def search_cache_get_def Let_def remove_at_def split: if_splits)
  from search_cache_is_lru [OF _ run] have
    "map fst (sc_entries g) = [?k ''a'', (?k ''b'')\<lparr>sk_context := 5\<rparr>]"
    unfolding tr by (simp add: lastn_def)
  then have "map fst (sc_entries (fst (run_ops ?ops (search_cache_new 2, [])))) =
      [?k ''a'', (?k ''b'')\<lparr>sk_context := 5\<rparr>]" unfolding run by simp
  then show ?thesis by (intro exI [of _ "?k ''a''"] exI [of _ "?k ''b''"] exI [of _ ?r]) simp
qed

text \<open>A result just inserted is found again at the same version, and every operation
  keeps the keys distinct and the cache within its capacity.\<close>

theorem search_cache_insert_get:
  assumes "search_cache_inv g" "sc_capacity g \<noteq> 0"
  shows "fst (search_cache_get v k (search_cache_insert v k r g)) = Some r \<and>
    search_cache_inv (cache_step op g)"
  using insert_then_get [OF assms] cache_step_inv [OF assms(1)] by blast

theorem search_cache_insert_get_witness:
  "\<forall>k r. fst (search_cache_get 3 k (search_cache_insert 3 k r (search_cache_new 1))) = Some r"
  using search_cache_insert_get [of "search_cache_new 1" 3]
  by (simp add: search_cache_new_def search_cache_inv_def)

end
