(* ===== verification/Rust_Str.thy ===== *)
theory Rust_Str
  imports Prelude
begin

text \<open>
  The operations of Rust's \<open>str\<close>, \<open>String\<close> and \<open>Path\<close> that the sources use. A string is the
  list of its UTF-8 bytes, as Rust stores it: \<open>len\<close> is \<open>length\<close>, slicing is by byte offset
  and panics off a character boundary (\<open>str_slice\<close>), and searching for a string is searching
  for its bytes.

  White space is Unicode's \<open>White_Space\<close> property, recognised on its UTF-8 encodings.
  \<open>to_lowercase\<close> gives the exact image of every character whose lower case contains an ASCII
  letter (the ASCII capitals, U+0130 and U+212A) and leaves the others alone: the sources
  only search the result for ASCII keywords.
\<close>

subsection \<open>Searching and splitting\<close>

abbreviation nl :: char where "nl \<equiv> CHR 0x0A"
abbreviation cr :: char where "cr \<equiv> CHR 0x0D"

definition starts_with :: "string \<Rightarrow> string \<Rightarrow> bool" where
  "starts_with p s \<longleftrightarrow> take (length p) s = p"

definition ends_with :: "string \<Rightarrow> string \<Rightarrow> bool" where
  "ends_with p s \<longleftrightarrow> length p \<le> length s \<and> drop (length s - length p) s = p"

definition strip_prefix :: "string \<Rightarrow> string \<Rightarrow> string option" where
  "strip_prefix p s = (if starts_with p s then Some (drop (length p) s) else None)"

fun str_contains :: "string \<Rightarrow> string \<Rightarrow> bool" where
  "str_contains p [] \<longleftrightarrow> p = []"
| "str_contains p (c # s) \<longleftrightarrow> starts_with p (c # s) \<or> str_contains p s"

fun split_inclusive :: "char \<Rightarrow> string \<Rightarrow> string list" where
  "split_inclusive d [] = []"
| "split_inclusive d (c # s) =
     (if c = d then [c] # split_inclusive d s
      else (case split_inclusive d s of [] \<Rightarrow> [[c]] | l # ls \<Rightarrow> (c # l) # ls))"

text \<open>\<open>str::lines\<close>: a line loses its line feed and, if it had one, the carriage return before
  it.\<close>

definition strip_line_end :: "string \<Rightarrow> string" where
  "strip_line_end l =
     (if l \<noteq> [] \<and> last l = nl
      then (let l' = butlast l in if l' \<noteq> [] \<and> last l' = cr then butlast l' else l')
      else l)"

definition str_lines :: "string \<Rightarrow> string list" where
  "str_lines s = map strip_line_end (split_inclusive nl s)"

fun split_on :: "char \<Rightarrow> string \<Rightarrow> string list" where
  "split_on d [] = [[]]"
| "split_on d (c # s) =
     (if c = d then [] # split_on d s
      else (case split_on d s of [] \<Rightarrow> [[c]] | p # ps \<Rightarrow> (c # p) # ps))"

fun join :: "string \<Rightarrow> string list \<Rightarrow> string" where
  "join sep [] = []"
| "join sep [s] = s"
| "join sep (s # t # ss) = s @ sep @ join sep (t # ss)"

text \<open>Non-overlapping matches of a non-empty needle from left to right:
  \<open>str::matches(..).count()\<close> and \<open>str::replace\<close>.\<close>

function matches_count :: "string \<Rightarrow> string \<Rightarrow> nat" where
  "matches_count p s =
     (if p = [] \<or> s = [] then 0
      else if starts_with p s then Suc (matches_count p (drop (length p) s))
      else matches_count p (tl s))"
  by pat_completeness auto
termination by (relation "measure (length \<circ> snd)") (auto simp: starts_with_def)

function str_replace :: "string \<Rightarrow> string \<Rightarrow> string \<Rightarrow> string" where
  "str_replace p r s =
     (if p = [] \<or> s = [] then s
      else if starts_with p s then r @ str_replace p r (drop (length p) s)
      else hd s # str_replace p r (tl s))"
  by pat_completeness auto
termination by (relation "measure (length \<circ> snd \<circ> snd)") (auto simp: starts_with_def)

declare matches_count.simps [simp del] str_replace.simps [simp del]

subsection \<open>White space\<close>

definition byte :: "char \<Rightarrow> nat" where
  "byte c = of_char c"

text \<open>Length of the white-space character at the front of a string, 0 if there is none; and
  the same for the bytes of a string read backwards.\<close>

definition ws_len :: "string \<Rightarrow> nat" where
  "ws_len s =
     (case map byte (take 3 s) of
        [] \<Rightarrow> 0
      | b # r \<Rightarrow>
          if b = 32 \<or> (9 \<le> b \<and> b \<le> 13) then 1
          else (case r of
                  [] \<Rightarrow> 0
                | c # t \<Rightarrow>
                    if b = 0xC2 \<and> (c = 0x85 \<or> c = 0xA0) then 2
                    else (case t of
                            [] \<Rightarrow> 0
                          | d # _ \<Rightarrow>
                              if (b = 0xE1 \<and> c = 0x9A \<and> d = 0x80) \<or>
                                 (b = 0xE2 \<and> c = 0x80 \<and>
                                   ((0x80 \<le> d \<and> d \<le> 0x8A) \<or> d = 0xA8 \<or> d = 0xA9 \<or> d = 0xAF)) \<or>
                                 (b = 0xE2 \<and> c = 0x81 \<and> d = 0x9F) \<or>
                                 (b = 0xE3 \<and> c = 0x80 \<and> d = 0x80)
                              then 3 else 0)))"

definition ws_len_back :: "string \<Rightarrow> nat" where
  "ws_len_back r =
     (if ws_len (rev (take 1 r)) = 1 then 1
      else if length r \<ge> 2 \<and> ws_len (rev (take 2 r)) = 2 then 2
      else if length r \<ge> 3 \<and> ws_len (rev (take 3 r)) = 3 then 3
      else 0)"

lemma ws_len_Nil [simp]: "ws_len [] = 0"
  by (simp add: ws_len_def)

lemma ws_len_drop: "ws_len s \<noteq> 0 \<Longrightarrow> length (drop (ws_len s) s) < length s"
  by (cases "s = []") simp_all

function trim_start :: "string \<Rightarrow> string" where
  "trim_start s = (if ws_len s = 0 then s else trim_start (drop (ws_len s) s))"
  by pat_completeness auto
termination by (relation "measure length") (simp_all add: ws_len_drop del: length_drop)

function trim_back :: "string \<Rightarrow> string" where
  "trim_back r = (if ws_len_back r = 0 then r else trim_back (drop (ws_len_back r) r))"
  by pat_completeness auto
termination
proof (relation "measure length")
  fix r :: string
  assume "ws_len_back r \<noteq> 0"
  then have "r \<noteq> []" by (cases r) (simp_all add: ws_len_back_def ws_len_def)
  with \<open>ws_len_back r \<noteq> 0\<close> show "(drop (ws_len_back r) r, r) \<in> measure length" by simp
qed simp

declare trim_start.simps [simp del] trim_back.simps [simp del]

definition trim_end :: "string \<Rightarrow> string" where
  "trim_end s = rev (trim_back (rev s))"

definition trim :: "string \<Rightarrow> string" where
  "trim s = trim_end (trim_start s)"

text \<open>\<open>split_whitespace\<close> with the current word as an accumulator.\<close>

function split_ws :: "string \<Rightarrow> string \<Rightarrow> string list" where
  "split_ws w s =
     (if s = [] then (if w = [] then [] else [w])
      else if ws_len s = 0 then split_ws (w @ [hd s]) (tl s)
      else (if w = [] then [] else [w]) @ split_ws [] (drop (ws_len s) s))"
  by pat_completeness auto
termination by (relation "measure (length \<circ> snd)") (simp_all add: ws_len_drop del: length_drop)

declare split_ws.simps [simp del]

definition split_whitespace :: "string \<Rightarrow> string list" where
  "split_whitespace s = split_ws [] s"

subsection \<open>Case, digits, alphabets\<close>

definition ascii_lower :: "char \<Rightarrow> char" where
  "ascii_lower c = (if 65 \<le> byte c \<and> byte c \<le> 90 then char_of (byte c + 32) else c)"

fun to_lowercase :: "string \<Rightarrow> string" where
  "to_lowercase [] = []"
| "to_lowercase [a] = [ascii_lower a]"
| "to_lowercase [a, b] =
     (if byte a = 0xC4 \<and> byte b = 0xB0 then [CHR ''i'', char_of (0xCC::nat), char_of (0x87::nat)]
      else ascii_lower a # to_lowercase [b])"
| "to_lowercase (a # b # c # s) =
     (if byte a = 0xC4 \<and> byte b = 0xB0
      then [CHR ''i'', char_of (0xCC::nat), char_of (0x87::nat)] @ to_lowercase (c # s)
      else if byte a = 0xE2 \<and> byte b = 0x84 \<and> byte c = 0xAA then CHR ''k'' # to_lowercase s
      else ascii_lower a # to_lowercase (b # c # s))"

definition is_ascii_digit :: "char \<Rightarrow> bool" where
  "is_ascii_digit c \<longleftrightarrow> 48 \<le> byte c \<and> byte c \<le> 57"

definition is_ascii_alphanumeric :: "char \<Rightarrow> bool" where
  "is_ascii_alphanumeric c \<longleftrightarrow>
     is_ascii_digit c \<or> (65 \<le> byte c \<and> byte c \<le> 90) \<or> (97 \<le> byte c \<and> byte c \<le> 122)"

definition digits_value :: "string \<Rightarrow> nat" where
  "digits_value ds = foldl (\<lambda>n c. n * 10 + (byte c - 48)) 0 ds"

text \<open>\<open>str::parse::<usize>\<close>: an optional plus sign, then at least one digit, within range.\<close>

definition parse_usize :: "string \<Rightarrow> nat option" where
  "parse_usize s =
     (let ds = (case s of [] \<Rightarrow> [] | c # t \<Rightarrow> if c = CHR ''+'' then t else s)
      in if ds \<noteq> [] \<and> list_all is_ascii_digit ds \<and> digits_value ds \<le> usize_max
         then Some (digits_value ds) else None)"

subsection \<open>UTF-8\<close>

text \<open>One step of \<open>Utf8Chunks\<close>: whether the string starts with a well-formed character, and
  the length of that character or of the maximal ill-formed prefix.\<close>

definition is_cont :: "nat \<Rightarrow> bool" where
  "is_cont b \<longleftrightarrow> 0x80 \<le> b \<and> b \<le> 0xBF"

definition second_ok :: "nat \<Rightarrow> nat \<Rightarrow> bool" where
  "second_ok b c \<longleftrightarrow>
     (b = 0xE0 \<and> 0xA0 \<le> c \<and> c \<le> 0xBF) \<or> (0xE1 \<le> b \<and> b \<le> 0xEC \<and> is_cont c) \<or>
     (b = 0xED \<and> 0x80 \<le> c \<and> c \<le> 0x9F) \<or> (0xEE \<le> b \<and> b \<le> 0xEF \<and> is_cont c) \<or>
     (b = 0xF0 \<and> 0x90 \<le> c \<and> c \<le> 0xBF) \<or> (0xF1 \<le> b \<and> b \<le> 0xF3 \<and> is_cont c) \<or>
     (b = 0xF4 \<and> 0x80 \<le> c \<and> c \<le> 0x8F)"

definition byte_at :: "string \<Rightarrow> nat \<Rightarrow> nat" where
  "byte_at s i = (if i < length s then byte (s ! i) else 0)"

definition utf8_scan :: "string \<Rightarrow> bool \<times> nat" where
  "utf8_scan s =
     (let b = byte_at s 0; c = byte_at s 1; d = byte_at s 2; e = byte_at s 3
      in if b < 0x80 then (True, 1)
         else if 0xC2 \<le> b \<and> b \<le> 0xDF then (if is_cont c then (True, 2) else (False, 1))
         else if 0xE0 \<le> b \<and> b \<le> 0xEF
         then (if \<not> second_ok b c then (False, 1)
               else if \<not> is_cont d then (False, 2) else (True, 3))
         else if 0xF0 \<le> b \<and> b \<le> 0xF4
         then (if \<not> second_ok b c then (False, 1)
               else if \<not> is_cont d then (False, 2)
               else if \<not> is_cont e then (False, 3) else (True, 4))
         else (False, 1))"

definition replacement_char :: string where
  "replacement_char = [char_of (0xEF::nat), char_of (0xBF::nat), char_of (0xBD::nat)]"

lemma utf8_scan_pos: "0 < snd (utf8_scan s)"
  by (simp add: utf8_scan_def Let_def)

lemma utf8_scan_drop: "s \<noteq> [] \<Longrightarrow> length (drop (snd (utf8_scan s)) s) < length s"
  using utf8_scan_pos [of s] by simp

function from_utf8_lossy :: "string \<Rightarrow> string" where
  "from_utf8_lossy s =
     (if s = [] then []
      else (if fst (utf8_scan s) then take (snd (utf8_scan s)) s else replacement_char) @
           from_utf8_lossy (drop (snd (utf8_scan s)) s))"
  by pat_completeness auto
termination by (relation "measure length") (simp_all add: utf8_scan_drop del: length_drop)

function valid_utf8 :: "string \<Rightarrow> bool" where
  "valid_utf8 s \<longleftrightarrow>
     (if s = [] then True
      else fst (utf8_scan s) \<and> valid_utf8 (drop (snd (utf8_scan s)) s))"
  by pat_completeness auto
termination by (relation "measure length") (simp_all add: utf8_scan_drop del: length_drop)

declare from_utf8_lossy.simps [simp del] valid_utf8.simps [simp del]

definition is_char_boundary :: "string \<Rightarrow> nat \<Rightarrow> bool" where
  "is_char_boundary s i \<longleftrightarrow>
     i = 0 \<or> i = length s \<or> (i < length s \<and> \<not> is_cont (byte (s ! i)))"

text \<open>\<open>&s[a..b]\<close>: \<open>None\<close> is the panic.\<close>

definition str_slice :: "nat \<Rightarrow> nat \<Rightarrow> string \<Rightarrow> string option" where
  "str_slice a b s =
     (if a \<le> b \<and> b \<le> length s \<and> is_char_boundary s a \<and> is_char_boundary s b
      then Some (take (b - a) (drop a s)) else None)"

subsection \<open>Lemmas\<close>

lemma starts_with_iff: "starts_with p s \<longleftrightarrow> (\<exists>t. s = p @ t)"
  by (metis append_eq_conv_conj append_take_drop_id starts_with_def)

lemma starts_with_append [simp]: "starts_with p (p @ s)"
  by (simp add: starts_with_def)

lemma concat_split_inclusive [simp]: "concat (split_inclusive d s) = s"
  by (induction d s rule: split_inclusive.induct) (auto split: list.splits)

lemma split_inclusive_nonempty: "l \<in> set (split_inclusive d s) \<Longrightarrow> l \<noteq> []"
  by (induction d s arbitrary: l rule: split_inclusive.induct) (auto split: list.splits if_splits)

lemma split_inclusive_line:
  "d \<notin> set l \<Longrightarrow> split_inclusive d (l @ d # s) = (l @ [d]) # split_inclusive d s"
  by (induction l) auto

lemma split_inclusive_last: "d \<notin> set l \<Longrightarrow> l \<noteq> [] \<Longrightarrow> split_inclusive d l = [l]"
proof (induction l)
  case (Cons c l)
  then show ?case by (cases "l = []") auto
qed simp

lemma matches_count_bound: "length p * matches_count p s \<le> length s"
proof (induction p s rule: matches_count.induct)
  case (1 p s)
  show ?case
  proof (cases "p = [] \<or> s = []")
    case True
    then show ?thesis by (subst matches_count.simps) simp
  next
    case False
    show ?thesis
    proof (cases "starts_with p s")
      case True
      then have "length p \<le> length s" by (metis length_take min.cobounded1 min_def starts_with_def)
      moreover have "length p * matches_count p (drop (length p) s) \<le> length s - length p"
        using "1.IH"(1) [OF False True] by simp
      ultimately show ?thesis using False True by (subst matches_count.simps) simp
    next
      case nst: False
      have "length p * matches_count p (tl s) \<le> length (tl s)"
        using "1.IH"(2) [OF False nst] .
      then show ?thesis using False nst by (subst matches_count.simps) simp
    qed
  qed
qed

lemma str_replace_none: "matches_count p s = 0 \<Longrightarrow> str_replace p r s = s"
proof (induction p r s rule: str_replace.induct)
  case (1 p r s)
  show ?case
  proof (cases "p = [] \<or> s = []")
    case True
    then show ?thesis by (subst str_replace.simps) simp
  next
    case False
    moreover have "\<not> starts_with p s"
      using "1.prems" False by (subst (asm) matches_count.simps) (simp split: if_splits)
    moreover have "matches_count p (tl s) = 0"
      using "1.prems" calculation by (subst (asm) matches_count.simps) simp
    ultimately show ?thesis using "1.IH"(2) by (subst str_replace.simps) simp
  qed
qed

lemma str_replace_length:
  "length (str_replace p r s) + length p * matches_count p s =
     length s + length r * matches_count p s"
proof (induction p r s rule: str_replace.induct)
  case (1 p r s)
  show ?case
  proof (cases "p = [] \<or> s = []")
    case True
    then show ?thesis by (subst str_replace.simps, subst (1 2) matches_count.simps) simp
  next
    case False
    show ?thesis
    proof (cases "starts_with p s")
      case True
      then have "length p \<le> length s" by (metis length_take min.cobounded1 min_def starts_with_def)
      then show ?thesis
        using "1.IH"(1) [OF False True] False True
        by (subst str_replace.simps, subst (1 2) matches_count.simps) simp
    next
      case nst: False
      obtain c t where s: "s = c # t" using False by (cases s) simp_all
      have "length (str_replace p r t) + length p * matches_count p t =
              length t + length r * matches_count p t"
        using "1.IH"(2) [OF False nst] s by simp
      then show ?thesis
        using False nst s
        by (simp add: str_replace.simps [of p r "c # t"] matches_count.simps [of p "c # t"])
    qed
  qed
qed

lemma from_utf8_lossy_valid: "valid_utf8 s \<Longrightarrow> from_utf8_lossy s = s"
proof (induction s rule: from_utf8_lossy.induct)
  case (1 s)
  show ?case
  proof (cases "s = []")
    case True
    then show ?thesis by (subst from_utf8_lossy.simps) simp
  next
    case False
    with "1.prems" have "fst (utf8_scan s)" "valid_utf8 (drop (snd (utf8_scan s)) s)"
      by (simp_all add: valid_utf8.simps [of s])
    with False "1.IH" show ?thesis by (simp add: from_utf8_lossy.simps [of s])
  qed
qed

lemma utf8_scan_ascii: "byte c < 128 \<Longrightarrow> utf8_scan (c # s) = (True, 1)"
  by (simp add: utf8_scan_def byte_at_def Let_def)

lemma valid_utf8_ascii: "\<forall>c \<in> set s. byte c < 128 \<Longrightarrow> valid_utf8 s"
proof (induction s)
  case Nil
  then show ?case by (subst valid_utf8.simps) simp
next
  case (Cons c s)
  then show ?case by (subst valid_utf8.simps) (simp add: utf8_scan_ascii)
qed

end
