(* ===== verification/Framing.thy ===== *)
theory Framing
  imports Rust_Str
begin

text \<open>
  Length-prefixed frames: \<^verbatim>\<open>src/crates/daemon/src/framing.rs\<close>, the reading and writing half of
  the bridge's client (\<^verbatim>\<open>src/crates/mcp-bridge/src/daemon_client.rs\<close>) and the byte streams both run on.

  A \<open>Reader\<close> is what a peer will still deliver: some bytes, then end of file or an I/O error.
  A \<open>Writer\<close> is what has been written and how many bytes it still accepts before it fails.
  The locale \<open>frame_codec\<close> states what a writer and a reader must agree on; a client lemma
  says that every sequence of frames is read back, and the locale is interpreted for the
  three pairs that meet on the socket.
\<close>

subsection \<open>Streams\<close>

datatype error_kind =
  BrokenPipe | UnexpectedEof | ConnectionReset | ConnectionAborted | NotConnected | NotFound
| ConnectionRefused | OtherKind string

datatype any_error = IoError error_kind | Msg string | WithContext string any_error

record Reader =
  rd_bytes :: string
  rd_end :: "error_kind option"

record Writer =
  wr_bytes :: string
  wr_room :: "nat option"
  wr_err :: error_kind

definition read_exact :: "nat \<Rightarrow> Reader \<Rightarrow> (string, error_kind) res \<times> Reader" where
  "read_exact n r =
     (if n \<le> length (rd_bytes r)
      then (Ok (take n (rd_bytes r)), r\<lparr>rd_bytes := drop n (rd_bytes r)\<rparr>)
      else (Err (case rd_end r of None \<Rightarrow> UnexpectedEof | Some k \<Rightarrow> k), r\<lparr>rd_bytes := []\<rparr>))"

definition write_all :: "string \<Rightarrow> Writer \<Rightarrow> (unit, error_kind) res \<times> Writer" where
  "write_all bs w =
     (case wr_room w of
        None \<Rightarrow> (Ok (), w\<lparr>wr_bytes := wr_bytes w @ bs\<rparr>)
      | Some room \<Rightarrow>
          if length bs \<le> room
          then (Ok (), w\<lparr>wr_bytes := wr_bytes w @ bs, wr_room := Some (room - length bs)\<rparr>)
          else (Err (wr_err w), w\<lparr>wr_bytes := wr_bytes w @ take room bs, wr_room := Some 0\<rparr>))"

subsection \<open>Big-endian length prefixes\<close>

definition to_be_bytes :: "32 word \<Rightarrow> string" where
  "to_be_bytes w =
     map (\<lambda>i. char_of (unat w div 256 ^ i mod 256)) [3, 2, 1, 0]"

definition from_be_bytes :: "string \<Rightarrow> 32 word" where
  "from_be_bytes bs = word_of_nat (foldl (\<lambda>n c. n * 256 + byte c) 0 bs)"

definition u32_try_from :: "nat \<Rightarrow> 32 word option" where
  "u32_try_from n = (if n < 2 ^ 32 then Some (word_of_nat n) else None)"

subsection \<open>The daemon's frames\<close>

definition MAX_FRAME :: "32 word" where
  "MAX_FRAME = 16 * 1024 * 1024"

definition frame_too_large :: "32 word \<Rightarrow> any_error" where
  "frame_too_large len = Msg (''frame too large: '' @ dec_of_nat (unat len))"

text \<open>The result, the reader afterwards and the caller's buffer afterwards. A short read of
  the body leaves the buffer at the announced length, its tail zeroed.\<close>

definition read_frame_into ::
  "Reader \<Rightarrow> string \<Rightarrow> (unit option, any_error) res \<times> Reader \<times> string" where
  "read_frame_into reader buf =
     (case read_exact 4 reader of
        (Err k, r1) \<Rightarrow> (if k = UnexpectedEof then Ok None else Err (IoError k), r1, buf)
      | (Panic m, r1) \<Rightarrow> (Panic m, r1, buf)
      | (Ok len_buf, r1) \<Rightarrow>
          (let len = from_be_bytes len_buf
           in if len > MAX_FRAME then (Err (frame_too_large len), r1, buf)
              else (case read_exact (unat len) r1 of
                      (Ok body, r2) \<Rightarrow> (Ok (Some ()), r2, body)
                    | (Err k, r2) \<Rightarrow>
                        (Err (IoError k), r2,
                         rd_bytes r1 @ replicate (unat len - length (rd_bytes r1)) (CHR 0x00))
                    | (Panic m, r2) \<Rightarrow> (Panic m, r2, buf))))"

definition write_two :: "string \<Rightarrow> string \<Rightarrow> Writer \<Rightarrow> (unit, any_error) res \<times> Writer" where
  "write_two a b writer =
     (case write_all a writer of
        (Ok _, w1) \<Rightarrow>
          (case write_all b w1 of
             (Ok _, w2) \<Rightarrow> (Ok (), w2)
           | (Err k, w2) \<Rightarrow> (Err (IoError k), w2)
           | (Panic m, w2) \<Rightarrow> (Panic m, w2))
      | (Err k, w1) \<Rightarrow> (Err (IoError k), w1)
      | (Panic m, w1) \<Rightarrow> (Panic m, w1))"

definition write_frame :: "Writer \<Rightarrow> string \<Rightarrow> (unit, any_error) res \<times> Writer" where
  "write_frame writer payload =
     (case u32_try_from (length payload) of
        None \<Rightarrow> (Err (Msg ''frame too large to encode''), writer)
      | Some len \<Rightarrow> write_two (to_be_bytes len) payload writer)"

subsection \<open>The bridge's frames\<close>

text \<open>The two halves of \<open>try_call\<close> that touch the stream.\<close>

definition bridge_write :: "Writer \<Rightarrow> string \<Rightarrow> (unit, any_error) res \<times> Writer" where
  "bridge_write writer payload =
     (case u32_try_from (length payload) of
        None \<Rightarrow> (Err (Msg ''request too large''), writer)
      | Some len \<Rightarrow> write_two (to_be_bytes len) payload writer)"

definition bridge_read :: "Reader \<Rightarrow> (string, any_error) res \<times> Reader" where
  "bridge_read reader =
     (case read_exact 4 reader of
        (Err k, r1) \<Rightarrow> (Err (IoError k), r1)
      | (Panic m, r1) \<Rightarrow> (Panic m, r1)
      | (Ok len_buf, r1) \<Rightarrow>
          (let resp_len = from_be_bytes len_buf
           in if resp_len > MAX_FRAME
              then (Err (Msg (''response too large: '' @ dec_of_nat (unat resp_len))), r1)
              else (case read_exact (unat resp_len) r1 of
                      (Ok body, r2) \<Rightarrow> (Ok body, r2)
                    | (Err k, r2) \<Rightarrow> (Err (IoError k), r2)
                    | (Panic m, r2) \<Rightarrow> (Panic m, r2))))"

subsection \<open>What one frame is on the wire\<close>

text \<open>The bytes a writer without limit appends for a payload, and reading one frame off the
  front of a finite stream.\<close>

definition empty_writer :: Writer where
  "empty_writer = \<lparr>wr_bytes = [], wr_room = None, wr_err = BrokenPipe\<rparr>"

definition wire :: "(Writer \<Rightarrow> string \<Rightarrow> (unit, any_error) res \<times> Writer) \<Rightarrow> string \<Rightarrow> string option" where
  "wire put payload =
     (case put empty_writer payload of (Ok _, w) \<Rightarrow> Some (wr_bytes w) | _ \<Rightarrow> None)"

definition bytes_reader :: "string \<Rightarrow> Reader" where
  "bytes_reader s = \<lparr>rd_bytes = s, rd_end = None\<rparr>"

definition daemon_unframe :: "string \<Rightarrow> (string \<times> string) option" where
  "daemon_unframe s =
     (case read_frame_into (bytes_reader s) [] of
        (Ok (Some _), r, buf) \<Rightarrow> Some (buf, rd_bytes r)
      | _ \<Rightarrow> None)"

definition bridge_unframe :: "string \<Rightarrow> (string \<times> string) option" where
  "bridge_unframe s =
     (case bridge_read (bytes_reader s) of (Ok buf, r) \<Rightarrow> Some (buf, rd_bytes r) | _ \<Rightarrow> None)"

text \<open>Reading frames until no complete frame is left; each frame takes at least four bytes, so
  the length of the stream is enough fuel.\<close>

fun unframe_all :: "(string \<Rightarrow> (string \<times> string) option) \<Rightarrow> nat \<Rightarrow> string \<Rightarrow> string list" where
  "unframe_all un 0 s = []"
| "unframe_all un (Suc n) s =
     (case un s of None \<Rightarrow> [] | Some (p, r) \<Rightarrow> p # unframe_all un n r)"

fun wire_all ::
  "(Writer \<Rightarrow> string \<Rightarrow> (unit, any_error) res \<times> Writer) \<Rightarrow> string list \<Rightarrow> string option" where
  "wire_all put [] = Some []"
| "wire_all put (p # ps) =
     (case wire put p of
        None \<Rightarrow> None
      | Some b \<Rightarrow> map_option (append b) (wire_all put ps))"

subsection \<open>The contract of a writer and a reader\<close>

locale frame_codec =
  fixes writer :: "Writer \<Rightarrow> string \<Rightarrow> (unit, any_error) res \<times> Writer"
    and unframe :: "string \<Rightarrow> (string \<times> string) option"
  assumes one_frame:
      "length p \<le> unat MAX_FRAME \<Longrightarrow>
         \<exists>b. wire writer p = Some b \<and> b \<noteq> [] \<and> (\<forall>rest. unframe (b @ rest) = Some (p, rest))"
    and no_frame: "unframe [] = None"
begin

lemma frames_read_back:
  assumes "\<forall>p \<in> set ps. length p \<le> unat MAX_FRAME"
  shows "\<exists>s. wire_all writer ps = Some s \<and> length ps \<le> length s \<and>
           (\<forall>n \<ge> length ps. unframe_all unframe (Suc n) s = ps)"
  using assms
proof (induction ps)
  case Nil
  then show ?case by (simp add: no_frame)
next
  case (Cons p ps)
  then obtain s where s: "wire_all writer ps = Some s" "length ps \<le> length s"
    "\<forall>n \<ge> length ps. unframe_all unframe (Suc n) s = ps" by auto
  obtain b where b: "wire writer p = Some b" "b \<noteq> []"
    "\<forall>rest. unframe (b @ rest) = Some (p, rest)" using one_frame [of p] Cons.prems by auto
  have "unframe_all unframe (Suc n) (b @ s) = p # ps" if le: "Suc (length ps) \<le> n" for n
  proof -
    obtain m where "n = Suc m" using le by (cases n) simp_all
    then have "unframe_all unframe (Suc m) s = ps" using s(3) le by simp
    with \<open>n = Suc m\<close> show ?thesis using b(3) s(3) by simp
  qed
  moreover have "Suc (length ps) \<le> length (b @ s)" using b(2) s(2) by (cases b) auto
  ultimately show ?case using b(1) s(1) by auto
qed

end

subsection \<open>Lemmas\<close>

lemma byte_char_of [simp]: "byte (char_of n) = n mod 256"
  by (simp add: byte_def)

lemma length_to_be_bytes [simp]: "length (to_be_bytes w) = 4"
  by (simp add: to_be_bytes_def)

lemma base256: "(n::nat) < 2 ^ 32 \<Longrightarrow>
  (((n div 16777216 mod 256) * 256 + n div 65536 mod 256) * 256 + n div 256 mod 256) * 256 + n mod 256 = n"
proof -
  assume "n < 2 ^ 32"
  then have "n div 16777216 mod 256 = n div 16777216" by simp
  moreover have "n div 16777216 = n div 65536 div 256" "n div 65536 = n div 256 div 256"
    by (simp_all add: div_mult2_eq [symmetric])
  ultimately show ?thesis by (metis div_mult_mod_eq)
qed

lemma from_to_be_bytes [simp]: "from_be_bytes (to_be_bytes w) = w"
proof -
  let ?n = "unat w"
  have "?n < 2 ^ 32" using unsigned_less [of w] by simp
  then have "foldl (\<lambda>n c. n * 256 + byte c) 0 (to_be_bytes w) = ?n"
    using base256 [of ?n] by (simp add: to_be_bytes_def)
  then show ?thesis by (simp add: from_be_bytes_def)
qed

lemma unat_MAX_FRAME: "unat MAX_FRAME = 16777216"
  by (simp add: MAX_FRAME_def)

lemma u32_try_from_small:
  assumes "n \<le> unat MAX_FRAME"
  shows "u32_try_from n = Some (word_of_nat n)" "unat (word_of_nat n :: 32 word) = n"
    "(word_of_nat n :: 32 word) \<le> MAX_FRAME"
proof -
  have n: "n < 2 ^ 32" using assms by (simp add: unat_MAX_FRAME)
  then show "u32_try_from n = Some (word_of_nat n)" by (simp add: u32_try_from_def)
  show u: "unat (word_of_nat n :: 32 word) = n" using n by (simp add: unat_of_nat)
  show "(word_of_nat n :: 32 word) \<le> MAX_FRAME" using assms u by (simp add: word_le_nat_alt)
qed

lemma write_two_unlimited:
  "wr_room w = None \<Longrightarrow>
     write_two a b w = (Ok (), w\<lparr>wr_bytes := wr_bytes w @ a @ b\<rparr>)"
  by (simp add: write_two_def write_all_def)

lemma wire_frames:
  assumes "length p \<le> unat MAX_FRAME"
  shows "wire write_frame p = Some (to_be_bytes (word_of_nat (length p)) @ p)"
    and "wire bridge_write p = Some (to_be_bytes (word_of_nat (length p)) @ p)"
  using u32_try_from_small [OF assms]
  by (simp_all add: wire_def write_frame_def bridge_write_def write_two_unlimited empty_writer_def)

lemma read_exact_append:
  "length a = n \<Longrightarrow>
     read_exact n \<lparr>rd_bytes = a @ b, rd_end = e\<rparr> = (Ok a, \<lparr>rd_bytes = b, rd_end = e\<rparr>)"
  by (simp add: read_exact_def)

lemma read_frame_into_frame:
  assumes "length p \<le> unat MAX_FRAME"
  shows "read_frame_into
           \<lparr>rd_bytes = to_be_bytes (word_of_nat (length p)) @ p @ rest, rd_end = e\<rparr> buf =
         (Ok (Some ()), \<lparr>rd_bytes = rest, rd_end = e\<rparr>, p)"
  using u32_try_from_small [OF assms]
  by (simp add: read_frame_into_def read_exact_append Let_def not_less)

lemma bridge_read_frame:
  assumes "length p \<le> unat MAX_FRAME"
  shows "bridge_read \<lparr>rd_bytes = to_be_bytes (word_of_nat (length p)) @ p @ rest, rd_end = e\<rparr> =
         (Ok p, \<lparr>rd_bytes = rest, rd_end = e\<rparr>)"
  using u32_try_from_small [OF assms]
  by (simp add: bridge_read_def read_exact_append Let_def not_less)

lemma unframe_frame:
  assumes "length p \<le> unat MAX_FRAME"
  shows "daemon_unframe (to_be_bytes (word_of_nat (length p)) @ p @ rest) = Some (p, rest)"
    and "bridge_unframe (to_be_bytes (word_of_nat (length p)) @ p @ rest) = Some (p, rest)"
  using read_frame_into_frame [OF assms] bridge_read_frame [OF assms]
  by (simp_all add: daemon_unframe_def bridge_unframe_def bytes_reader_def)

lemma unframe_Nil: "daemon_unframe [] = None" "bridge_unframe [] = None"
  by (simp_all add: daemon_unframe_def bridge_unframe_def bytes_reader_def read_frame_into_def
      bridge_read_def read_exact_def)

lemma to_be_bytes_nonempty [simp]: "to_be_bytes w \<noteq> []"
  by (simp add: to_be_bytes_def)

interpretation daemon_daemon: frame_codec write_frame daemon_unframe
  by unfold_locales (use wire_frames unframe_frame unframe_Nil in \<open>auto simp: append_assoc\<close>)

interpretation bridge_daemon: frame_codec bridge_write daemon_unframe
  by unfold_locales (use wire_frames unframe_frame unframe_Nil in \<open>auto simp: append_assoc\<close>)

interpretation daemon_bridge: frame_codec write_frame bridge_unframe
  by unfold_locales (use wire_frames unframe_frame unframe_Nil in \<open>auto simp: append_assoc\<close>)

subsection \<open>Properties\<close>

text \<open>C20. Everything the bridge writes to the daemon, and everything the daemon writes to the
  bridge, is read back: for payloads within the frame limit, writing succeeds and reading the
  concatenated bytes frame by frame gives exactly the payloads, in order.\<close>

theorem socket_frames_roundtrip:
  assumes "\<forall>p \<in> set ps. length p \<le> unat MAX_FRAME"
  shows "(\<exists>s. wire_all bridge_write ps = Some s \<and>
              unframe_all daemon_unframe (Suc (length s)) s = ps) \<and>
         (\<exists>s. wire_all write_frame ps = Some s \<and>
              unframe_all bridge_unframe (Suc (length s)) s = ps)"
  using bridge_daemon.frames_read_back [OF assms] daemon_bridge.frames_read_back [OF assms]
  by blast+

theorem socket_frames_roundtrip_witness:
  "\<exists>s. wire_all bridge_write [''ping'', []] = Some s \<and>
       unframe_all daemon_unframe (Suc (length s)) s = [''ping'', []]"
proof -
  have "\<forall>p \<in> set [''ping'', []]. length p \<le> unat MAX_FRAME" by (simp add: unat_MAX_FRAME)
  from socket_frames_roundtrip [OF this] show ?thesis by (rule conjunct1)
qed

text \<open>The daemon's reader on every stream: it accepts a frame exactly when four header bytes
  and the announced number of body bytes are there and the announced length is within the
  limit, and then the buffer is the body and the rest is left unread; it reports a clean end
  exactly when the stream ends inside the first four bytes (a torn length prefix included); it
  never panics.\<close>

theorem read_frame_into_outcomes:
  shows "(read_frame_into \<lparr>rd_bytes = s, rd_end = e\<rparr> buf =
            (Ok (Some ()), \<lparr>rd_bytes = rest, rd_end = e\<rparr>, body)
          \<longleftrightarrow> (\<exists>h. s = h @ body @ rest \<and> length h = 4 \<and>
                 unat (from_be_bytes h) = length body \<and> length body \<le> unat MAX_FRAME)) \<and>
         (fst (read_frame_into \<lparr>rd_bytes = s, rd_end = e\<rparr> buf) = Ok None
          \<longleftrightarrow> length s < 4 \<and> (e = None \<or> e = Some UnexpectedEof)) \<and>
         fst (read_frame_into \<lparr>rd_bytes = s, rd_end = e\<rparr> buf) \<noteq> Panic m"
proof (cases "length s < 4")
  case True
  then show ?thesis
    by (cases e) (auto simp: read_frame_into_def read_exact_def)
next
  case False
  define h where "h = take 4 s"
  define t where "t = drop 4 s"
  have s: "s = h @ t" "length h = 4" using False by (simp_all add: h_def t_def)
  have split: "s = h' @ u \<and> length h' = 4 \<longleftrightarrow> h' = h \<and> u = t" for h' u
    using s by (metis append_eq_append_conv)
  have rd: "read_exact 4 \<lparr>rd_bytes = s, rd_end = e\<rparr> = (Ok h, \<lparr>rd_bytes = t, rd_end = e\<rparr>)"
    using s by (simp add: read_exact_append)
  let ?n = "unat (from_be_bytes h)"
  have le: "from_be_bytes h \<le> MAX_FRAME \<longleftrightarrow> ?n \<le> unat MAX_FRAME" by (rule word_le_nat_alt)
  have body: "(take ?n t = body \<and> drop ?n t = rest \<and> ?n \<le> length t) \<longleftrightarrow>
      t = body @ rest \<and> ?n = length body" by (auto simp: append_eq_conv_conj)
  have acc: "read_frame_into \<lparr>rd_bytes = s, rd_end = e\<rparr> buf =
       (Ok (Some ()), \<lparr>rd_bytes = rest, rd_end = e\<rparr>, body)
     \<longleftrightarrow> t = body @ rest \<and> ?n = length body \<and> ?n \<le> unat MAX_FRAME"
    using body le rd by (auto simp: read_frame_into_def read_exact_def [of ?n] Let_def not_less)
  have "(\<exists>h'. s = h' @ body @ rest \<and> length h' = 4 \<and>
           unat (from_be_bytes h') = length body \<and> length body \<le> unat MAX_FRAME)
     \<longleftrightarrow> t = body @ rest \<and> ?n = length body \<and> ?n \<le> unat MAX_FRAME"
    using split [of _ "body @ rest"] by metis
  moreover have "fst (read_frame_into \<lparr>rd_bytes = s, rd_end = e\<rparr> buf) \<notin> {Ok None, Panic m}"
    using rd by (auto simp: read_frame_into_def read_exact_def [of ?n] Let_def)
  ultimately show ?thesis using acc False by auto
qed

text \<open>The two limits do not meet: the daemon writes any frame below four gigabytes, the
  bridge refuses one above \<open>MAX_FRAME\<close> without consuming its body, so after an oversized
  response the bridge's next read takes body bytes for a length prefix.\<close>

theorem oversized_response_desynchronises:
  assumes "unat MAX_FRAME < length p" "length p < 2 ^ 32"
  shows "\<exists>b. wire write_frame p = Some b \<and>
           bridge_read (bytes_reader (b @ rest)) =
             (Err (Msg (''response too large: '' @ dec_of_nat (length p))),
              bytes_reader (p @ rest))"
proof -
  have len: "u32_try_from (length p) = Some (word_of_nat (length p))"
    using assms(2) by (simp add: u32_try_from_def)
  have u: "unat (word_of_nat (length p) :: 32 word) = length p"
    using assms(2) by (simp add: unat_of_nat)
  then have big: "(word_of_nat (length p) :: 32 word) > MAX_FRAME"
    using assms(1) by (simp add: word_less_nat_alt)
  have "wire write_frame p = Some (to_be_bytes (word_of_nat (length p)) @ p)"
    using len by (simp add: wire_def write_frame_def write_two_unlimited empty_writer_def)
  moreover have "bridge_read (bytes_reader ((to_be_bytes (word_of_nat (length p)) @ p) @ rest)) =
     (Err (Msg (''response too large: '' @ dec_of_nat (length p))), bytes_reader (p @ rest))"
    using big u by (simp add: bridge_read_def bytes_reader_def read_exact_append Let_def)
  ultimately show ?thesis by blast
qed

theorem oversized_response_desynchronises_witness:
  "\<exists>b. wire write_frame (replicate 16777217 (CHR ''x'')) = Some b \<and>
       bridge_read (bytes_reader (b @ [])) =
         (Err (Msg (''response too large: '' @
            dec_of_nat (length (replicate 16777217 (CHR ''x''))))),
          bytes_reader (replicate 16777217 (CHR ''x'') @ []))"
proof -
  have "unat MAX_FRAME < length (replicate 16777217 (CHR ''x''))"
    "length (replicate 16777217 (CHR ''x'')) < 2 ^ 32"
    by (simp_all only: unat_MAX_FRAME length_replicate) simp_all
  from oversized_response_desynchronises [OF this] show ?thesis .
qed

end
