(* ===== verification/Buffer_Pool.thy ===== *)
theory Buffer_Pool
  imports Framing
begin

text \<open>
  The pool of recycled buffers, \<^verbatim>\<open>src/crates/daemon/src/buffer_pool.rs\<close>. A \<open>Vec<u8>\<close> is its contents and its
  capacity; \<open>PooledBuffer\<close> is the buffer itself while it is out, and \<open>Drop\<close> returns it. The
  allocator is a parameter \<open>alloc\<close>: the capacity it grants for a request, at least what was
  asked for (the guarantee of \<open>Vec::reserve_exact\<close>).
\<close>

subsection \<open>State and operations\<close>

record Buf =
  buf_data :: string
  buf_capacity :: nat

record BufferPool =
  bp_inner :: "Buf list"
  bp_pool_capacity :: nat
  bp_max_buffer_capacity :: nat

definition buffer_pool_new :: "nat \<Rightarrow> nat \<Rightarrow> BufferPool" where
  "buffer_pool_new pool_capacity max_buffer_capacity =
     \<lparr>bp_inner = [], bp_pool_capacity = pool_capacity,
      bp_max_buffer_capacity = max_buffer_capacity\<rparr>"

definition acquire :: "BufferPool \<Rightarrow> Buf \<times> BufferPool" where
  "acquire p =
     (if bp_inner p = [] then (\<lparr>buf_data = [], buf_capacity = 0\<rparr>, p)
      else (last (bp_inner p), p\<lparr>bp_inner := butlast (bp_inner p)\<rparr>))"

text \<open>\<open>Vec::reserve_exact\<close>: room for \<open>additional\<close> bytes beyond the length.\<close>

definition reserve_exact :: "(nat \<Rightarrow> nat) \<Rightarrow> nat \<Rightarrow> Buf \<Rightarrow> Buf" where
  "reserve_exact alloc additional b =
     (if additional \<le> buf_capacity b - length (buf_data b) then b
      else b\<lparr>buf_capacity := alloc (length (buf_data b) + additional)\<rparr>)"

definition acquire_with_capacity :: "(nat \<Rightarrow> nat) \<Rightarrow> nat \<Rightarrow> BufferPool \<Rightarrow> Buf \<times> BufferPool" where
  "acquire_with_capacity alloc min_capacity p =
     (case acquire p of
        (b, p') \<Rightarrow>
          (if buf_capacity b < min_capacity
           then reserve_exact alloc (min_capacity - buf_capacity b) b else b, p'))"

definition drop_pooled :: "Buf \<Rightarrow> BufferPool \<Rightarrow> BufferPool" where
  "drop_pooled b p =
     (if bp_max_buffer_capacity p < buf_capacity b then p
      else if length (bp_inner p) < bp_pool_capacity p
      then p\<lparr>bp_inner := bp_inner p @ [b\<lparr>buf_data := []\<rparr>]\<rparr>
      else p)"

definition FRAME_BUFFER_RECYCLE_CAP :: nat where
  "FRAME_BUFFER_RECYCLE_CAP = 256 * 1024"

subsection \<open>Steps\<close>

text \<open>The pool and the buffers that are out. Any number of connections hold buffers at the
  same time and fill them as they like; each operation on the pool is atomic (a mutex).\<close>

inductive pool_step ::
  "(nat \<Rightarrow> nat) \<Rightarrow> BufferPool \<times> Buf list \<Rightarrow> BufferPool \<times> Buf list \<Rightarrow> bool" where
  take_buf: "acquire p = (b, p') \<Longrightarrow> pool_step alloc (p, bs) (p', b # bs)"
| take_cap: "acquire_with_capacity alloc n p = (b, p') \<Longrightarrow> pool_step alloc (p, bs) (p', b # bs)"
| use: "pool_step alloc (p, bs @ b # cs) (p, bs @ b' # cs)"
| give: "pool_step alloc (p, bs @ b # cs) (drop_pooled b p, bs @ cs)"

inductive_cases pool_stepE: "pool_step alloc (p, bs) (p', bs')"

inductive pool_reachable :: "(nat \<Rightarrow> nat) \<Rightarrow> nat \<Rightarrow> nat \<Rightarrow> BufferPool \<times> Buf list \<Rightarrow> bool"
  for alloc n m where
  start: "pool_reachable alloc n m (buffer_pool_new n m, [])"
| step: "pool_reachable alloc n m s \<Longrightarrow> pool_step alloc s t \<Longrightarrow> pool_reachable alloc n m t"

definition pool_inv :: "nat \<Rightarrow> nat \<Rightarrow> BufferPool \<Rightarrow> bool" where
  "pool_inv n m p \<longleftrightarrow>
     bp_pool_capacity p = n \<and> bp_max_buffer_capacity p = m \<and> length (bp_inner p) \<le> n \<and>
     (\<forall>b \<in> set (bp_inner p). buf_data b = [] \<and> buf_capacity b \<le> m)"

definition resident :: "BufferPool \<Rightarrow> nat" where
  "resident p = sum_list (map buf_capacity (bp_inner p))"

subsection \<open>Lemmas\<close>

lemma pool_inv_new: "pool_inv n m (buffer_pool_new n m)"
  by (simp add: pool_inv_def buffer_pool_new_def)

lemma pool_inv_acquire: "pool_inv n m p \<Longrightarrow> acquire p = (b, p') \<Longrightarrow> pool_inv n m p'"
  using in_set_butlastD [of _ "bp_inner p"]
  by (auto simp: pool_inv_def acquire_def split: if_splits)

lemma pool_inv_acquire_with_capacity:
  "pool_inv n m p \<Longrightarrow> acquire_with_capacity alloc k p = (b, p') \<Longrightarrow> pool_inv n m p'"
  by (auto simp: acquire_with_capacity_def split: prod.splits dest: pool_inv_acquire)

lemma pool_inv_drop: "pool_inv n m p \<Longrightarrow> pool_inv n m (drop_pooled b p)"
  by (auto simp: pool_inv_def drop_pooled_def)

lemmas pool_inv_ops = pool_inv_acquire pool_inv_acquire_with_capacity pool_inv_drop

lemma pool_reachable_inv: "pool_reachable alloc n m s \<Longrightarrow> pool_inv n m (fst s)"
proof (induction rule: pool_reachable.induct)
  case start
  show ?case by (simp add: pool_inv_new)
next
  case (step s t)
  from step.hyps(2) step.IH show ?case
    by (cases rule: pool_step.cases) (auto intro: pool_inv_ops)
qed

lemma sum_list_le_times: "(\<And>x. x \<in> set xs \<Longrightarrow> f x \<le> (m::nat)) \<Longrightarrow> sum_list (map f xs) \<le> length xs * m"
  by (induction xs) (auto intro: add_le_mono)

lemma resident_bound: "pool_inv n m p \<Longrightarrow> resident p \<le> n * m"
proof -
  assume inv: "pool_inv n m p"
  then have "resident p \<le> length (bp_inner p) * m"
    unfolding resident_def pool_inv_def by (intro sum_list_le_times) simp
  also have "\<dots> \<le> n * m" using inv by (simp add: pool_inv_def)
  finally show ?thesis .
qed

lemma acquired_buffer:
  assumes "pool_inv n m p" "acquire p = (b, p')"
  shows "buf_data b = []"
  using assms by (auto simp: pool_inv_def acquire_def split: if_splits)

subsection \<open>Properties\<close>

text \<open>C39. However the connections interleave taking, filling and returning buffers, every
  buffer handed out is empty, the pool never holds more than \<open>n\<close> buffers of at most \<open>m\<close>
  bytes, and so never keeps more than \<open>n * m\<close> bytes resident: a burst or one oversize
  request cannot bloat it.\<close>

theorem buffer_pool_bounded:
  assumes "pool_reachable alloc n m (p, bs)"
  shows "length (bp_inner p) \<le> n \<and> (\<forall>b \<in> set (bp_inner p). buf_capacity b \<le> m) \<and>
         resident p \<le> n * m \<and> buf_data (fst (acquire p)) = []"
proof -
  have inv: "pool_inv n m p" using pool_reachable_inv [OF assms] by simp
  moreover have "buf_data (fst (acquire p)) = []"
    using acquired_buffer [OF inv] by (cases "acquire p") simp
  ultimately show ?thesis using resident_bound [OF inv] by (auto simp: pool_inv_def)
qed

theorem buffer_pool_bounded_witness:
  "resident (drop_pooled \<lparr>buf_data = ''x'', buf_capacity = 4096\<rparr>
     (buffer_pool_new 32 FRAME_BUFFER_RECYCLE_CAP)) \<le> 32 * FRAME_BUFFER_RECYCLE_CAP"
proof -
  let ?p = "buffer_pool_new 32 FRAME_BUFFER_RECYCLE_CAP"
  let ?b = "\<lparr>buf_data = ''x'', buf_capacity = 4096\<rparr>" and ?e = "\<lparr>buf_data = [], buf_capacity = 0\<rparr>"
  have "acquire ?p = (?e, ?p)" by (simp add: acquire_def buffer_pool_new_def)
  then have "pool_reachable id 32 FRAME_BUFFER_RECYCLE_CAP (?p, [?e])"
    by (intro pool_reachable.step [OF pool_reachable.start] pool_step.take_buf)
  then have "pool_reachable id 32 FRAME_BUFFER_RECYCLE_CAP (?p, [] @ ?b # [])"
    by (rule pool_reachable.step) (use pool_step.use [of id ?p "[]" ?e "[]" ?b] in simp)
  then have "pool_reachable id 32 FRAME_BUFFER_RECYCLE_CAP (drop_pooled ?b ?p, [] @ [])"
    by (rule pool_reachable.step) (rule pool_step.give)
  from buffer_pool_bounded [OF this] show ?thesis by blast
qed

text \<open>What \<open>acquire_with_capacity\<close> guarantees: it reserves the missing capacity counted from
  length zero, so the buffer has at least half of the requested capacity; the full request
  holds for a fresh buffer and for one already large enough. The documentation promises the
  full request always; a recycled 600-byte buffer stays at 600 bytes for a request of 1024.\<close>

theorem acquire_with_capacity_half:
  assumes "pool_inv n m p" "\<And>k. k \<le> alloc k"
  shows "min_capacity \<le> 2 * buf_capacity (fst (acquire_with_capacity alloc min_capacity p)) \<and>
         (bp_inner p = [] \<longrightarrow>
            min_capacity \<le> buf_capacity (fst (acquire_with_capacity alloc min_capacity p))) \<and>
         buf_capacity (fst (acquire_with_capacity alloc 1024
            \<lparr>bp_inner = [\<lparr>buf_data = [], buf_capacity = 600\<rparr>], bp_pool_capacity = 32,
             bp_max_buffer_capacity = m\<rparr>)) = 600"
proof -
  obtain b p' where a: "acquire p = (b, p')" by (cases "acquire p")
  have e: "buf_data b = []" using acquired_buffer [OF assms(1) a] .
  let ?c = "buf_capacity b"
  have grow: "min_capacity - ?c \<le> alloc (min_capacity - ?c)" using assms(2) .
  have "bp_inner p = [] \<Longrightarrow> ?c = 0" using a by (auto simp: acquire_def)
  moreover have "buf_capacity (fst (acquire_with_capacity alloc 1024
            \<lparr>bp_inner = [\<lparr>buf_data = [], buf_capacity = 600\<rparr>], bp_pool_capacity = 32,
             bp_max_buffer_capacity = m\<rparr>)) = 600"
    by (simp add: acquire_with_capacity_def acquire_def reserve_exact_def)
  ultimately show ?thesis using a e grow
    by (auto simp: acquire_with_capacity_def [of alloc min_capacity] reserve_exact_def)
qed

theorem acquire_with_capacity_half_witness:
  "1024 \<le> 2 * buf_capacity (fst (acquire_with_capacity id 1024 (buffer_pool_new 32 4096)))"
  using acquire_with_capacity_half [OF pool_inv_new, of id 1024 32 4096] by simp

end
