(* ===== verification/Languages.thy ===== *)
theory Languages
  imports Framing
begin

text \<open>
  Language detection and the outline queries, \<^verbatim>\<open>src/crates/daemon/src/languages.rs\<close>, and the part of
  \<^verbatim>\<open>src/crates/daemon/src/outline.rs\<close> that interprets the queries' capture names. The tree-sitter grammars
  themselves (\<open>ts_language\<close>) are outside the sources.
\<close>

subsection \<open>Languages\<close>

datatype Language = Rust | Python | C | Cpp | TypeScript | Tsx | Go

text \<open>\<open>Path::file_name\<close> and \<open>Path::extension\<close> on a path's bytes.\<close>

definition path_components :: "string \<Rightarrow> string list" where
  "path_components p = filter (\<lambda>c. c \<noteq> [] \<and> c \<noteq> ''.'') (split_on (CHR ''/'') p)"

definition path_file_name :: "string \<Rightarrow> string option" where
  "path_file_name p =
     (let cs = path_components p
      in if cs = [] \<or> last cs = ''..'' then None else Some (last cs))"

definition path_extension :: "string \<Rightarrow> string option" where
  "path_extension p =
     (case path_file_name p of
        None \<Rightarrow> None
      | Some f \<Rightarrow>
          (let parts = split_on (CHR ''.'') f
           in if length parts < 2 \<or> (length parts = 2 \<and> hd parts = []) then None
              else Some (last parts)))"

definition detect :: "string \<Rightarrow> Language option" where
  "detect path =
     (case path_extension path of
        None \<Rightarrow> None
      | Some e \<Rightarrow>
          if \<not> valid_utf8 e then None
          else let ext = map ascii_lower e
          in if ext = ''rs'' then Some Rust
             else if ext \<in> {''py'', ''pyi''} then Some Python
             else if ext \<in> {''c'', ''h''} then Some C
             else if ext \<in> {''cc'', ''cpp'', ''cxx'', ''hpp'', ''hh'', ''hxx''} then Some Cpp
             else if ext \<in> {''ts'', ''mts'', ''cts''} then Some TypeScript
             else if ext = ''tsx'' then Some Tsx
             else if ext = ''go'' then Some Go
             else None)"

fun language_name :: "Language \<Rightarrow> string" where
  "language_name Rust = ''rust''"
| "language_name Python = ''python''"
| "language_name C = ''c''"
| "language_name Cpp = ''cpp''"
| "language_name TypeScript = ''typescript''"
| "language_name Tsx = ''tsx''"
| "language_name Go = ''go''"

subsection \<open>Outline queries\<close>

definition RUST_OUTLINE :: string where
  "RUST_OUTLINE = nl # concat (map (\<lambda>l. l @ [nl])
     [''(function_item name: (identifier) @name) @def.function'',
      ''(struct_item name: (type_identifier) @name) @def.struct'',
      ''(enum_item name: (type_identifier) @name) @def.enum'',
      ''(trait_item name: (type_identifier) @name) @def.trait'',
      ''(mod_item name: (identifier) @name) @def.module'',
      ''(type_item name: (type_identifier) @name) @def.type'',
      ''(const_item name: (identifier) @name) @def.constant'',
      ''(static_item name: (identifier) @name) @def.constant'',
      ''(macro_definition name: (identifier) @name) @def.macro'',
      ''(impl_item type: (type_identifier) @name) @def.impl''])"

definition PYTHON_OUTLINE :: string where
  "PYTHON_OUTLINE = nl # concat (map (\<lambda>l. l @ [nl])
     [''(function_definition name: (identifier) @name) @def.function'',
      ''(class_definition name: (identifier) @name) @def.class'',
      ''(decorated_definition'',
      ''  definition: (function_definition name: (identifier) @name)) @def.function'',
      ''(decorated_definition'',
      ''  definition: (class_definition name: (identifier) @name)) @def.class''])"

definition C_OUTLINE :: string where
  "C_OUTLINE = nl # concat (map (\<lambda>l. l @ [nl])
     [''(function_definition declarator: (function_declarator declarator: (identifier) @name)) @def.function'',
      ''(function_definition declarator: (pointer_declarator declarator: (function_declarator declarator: (identifier) @name))) @def.function'',
      ''(struct_specifier name: (type_identifier) @name) @def.struct'',
      ''(enum_specifier name: (type_identifier) @name) @def.enum'',
      ''(union_specifier name: (type_identifier) @name) @def.union'',
      ''(type_definition declarator: (type_identifier) @name) @def.type'',
      ''(preproc_def name: (identifier) @name) @def.macro'',
      ''(preproc_function_def name: (identifier) @name) @def.macro''])"

definition CPP_OUTLINE :: string where
  "CPP_OUTLINE = nl # concat (map (\<lambda>l. l @ [nl])
     [''(function_definition declarator: (function_declarator declarator: (identifier) @name)) @def.function'',
      ''(function_definition declarator: (function_declarator declarator: (field_identifier) @name)) @def.method'',
      ''(function_definition declarator: (function_declarator declarator: (qualified_identifier) @name)) @def.method'',
      ''(class_specifier name: (type_identifier) @name) @def.class'',
      ''(struct_specifier name: (type_identifier) @name) @def.struct'',
      ''(enum_specifier name: (type_identifier) @name) @def.enum'',
      ''(union_specifier name: (type_identifier) @name) @def.union'',
      ''(namespace_definition name: (namespace_identifier) @name) @def.namespace'',
      ''(type_definition declarator: (type_identifier) @name) @def.type'',
      ''(alias_declaration name: (type_identifier) @name) @def.type'',
      ''(preproc_def name: (identifier) @name) @def.macro'',
      ''(preproc_function_def name: (identifier) @name) @def.macro''])"

definition TS_OUTLINE :: string where
  "TS_OUTLINE = nl # concat (map (\<lambda>l. l @ [nl])
     [''(function_declaration name: (identifier) @name) @def.function'',
      ''(class_declaration name: (type_identifier) @name) @def.class'',
      ''(interface_declaration name: (type_identifier) @name) @def.interface'',
      ''(type_alias_declaration name: (type_identifier) @name) @def.type'',
      ''(enum_declaration name: (identifier) @name) @def.enum'',
      ''(method_definition name: (property_identifier) @name) @def.method'',
      ''(public_field_definition name: (property_identifier) @name) @def.field''])"

definition GO_OUTLINE :: string where
  "GO_OUTLINE = nl # concat (map (\<lambda>l. l @ [nl])
     [''(function_declaration name: (identifier) @name) @def.function'',
      ''(method_declaration name: (field_identifier) @name) @def.method'',
      ''(type_declaration (type_spec name: (type_identifier) @name)) @def.type'',
      ''(const_declaration (const_spec name: (identifier) @name)) @def.constant'',
      ''(var_declaration (var_spec name: (identifier) @name)) @def.variable''])"

fun outline_query :: "Language \<Rightarrow> string" where
  "outline_query Rust = RUST_OUTLINE"
| "outline_query Python = PYTHON_OUTLINE"
| "outline_query C = C_OUTLINE"
| "outline_query Cpp = CPP_OUTLINE"
| "outline_query TypeScript = TS_OUTLINE"
| "outline_query Tsx = TS_OUTLINE"
| "outline_query Go = GO_OUTLINE"

subsection \<open>Capture names\<close>

datatype CaptureMeta = Def string | Name

definition def_kinds :: "string list" where
  "def_kinds =
     [''function'', ''method'', ''struct'', ''enum'', ''class'', ''trait'', ''interface'',
      ''module'', ''namespace'', ''type'', ''constant'', ''variable'', ''macro'', ''impl'',
      ''union'', ''field'']"

definition from_capture_name :: "string \<Rightarrow> CaptureMeta option" where
  "from_capture_name name =
     (if name = ''name'' then Some Name
      else case strip_prefix ''def.'' name of
             None \<Rightarrow> None
           | Some rest \<Rightarrow> if rest \<in> set def_kinds then Some (Def rest) else None)"

text \<open>The capture names of a query: what follows each at-sign, up to the first character that
  cannot be part of a name.\<close>

definition is_capture_char :: "char \<Rightarrow> bool" where
  "is_capture_char c \<longleftrightarrow> is_ascii_alphanumeric c \<or> c = CHR ''.'' \<or> c = CHR ''_''"

fun captures_of :: "string \<Rightarrow> string list" where
  "captures_of [] = []"
| "captures_of (c # s) =
     (if c = CHR ''@'' then takeWhile is_capture_char s # captures_of s else captures_of s)"

definition all_languages :: "Language list" where
  "all_languages = [Rust, Python, C, Cpp, TypeScript, Tsx, Go]"

definition query_kinds :: "string list" where
  "query_kinds =
     remdups (List.map_filter (strip_prefix ''def.'')
       (concat (map (\<lambda>l. captures_of (outline_query l)) all_languages)))"

subsection \<open>Lemmas\<close>

lemma captures_RUST: "captures_of RUST_OUTLINE =
  [''name'', ''def.function'', ''name'', ''def.struct'',
   ''name'', ''def.enum'', ''name'', ''def.trait'',
   ''name'', ''def.module'', ''name'', ''def.type'',
   ''name'', ''def.constant'', ''name'', ''def.constant'',
   ''name'', ''def.macro'', ''name'', ''def.impl'']"
  by code_simp

lemma captures_PYTHON: "captures_of PYTHON_OUTLINE =
  [''name'', ''def.function'', ''name'', ''def.class'',
   ''name'', ''def.function'', ''name'', ''def.class'']"
  by code_simp

lemma captures_C: "captures_of C_OUTLINE =
  [''name'', ''def.function'', ''name'', ''def.function'',
   ''name'', ''def.struct'', ''name'', ''def.enum'',
   ''name'', ''def.union'', ''name'', ''def.type'',
   ''name'', ''def.macro'', ''name'', ''def.macro'']"
  by code_simp

lemma captures_CPP: "captures_of CPP_OUTLINE =
  [''name'', ''def.function'', ''name'', ''def.method'',
   ''name'', ''def.method'', ''name'', ''def.class'',
   ''name'', ''def.struct'', ''name'', ''def.enum'',
   ''name'', ''def.union'', ''name'', ''def.namespace'',
   ''name'', ''def.type'', ''name'', ''def.type'',
   ''name'', ''def.macro'', ''name'', ''def.macro'']"
  by code_simp

lemma captures_TS: "captures_of TS_OUTLINE =
  [''name'', ''def.function'', ''name'', ''def.class'',
   ''name'', ''def.interface'', ''name'', ''def.type'',
   ''name'', ''def.enum'', ''name'', ''def.method'',
   ''name'', ''def.field'']"
  by code_simp

lemma captures_GO: "captures_of GO_OUTLINE =
  [''name'', ''def.function'', ''name'', ''def.method'',
   ''name'', ''def.type'', ''name'', ''def.constant'',
   ''name'', ''def.variable'']"
  by code_simp

lemmas captures = captures_RUST captures_PYTHON captures_C captures_CPP captures_TS captures_GO

lemma captures_understood:
  "list_all (\<lambda>c. from_capture_name c \<noteq> None) (captures_of (outline_query l)) \<and>
   ''name'' \<in> set (captures_of (outline_query l))"
  by (cases l)
    (simp_all add: captures from_capture_name_def strip_prefix_def starts_with_def def_kinds_def)

lemma query_kinds_eq: "set query_kinds = set def_kinds"
  unfolding query_kinds_def all_languages_def list.map outline_query.simps captures
  by code_simp

lemma set_all_languages: "set all_languages = UNIV"
proof -
  have "l \<in> set all_languages" for l by (cases l) (simp_all add: all_languages_def)
  then show ?thesis by blast
qed

subsection \<open>Properties\<close>

text \<open>The queries and the interpreter of their captures agree: every capture of every
  language's outline query is understood, every query captures names, and the kinds of
  definition the interpreter knows are exactly the kinds some query marks.\<close>

theorem outline_queries_understood:
  "(\<forall>l. list_all (\<lambda>c. from_capture_name c \<noteq> None) (captures_of (outline_query l)) \<and>
        ''name'' \<in> set (captures_of (outline_query l))) \<and>
   set query_kinds = set def_kinds \<and> set all_languages = UNIV"
  using captures_understood query_kinds_eq set_all_languages by blast

end
