(* ===== verification/Parse_Cache.thy ===== *)
theory Parse_Cache
  imports Languages Cache_Interface
begin

text \<open>
  The parse cache, \<^verbatim>\<open>src/crates/daemon/src/parse_cache.rs\<close>: a least recently used list of parsed files, each
  stamped with the modification time and size its source was read at.

  The file system is a parameter: what \<open>stat\<close> and \<open>read\<close> answer at the time of the call. So
  are the grammars: \<open>set_language\<close> (an error message, or none) and \<open>parse\<close>. The lock is taken
  twice, for the lookup and for the insertion, and released in between; \<open>parse_cache_lookup\<close>
  and \<open>parse_cache_store\<close> are the two critical sections.
\<close>

subsection \<open>State and operations\<close>

record FileStamp =
  fst_mtime_ns :: nat
  fst_size :: nat

record 't ParsedFile =
  pf_language :: Language
  pf_source :: string
  pf_tree :: 't

record 't pc_entry =
  pe_path :: string
  pe_stamp :: FileStamp
  pe_language :: Language
  pe_source :: string
  pe_tree :: 't

record 't ParseCache =
  pc_entries :: "'t pc_entry list"
  pc_capacity :: nat

text \<open>What the operating system answers for one path at one moment.\<close>

record file_view =
  fv_stamp :: "FileStamp option"
  fv_read :: "(string, string) res"

record 't grammar =
  gr_set_language :: "Language \<Rightarrow> string option"
  gr_parse :: "Language \<Rightarrow> string \<Rightarrow> 't option"

definition parse_cache_new :: "nat \<Rightarrow> 't ParseCache" where
  "parse_cache_new capacity = \<lparr>pc_entries = [], pc_capacity = capacity\<rparr>"

definition parse_cache_lookup ::
  "FileStamp \<times> Language \<Rightarrow> string \<Rightarrow> 't ParseCache \<Rightarrow> (string \<times> 't) option \<times> 't ParseCache" where
  "parse_cache_lookup sl path g =
     (if pc_capacity g = 0 then (None, g)
      else case position (\<lambda>e. pe_path e = path) (pc_entries g) of
        None \<Rightarrow> (None, g)
      | Some pos \<Rightarrow>
          (let entry = pc_entries g ! pos
           in if pe_stamp entry = fst sl \<and> pe_language entry = snd sl
              then (Some (pe_source entry, pe_tree entry),
                    g\<lparr>pc_entries := remove_at pos (pc_entries g) @ [entry]\<rparr>)
              else (None, g\<lparr>pc_entries := remove_at pos (pc_entries g)\<rparr>)))"

definition parse_cache_store ::
  "FileStamp \<times> Language \<Rightarrow> string \<Rightarrow> string \<times> 't \<Rightarrow> 't ParseCache \<Rightarrow> 't ParseCache" where
  "parse_cache_store sl path st g =
     (if pc_capacity g = 0 then g
      else g\<lparr>pc_entries := pop_front_until (pc_capacity g) (pc_entries g) @
               [\<lparr>pe_path = path, pe_stamp = fst sl, pe_language = snd sl,
                 pe_source = fst st, pe_tree = snd st\<rparr>]\<rparr>)"

definition read_and_parse ::
  "'t grammar \<Rightarrow> Language \<Rightarrow> (string, string) res \<Rightarrow> ('t ParsedFile, string) res" where
  "read_and_parse gr language contents =
     res_bind contents (\<lambda>source.
       case gr_set_language gr language of
         Some e \<Rightarrow> Err (''set_language '' @ language_name language @ '': '' @ e)
       | None \<Rightarrow>
           (case gr_parse gr language source of
              None \<Rightarrow> Err ''tree-sitter parse returned None''
            | Some tree \<Rightarrow>
                Ok \<lparr>pf_language = language, pf_source = source, pf_tree = tree\<rparr>))"

definition get_or_parse ::
  "'t grammar \<Rightarrow> file_view \<Rightarrow> string \<Rightarrow> 't ParseCache \<Rightarrow>
     ('t ParsedFile option, string) res \<times> 't ParseCache" where
  "get_or_parse gr fv path g =
     (case detect path of
        None \<Rightarrow> (Ok None, g)
      | Some language \<Rightarrow>
          (case fv_stamp fv of
             None \<Rightarrow> (Err (''stat '' @ path), g)
           | Some stamp \<Rightarrow>
               (case parse_cache_lookup (stamp, language) path g of
                  (Some (source, tree), g1) \<Rightarrow>
                    (Ok (Some \<lparr>pf_language = language, pf_source = source, pf_tree = tree\<rparr>), g1)
                | (None, g1) \<Rightarrow>
                    (case read_and_parse gr language (fv_read fv) of
                       Ok parsed \<Rightarrow>
                         (Ok (Some parsed),
                          parse_cache_store (stamp, language) path
                            (pf_source parsed, pf_tree parsed) g1)
                     | Err e \<Rightarrow> (Err e, g1)
                     | Panic m \<Rightarrow> (Panic m, g1)))))"

definition evict :: "string \<Rightarrow> 't ParseCache \<Rightarrow> 't ParseCache" where
  "evict path g =
     (if pc_capacity g = 0 then g
      else case position (\<lambda>e. pe_path e = path) (pc_entries g) of
        None \<Rightarrow> g
      | Some pos \<Rightarrow> g\<lparr>pc_entries := remove_at pos (pc_entries g)\<rparr>)"

subsection \<open>Specification\<close>

definition parse_cache_holds ::
  "'t ParseCache \<Rightarrow> FileStamp \<times> Language \<Rightarrow> string \<Rightarrow> string \<times> 't \<Rightarrow> bool" where
  "parse_cache_holds g sl path st \<longleftrightarrow>
     (\<exists>e \<in> set (pc_entries g).
        pe_path e = path \<and> pe_stamp e = fst sl \<and> pe_language e = snd sl \<and>
        (pe_source e, pe_tree e) = st)"

text \<open>Parsing without a cache, and answering a sequence of requests through the cache with
  the watcher evicting paths in between.\<close>

definition parse_fresh ::
  "'t grammar \<Rightarrow> file_view \<Rightarrow> string \<Rightarrow> ('t ParsedFile option, string) res" where
  "parse_fresh gr fv path = fst (get_or_parse gr fv path (parse_cache_new 0))"

datatype pc_op = Parse file_view string | Evict string

fun run_parses ::
  "'t grammar \<Rightarrow> pc_op list \<Rightarrow> 't ParseCache \<Rightarrow> ('t ParsedFile option, string) res list" where
  "run_parses gr [] g = []"
| "run_parses gr (Parse fv path # ops) g =
     (case get_or_parse gr fv path g of (r, g') \<Rightarrow> r # run_parses gr ops g')"
| "run_parses gr (Evict path # ops) g = run_parses gr ops (evict path g)"

fun fresh_parses :: "'t grammar \<Rightarrow> pc_op list \<Rightarrow> ('t ParsedFile option, string) res list" where
  "fresh_parses gr [] = []"
| "fresh_parses gr (Parse fv path # ops) = parse_fresh gr fv path # fresh_parses gr ops"
| "fresh_parses gr (Evict path # ops) = fresh_parses gr ops"

text \<open>Every view of a path is explained by a function from its stamps to its contents: the
  time stamp and the size identify what is read.\<close>

fun stamps_faithful :: "(string \<Rightarrow> FileStamp \<Rightarrow> (string, string) res) \<Rightarrow> pc_op list \<Rightarrow> bool" where
  "stamps_faithful contents [] \<longleftrightarrow> True"
| "stamps_faithful contents (Parse fv path # ops) \<longleftrightarrow>
     (case fv_stamp fv of Some st \<Rightarrow> fv_read fv = contents path st | None \<Rightarrow> True) \<and>
     stamps_faithful contents ops"
| "stamps_faithful contents (Evict path # ops) \<longleftrightarrow> stamps_faithful contents ops"

subsection \<open>The cache contract\<close>

lemma set_remove_at_nth: "i < length xs \<Longrightarrow> set (remove_at i xs @ [xs ! i]) \<subseteq> set xs"
  using set_remove_at_subset [of i xs] by auto

lemma lookup_entries:
  assumes "parse_cache_lookup sl path g = (x, g')"
  shows "set (pc_entries g') \<subseteq> set (pc_entries g)" "pc_capacity g' = pc_capacity g"
    "length (pc_entries g') \<le> length (pc_entries g)"
proof -
  have *: "set (pc_entries g') \<subseteq> set (pc_entries g) \<and> pc_capacity g' = pc_capacity g \<and>
      length (pc_entries g') \<le> length (pc_entries g)"
  proof (cases "position (\<lambda>e. pe_path e = path) (pc_entries g)")
    case None
    then show ?thesis using assms by (auto simp: parse_cache_lookup_def split: if_splits)
  next
    case (Some pos)
    have pos: "pos < length (pc_entries g)" using position_SomeD [OF Some] by simp
    show ?thesis
      using assms Some set_remove_at_subset [of pos "pc_entries g"]
        set_remove_at_nth [OF pos] length_remove_at [OF pos] pos
      by (auto simp: parse_cache_lookup_def Let_def split: if_splits)
  qed
  show "set (pc_entries g') \<subseteq> set (pc_entries g)" "pc_capacity g' = pc_capacity g"
    "length (pc_entries g') \<le> length (pc_entries g)" using * by simp_all
qed

lemma lookup_hit:
  assumes "parse_cache_lookup sl path g = (Some r, g')"
  shows "parse_cache_holds g sl path r"
proof -
  obtain pos where p: "position (\<lambda>e. pe_path e = path) (pc_entries g) = Some pos"
    using assms by (auto simp: parse_cache_lookup_def split: if_splits option.splits)
  note D = position_SomeD [OF p]
  have "pe_path (pc_entries g ! pos) = path" "pc_entries g ! pos \<in> set (pc_entries g)"
    using D by simp_all
  moreover have "pe_stamp (pc_entries g ! pos) = fst sl"
    "pe_language (pc_entries g ! pos) = snd sl"
    "(pe_source (pc_entries g ! pos), pe_tree (pc_entries g ! pos)) = r"
    using assms p by (auto simp: parse_cache_lookup_def Let_def split: if_splits)
  ultimately show ?thesis unfolding parse_cache_holds_def by blast
qed

lemma store_holds:
  assumes "parse_cache_holds (parse_cache_store sl path r g) w k r'"
  shows "(w = sl \<and> k = path \<and> r' = r) \<or> parse_cache_holds g w k r'"
proof (cases "pc_capacity g = 0")
  case True
  then show ?thesis using assms by (simp add: parse_cache_store_def)
next
  case False
  let ?new = "\<lparr>pe_path = path, pe_stamp = fst sl, pe_language = snd sl,
                 pe_source = fst r, pe_tree = snd r\<rparr>"
  have "set (pc_entries (parse_cache_store sl path r g)) =
      insert ?new (set (pop_front_until (pc_capacity g) (pc_entries g)))"
    using False by (simp add: parse_cache_store_def)
  with assms obtain e where e: "pe_path e = k" "pe_stamp e = fst w" "pe_language e = snd w"
      "(pe_source e, pe_tree e) = r'"
    and "e \<in> set (pop_front_until (pc_capacity g) (pc_entries g)) \<or> e = ?new"
    unfolding parse_cache_holds_def by blast
  then consider "e \<in> set (pc_entries g)" | "e = ?new"
    using set_pop_front_until [of "pc_capacity g" "pc_entries g"] by blast
  then show ?thesis
  proof cases
    case 1
    then show ?thesis using e unfolding parse_cache_holds_def by blast
  next
    case 2
    then have "w = sl \<and> k = path \<and> r' = r" using e by (simp add: prod_eq_iff)
    then show ?thesis by simp
  qed
qed

interpretation pc: versioned_cache parse_cache_lookup parse_cache_store parse_cache_holds
proof unfold_locales
  show "parse_cache_holds g sl path r" if "parse_cache_lookup sl path g = (Some r, g')"
    for sl path and g :: "'a ParseCache" and r g'
    using that by (rule lookup_hit)
  show "parse_cache_holds g w k r" if "parse_cache_lookup sl path g = (x, g')"
    "parse_cache_holds g' w k r" for sl path and g :: "'a ParseCache" and x g' w k r
    using lookup_entries(1) [OF that(1)] that(2) unfolding parse_cache_holds_def by blast
  show "(w = sl \<and> k = path \<and> r' = r) \<or> parse_cache_holds g w k r'"
    if "parse_cache_holds (parse_cache_store sl path r g) w k r'"
    for sl path r and g :: "'a ParseCache" and w k r'
    using that by (rule store_holds)
qed

lemma evict_entries: "set (pc_entries (evict path g)) \<subseteq> set (pc_entries g)"
  using set_remove_at_subset [of _ "pc_entries g"]
  by (cases "position (\<lambda>e. pe_path e = path) (pc_entries g)") (auto simp: evict_def)

lemma evict_consistent: "pc.consistent R g \<Longrightarrow> pc.consistent R (evict path g)"
  using evict_entries [of path g] unfolding pc.consistent_def parse_cache_holds_def by blast

text \<open>What a faithful stamp, a language and a path determine.\<close>

definition parsed_at ::
  "'t grammar \<Rightarrow> (string \<Rightarrow> FileStamp \<Rightarrow> (string, string) res) \<Rightarrow>
     FileStamp \<times> Language \<Rightarrow> string \<Rightarrow> string \<times> 't \<Rightarrow> bool" where
  "parsed_at gr contents sl path st \<longleftrightarrow>
     read_and_parse gr (snd sl) (contents path (fst sl)) =
       Ok \<lparr>pf_language = snd sl, pf_source = fst st, pf_tree = snd st\<rparr>"

lemma read_and_parse_language: "read_and_parse gr l c = Ok p \<Longrightarrow> pf_language p = l"
  by (auto simp: read_and_parse_def res_simps split: option.splits)

lemma lookup_capacity_0 [simp]: "parse_cache_lookup sl path (parse_cache_new 0) = (None, parse_cache_new 0)"
  by (simp add: parse_cache_lookup_def parse_cache_new_def)

lemma parse_fresh_eq:
  "parse_fresh gr fv path =
     (case detect path of
        None \<Rightarrow> Ok None
      | Some l \<Rightarrow>
          (case fv_stamp fv of
             None \<Rightarrow> Err (''stat '' @ path)
           | Some st \<Rightarrow> res_bind (read_and_parse gr l (fv_read fv)) (\<lambda>p. Ok (Some p))))"
  by (simp add: parse_fresh_def get_or_parse_def split: option.split res.split)

lemma get_or_parse_fresh:
  assumes ok: "pc.consistent (parsed_at gr contents) g"
    and view: "case fv_stamp fv of Some st \<Rightarrow> fv_read fv = contents path st | None \<Rightarrow> True"
    and r: "get_or_parse gr fv path g = (r, g')"
  shows "r = parse_fresh gr fv path \<and> pc.consistent (parsed_at gr contents) g'"
proof (cases "detect path")
  case None
  then show ?thesis using ok r by (simp add: get_or_parse_def parse_fresh_eq)
next
  case l: (Some l)
  show ?thesis
  proof (cases "fv_stamp fv")
    case None
    then show ?thesis using ok r l by (simp add: get_or_parse_def parse_fresh_eq)
  next
    case st: (Some st)
    then have rd: "fv_read fv = contents path st" using view by simp
    obtain x g1 where look: "parse_cache_lookup (st, l) path g = (x, g1)" by fastforce
    have ok1: "pc.consistent (parsed_at gr contents) g1"
      using pc.consistent_get [OF ok look] .
    show ?thesis
    proof (cases x)
      case (Some y)
      then have "parsed_at gr contents (st, l) path y"
        using pc.consistent_hit [OF ok] look by blast
      then show ?thesis using r l st look Some ok1 rd
        by (cases y) (auto simp: get_or_parse_def parse_fresh_eq parsed_at_def)
    next
      case miss: None
      show ?thesis
      proof (cases "read_and_parse gr l (fv_read fv)")
        case (Ok p)
        then have "parsed_at gr contents (st, l) path (pf_source p, pf_tree p)"
          using rd read_and_parse_language [OF Ok] by (cases p) (simp add: parsed_at_def)
        from pc.consistent_ins [OF ok1 this] show ?thesis
          using r l st look miss Ok by (auto simp: get_or_parse_def parse_fresh_eq)
      qed (use r l st look miss ok1 in \<open>auto simp: get_or_parse_def parse_fresh_eq\<close>)
    qed
  qed
qed

lemma run_parses_fresh:
  "stamps_faithful contents ops \<Longrightarrow> pc.consistent (parsed_at gr contents) g \<Longrightarrow>
     run_parses gr ops g = fresh_parses gr ops"
proof (induction gr ops g rule: run_parses.induct)
  case (1 gr g)
  then show ?case by simp
next
  case (2 gr fv path ops g)
  obtain r g' where rg: "get_or_parse gr fv path g = (r, g')" by fastforce
  have "r = parse_fresh gr fv path \<and> pc.consistent (parsed_at gr contents) g'"
    using get_or_parse_fresh [OF "2.prems"(2) _ rg] "2.prems"(1) by simp
  then show ?case using "2.IH" [of r g'] rg "2.prems"(1) by simp
next
  case (3 gr path ops g)
  then show ?case using evict_consistent by auto
qed

lemma new_consistent: "pc.consistent R (parse_cache_new n)"
  by (simp add: pc.consistent_def parse_cache_holds_def parse_cache_new_def)

subsection \<open>Properties\<close>

text \<open>The parse cache never changes an answer: as long as modification time and size
  identify a file's contents, every sequence of requests on a changing file system, with
  paths evicted at any point and any capacity, gives the results (errors included) that
  reading and parsing the file afresh gives each time. A change to one file does not need the
  others to be dropped.\<close>

theorem parse_cache_transparent:
  assumes "stamps_faithful contents ops"
  shows "run_parses gr ops (parse_cache_new capacity) = fresh_parses gr ops"
  using run_parses_fresh [OF assms new_consistent] .

theorem parse_cache_transparent_witness:
  "let st = \<lparr>fst_mtime_ns = 1, fst_size = 2\<rparr>; fv = \<lparr>fv_stamp = Some st, fv_read = Ok ''fn''\<rparr>;
       gr = \<lparr>gr_set_language = (\<lambda>_. None), gr_parse = (\<lambda>_ s. Some (length s))\<rparr>;
       ops = [Parse fv ''a.rs'', Parse fv ''a.rs'', Evict ''a.rs'', Parse fv ''a.rs'']
   in run_parses gr ops (parse_cache_new 1) = fresh_parses gr ops"
  unfolding Let_def
  by (rule parse_cache_transparent [of "\<lambda>_ _. Ok ''fn''"]) simp

end
