(* ===== verification/Outline.thy ===== *)
theory Outline
  imports Protocol Parse_Cache
begin

text \<open>
  Outline and symbol extraction, \<^verbatim>\<open>src/crates/daemon/src/outline.rs\<close>. What tree-sitter delivers is a parameter:
  the capture names of a compiled query (or its error) and the matches of a query on a tree,
  each a list of captures, a capture being an index and a node. A node has the accessors the
  source uses: kind, whether it is named, byte range, start and end row, and its children
  with their field names.
\<close>

subsection \<open>Nodes\<close>

datatype Node = Node
  (n_kind: string) (n_named: bool) (n_start_byte: nat) (n_end_byte: nat)
  (n_start_row: nat) (n_end_row: nat) (n_children: "(string option \<times> Node) list")

record 't tree_sitter =
  ts_grammar :: "'t grammar"
  ts_query :: "Language \<Rightarrow> string \<Rightarrow> (string list, string) res"
  ts_matches :: "Language \<Rightarrow> string \<Rightarrow> 't \<Rightarrow> string \<Rightarrow> (nat \<times> Node) list list"

definition named_children :: "Node \<Rightarrow> Node list" where
  "named_children n = filter n_named (map snd (n_children n))"

definition child_by_field_name :: "string \<Rightarrow> Node \<Rightarrow> Node option" where
  "child_by_field_name f n = map_option snd (find (\<lambda>(g, _). g = Some f) (n_children n))"

text \<open>\<open>Node::utf8_text\<close> slices the source by the node's byte range.\<close>

definition utf8_text :: "Node \<Rightarrow> string \<Rightarrow> (string, unit) res" where
  "utf8_text n source =
     (if n_start_byte n \<le> n_end_byte n \<and> n_end_byte n \<le> length source
      then let t = take (n_end_byte n - n_start_byte n) (drop (n_start_byte n) source)
           in if valid_utf8 t then Ok t else Err ()
      else Panic ''slice index out of range'')"

subsection \<open>Signatures\<close>

definition BODY_KINDS :: "string list" where
  "BODY_KINDS =
     [''block'', ''statement_block'', ''compound_statement'', ''field_declaration_list'',
      ''ordered_field_declaration_list'', ''enum_variant_list'', ''enumerator_list'',
      ''declaration_list'', ''class_body'', ''interface_body'', ''object_type'', ''enum_body'',
      ''macro_rule'']"

fun dfs :: "nat \<Rightarrow> Node \<Rightarrow> nat option" and dfs_children :: "nat \<Rightarrow> Node list \<Rightarrow> nat option" where
  "dfs 0 n = None"
| "dfs (Suc d) n = dfs_children d (named_children n)"
| "dfs_children d [] = None"
| "dfs_children d (c # cs) =
     (if n_kind c \<in> set BODY_KINDS then Some (n_start_byte c)
      else case dfs d c of Some b \<Rightarrow> Some b | None \<Rightarrow> dfs_children d cs)"

definition find_body_start :: "Node \<Rightarrow> nat option" where
  "find_body_start n =
     (case child_by_field_name ''body'' n of
        Some body \<Rightarrow> Some (n_start_byte body)
      | None \<Rightarrow> dfs 4 n)"

definition ends_open :: "string \<Rightarrow> bool" where
  "ends_open s \<longleftrightarrow> s \<noteq> [] \<and> last s \<in> {CHR ''{'', CHR ''('', CHR ''[''}"

lemma length_trim_back: "length (trim_back r) \<le> length r"
proof (induction r rule: trim_back.induct)
  case (1 r)
  then show ?case by (cases "ws_len_back r = 0") (simp_all add: trim_back.simps [of r])
qed

function drop_open :: "string \<Rightarrow> string" where
  "drop_open out = (if ends_open out then drop_open (trim_end (butlast out)) else out)"
  by pat_completeness auto
termination
proof (relation "measure length")
  fix out :: string
  assume "ends_open out"
  then have "out \<noteq> []" by (simp add: ends_open_def)
  moreover have "length (trim_end (butlast out)) \<le> length (butlast out)"
    using length_trim_back [of "rev (butlast out)"] by (simp add: trim_end_def)
  ultimately show "(trim_end (butlast out), out) \<in> measure length"
    by (cases out rule: rev_cases) simp_all
qed simp

declare drop_open.simps [simp del]

definition extract_signature :: "Node \<Rightarrow> string \<Rightarrow> string" where
  "extract_signature node source =
     (let start = n_start_byte node;
          body = find_body_start node;
          fin = (case body of
                   Some b \<Rightarrow> if b > start then b else n_end_byte node
                 | None \<Rightarrow> n_end_byte node);
          slice = (if start \<le> fin \<and> fin \<le> length source
                   then take (fin - start) (drop start source) else []);
          text = (if valid_utf8 slice then slice else []);
          candidate = (if body = None then hd (split_on nl text) else text)
      in drop_open (join '' '' (split_whitespace candidate)))"

subsection \<open>Entries\<close>

definition outline_entry :: "bool \<Rightarrow> Node \<Rightarrow> string \<Rightarrow> string \<Rightarrow> string \<Rightarrow> CodeOutlineEntry" where
  "outline_entry signatures node kind name source =
     \<lparr>coe_kind = kind, coe_name = name,
      coe_start_byte = u32_of (n_start_byte node), coe_end_byte = u32_of (n_end_byte node),
      coe_start_line = u32_of (u32_of (n_start_row node) + 1),
      coe_end_line = u32_of (u32_of (n_end_row node) + 1),
      coe_signature = (if signatures then Some (extract_signature node source) else None)\<rparr>"

type_synonym scan_state = "(Node \<times> string) option \<times> string option"

fun scan_captures ::
  "CaptureMeta option list \<Rightarrow> string \<Rightarrow> (nat \<times> Node) list \<Rightarrow> scan_state \<Rightarrow> scan_state rpc" where
  "scan_captures meta source [] st = Ok st"
| "scan_captures meta source ((i, n) # caps) st =
     (if length meta \<le> i then Panic ''index out of bounds''
      else case meta ! i of
        None \<Rightarrow> scan_captures meta source caps st
      | Some (Def kind) \<Rightarrow> scan_captures meta source caps (Some (n, kind), snd st)
      | Some Name \<Rightarrow>
          (case utf8_text n source of
             Ok t \<Rightarrow> scan_captures meta source caps (fst st, Some t)
           | Err _ \<Rightarrow> scan_captures meta source caps st
           | Panic m \<Rightarrow> Panic m))"

fun match_entries ::
  "bool \<Rightarrow> CaptureMeta option list \<Rightarrow> string \<Rightarrow> (nat \<times> Node) list list \<Rightarrow>
     CodeOutlineEntry list rpc" where
  "match_entries signatures meta source [] = Ok []"
| "match_entries signatures meta source (m # ms) =
     res_bind (scan_captures meta source m (None, None)) (\<lambda>st.
     res_bind (match_entries signatures meta source ms) (\<lambda>es.
       Ok (case st of
             (Some (node, kind), Some name) \<Rightarrow>
               outline_entry signatures node kind name source # es
           | _ \<Rightarrow> es)))"

text \<open>\<open>Vec::dedup_by_key\<close>: of consecutive elements with the same key the first stays.\<close>

fun dedup_by_key :: "('a \<Rightarrow> 'k) \<Rightarrow> 'a list \<Rightarrow> 'a list" where
  "dedup_by_key f [] = []"
| "dedup_by_key f [x] = [x]"
| "dedup_by_key f (x # y # xs) =
     (if f x = f y then dedup_by_key f (x # xs) else x # dedup_by_key f (y # xs))"

definition byte_range :: "CodeOutlineEntry \<Rightarrow> nat \<times> nat" where
  "byte_range e = (coe_start_byte e, coe_end_byte e)"

definition raw_entries :: "'t tree_sitter \<Rightarrow> 't ParsedFile \<Rightarrow> bool \<Rightarrow> CodeOutlineEntry list rpc" where
  "raw_entries ts parsed signatures =
     (let lang = pf_language parsed; q = outline_query lang
      in case ts_query ts lang q of
           Err e \<Rightarrow> Err (rpc_error (-32040) (''outline query: '' @ e))
         | Panic m \<Rightarrow> Panic m
         | Ok names \<Rightarrow>
             match_entries signatures (map from_capture_name names) (pf_source parsed)
               (ts_matches ts lang q (pf_tree parsed) (pf_source parsed)))"

definition outline :: "'t tree_sitter \<Rightarrow> 't ParsedFile \<Rightarrow> bool \<Rightarrow> CodeOutlineEntry list rpc" where
  "outline ts parsed signatures =
     res_bind (raw_entries ts parsed signatures) (\<lambda>raw.
       Ok (dedup_by_key byte_range (sort_key byte_range raw)))"

fun first_seen :: "string list \<Rightarrow> string list \<Rightarrow> string list" where
  "first_seen names [] = names"
| "first_seen names (n # ns) =
     (if n \<in> set names then first_seen names ns else first_seen (names @ [n]) ns)"

definition outline_symbols :: "'t tree_sitter \<Rightarrow> 't ParsedFile \<Rightarrow> string list rpc" where
  "outline_symbols ts parsed =
     res_bind (outline ts parsed False) (\<lambda>entries. Ok (first_seen [] (map coe_name entries)))"

subsection \<open>Lemmas: deduplication\<close>

lemma dedup_by_key_find:
  "sorted (map f xs) \<Longrightarrow>
     find (\<lambda>r. f r = k) (dedup_by_key f xs) = find (\<lambda>r. f r = (k::'k::linorder)) xs"
  by (induction f xs rule: dedup_by_key.induct) auto

lemma dedup_by_key_hd: "xs \<noteq> [] \<Longrightarrow> dedup_by_key f xs \<noteq> [] \<and> hd (dedup_by_key f xs) = hd xs"
  by (induction f xs rule: dedup_by_key.induct) auto

lemma set_dedup_by_key: "set (dedup_by_key f xs) \<subseteq> set xs"
  by (induction f xs rule: dedup_by_key.induct) auto

lemma dedup_by_key_strict:
  "sorted (map f xs) \<Longrightarrow> sorted_wrt (<) (map (f :: 'a \<Rightarrow> 'k::linorder) (dedup_by_key f xs))"
proof (induction f xs rule: dedup_by_key.induct)
  case (3 f x y xs)
  show ?case
  proof (cases "f x = f y")
    case True
    then show ?thesis using 3 by simp
  next
    case False
    then have "\<forall>z \<in> set (dedup_by_key f (y # xs)). f x < f z"
      using "3.prems" set_dedup_by_key [of f "y # xs"]
      by (fastforce simp: order.strict_iff_order)
    then show ?thesis using False 3 by simp
  qed
qed simp_all

lemma find_sort_key: "find (\<lambda>r. f r = k) (sort_key f xs) = find (\<lambda>r. f r = k) xs"
proof -
  have "find P xs = (case filter P xs of [] \<Rightarrow> None | y # _ \<Rightarrow> Some y)" for P :: "'a \<Rightarrow> bool" and xs
    by (induction xs) auto
  then show ?thesis by (simp add: sort_key_stable)
qed

lemma member_by_find:
  "sorted_wrt (<) (map f ys) \<Longrightarrow> e \<in> set ys \<longleftrightarrow> find (\<lambda>r. f r = (f e :: 'k::linorder)) ys = Some e"
proof (induction ys)
  case (Cons y ys)
  then have "f y \<noteq> f e" if "e \<in> set ys" using that by auto
  then show ?case using Cons by auto
qed simp

lemma first_seen_props:
  "distinct names \<Longrightarrow>
     distinct (first_seen names ns) \<and> set (first_seen names ns) = set names \<union> set ns \<and>
     (\<exists>t. first_seen names ns = names @ t \<and> subseq t ns)"
proof (induction names ns rule: first_seen.induct)
  case (2 names n ns)
  show ?case
  proof (cases "n \<in> set names")
    case True
    then show ?thesis using 2 by auto
  next
    case False
    then obtain t where "first_seen (names @ [n]) ns = (names @ [n]) @ t" "subseq t ns"
      "distinct (first_seen (names @ [n]) ns)"
      "set (first_seen (names @ [n]) ns) = set (names @ [n]) \<union> set ns"
      using 2 by auto
    then show ?thesis using False by auto
  qed
qed simp

subsection \<open>Lemmas: signatures\<close>

lemma ws_len_nl [simp]: "ws_len (nl # s) = 1"
  by (simp add: ws_len_def byte_def)

lemma split_ws_no_nl: "nl \<notin> set w \<Longrightarrow> x \<in> set (split_ws w s) \<Longrightarrow> nl \<notin> set x"
proof (induction w s rule: split_ws.induct)
  case (1 w s)
  show ?case
  proof (cases "s = []")
    case True
    then show ?thesis using "1.prems" by (simp add: split_ws.simps [of w "[]"] split: if_splits)
  next
    case s: False
    show ?thesis
    proof (cases "ws_len s = 0")
      case True
      have "hd s \<noteq> nl" using True s by (cases s) auto
      then show ?thesis
        using "1.IH"(1) [OF s True] "1.prems" s True by (simp add: split_ws.simps [of w s])
    next
      case False
      then show ?thesis
        using "1.IH"(2) [OF s False] "1.prems" s
        by (auto simp: split_ws.simps [of w s] split: if_splits)
    qed
  qed
qed

lemma set_join: "set (join sep ss) \<subseteq> set sep \<union> (\<Union>s \<in> set ss. set s)"
  by (induction sep ss rule: join.induct) auto

lemma set_trim_back: "set (trim_back r) \<subseteq> set r"
proof (induction r rule: trim_back.induct)
  case (1 r)
  then show ?case
    by (cases "ws_len_back r = 0") (auto simp: trim_back.simps [of r] dest: in_set_dropD)
qed

lemma drop_open_props: "set (drop_open s) \<subseteq> set s \<and> \<not> ends_open (drop_open s)"
proof (induction s rule: drop_open.induct)
  case (1 s)
  show ?case
  proof (cases "ends_open s")
    case True
    have "set (trim_end (butlast s)) \<subseteq> set s"
      using set_trim_back [of "rev (butlast s)"] by (auto simp: trim_end_def dest: in_set_butlastD)
    then show ?thesis using 1 True by (auto simp: drop_open.simps [of s])
  qed (simp add: drop_open.simps [of s])
qed

subsection \<open>Properties\<close>



text \<open>A signature is a single line that does not end in an opening delimiter, for every
  node and every source: the text before the body with its white space collapsed.\<close>

theorem signature_single_line:
  "nl \<notin> set (extract_signature node source) \<and> \<not> ends_open (extract_signature node source)"
proof -
  have "nl \<notin> set (join '' '' (split_whitespace c))" for c
    using set_join [of "'' ''" "split_whitespace c"] split_ws_no_nl [of "[]" _ c]
    by (auto simp: split_whitespace_def)
  then show ?thesis
    using drop_open_props unfolding extract_signature_def Let_def by blast
qed

text \<open>The symbols of a file are the names of its outline, each once, in order of first
  appearance.\<close>

theorem symbols_are_outline_names:
  assumes "outline ts parsed False = Ok es"
  shows "\<exists>ns. outline_symbols ts parsed = Ok ns \<and> distinct ns \<and> set ns = coe_name ` set es \<and>
           subseq ns (map coe_name es)"
  using assms first_seen_props [of "[]" "map coe_name es"] by (simp add: outline_symbols_def)

theorem symbols_are_outline_names_witness:
  "\<exists>ns. outline_symbols
      \<lparr>ts_grammar = \<lparr>gr_set_language = (\<lambda>_. None), gr_parse = (\<lambda>_ _. Some ())\<rparr>,
       ts_query = (\<lambda>_ _. Ok []), ts_matches = (\<lambda>_ _ _ _. [])\<rparr>
      \<lparr>pf_language = Go, pf_source = [], pf_tree = ()\<rparr> = Ok ns \<and> distinct ns"
proof -
  let ?ts = "\<lparr>ts_grammar = \<lparr>gr_set_language = (\<lambda>_. None), gr_parse = (\<lambda>_ _. Some ())\<rparr>,
       ts_query = (\<lambda>_ _. Ok []), ts_matches = (\<lambda>_ _ _ _. [])\<rparr>"
  have "outline ?ts \<lparr>pf_language = Go, pf_source = [], pf_tree = ()\<rparr> False = Ok []"
    by (simp add: outline_def raw_entries_def Let_def)
  from symbols_are_outline_names [OF this] show ?thesis by blast
qed

end
