(* ===== verification/Backends.thy ===== *)
theory Backends
  imports Outline
begin

text \<open>
  The language backends, \<^verbatim>\<open>src/crates/daemon/src/backends/\<close>: the trait \<open>LanguageBackend\<close> as a record
  of operations on a state, the registry as the ordered list of backends, and the one
  implementation, tree-sitter over the parse cache. The locale \<open>language_backend\<close> is the
  trait's contract; the registry's routing is proved from it.
\<close>

subsection \<open>The trait and the registry\<close>

record OutlineResult =
  or_language :: Language
  or_entries :: "CodeOutlineEntry list"

record SymbolsResult =
  sr_language :: Language
  sr_names :: "string list"

record 's LanguageBackend =
  be_name :: string
  be_supports :: "Language \<Rightarrow> bool"
  be_outline :: "string \<Rightarrow> Language \<Rightarrow> bool \<Rightarrow> 's \<Rightarrow> OutlineResult rpc \<times> 's"
  be_symbols :: "string \<Rightarrow> Language \<Rightarrow> 's \<Rightarrow> SymbolsResult rpc \<times> 's"

type_synonym 's BackendRegistry = "'s LanguageBackend list"

definition registry_new :: "'s BackendRegistry" where
  "registry_new = []"

definition register :: "'s LanguageBackend \<Rightarrow> 's BackendRegistry \<Rightarrow> 's BackendRegistry" where
  "register b r = r @ [b]"

definition for_language :: "Language \<Rightarrow> 's BackendRegistry \<Rightarrow> 's LanguageBackend option" where
  "for_language l r = find (\<lambda>b. be_supports b l) r"

definition map_some :: "'a rpc \<times> 's \<Rightarrow> 'a option rpc \<times> 's" where
  "map_some x = (res_bind (fst x) (\<lambda>a. Ok (Some a)), snd x)"

definition registry_outline ::
  "'s BackendRegistry \<Rightarrow> string \<Rightarrow> bool \<Rightarrow> 's \<Rightarrow> OutlineResult option rpc \<times> 's" where
  "registry_outline r path signatures s =
     (case detect path of
        None \<Rightarrow> (Ok None, s)
      | Some language \<Rightarrow>
          (case for_language language r of
             None \<Rightarrow> (Ok None, s)
           | Some backend \<Rightarrow> map_some (be_outline backend path language signatures s)))"

definition registry_symbols ::
  "'s BackendRegistry \<Rightarrow> string \<Rightarrow> 's \<Rightarrow> SymbolsResult option rpc \<times> 's" where
  "registry_symbols r path s =
     (case detect path of
        None \<Rightarrow> (Ok None, s)
      | Some language \<Rightarrow>
          (case for_language language r of
             None \<Rightarrow> (Ok None, s)
           | Some backend \<Rightarrow> map_some (be_symbols backend path language s)))"

subsection \<open>The tree-sitter backend\<close>

text \<open>\<open>fs\<close> is what the operating system answers for each path during the call.\<close>

definition ts_parse ::
  "'t tree_sitter \<Rightarrow> (string \<Rightarrow> file_view) \<Rightarrow> string \<Rightarrow> 't ParseCache \<Rightarrow>
     't ParsedFile option rpc \<times> 't ParseCache" where
  "ts_parse ts fs path g =
     (case get_or_parse (ts_grammar ts) (fs path) path g of
        (Ok p, g') \<Rightarrow> (Ok p, g')
      | (Err e, g') \<Rightarrow> (Err (rpc_error (-32041) (''parse '' @ path @ '': '' @ e)), g')
      | (Panic m, g') \<Rightarrow> (Panic m, g'))"

definition ts_outline ::
  "'t tree_sitter \<Rightarrow> (string \<Rightarrow> file_view) \<Rightarrow> string \<Rightarrow> Language \<Rightarrow> bool \<Rightarrow> 't ParseCache \<Rightarrow>
     OutlineResult rpc \<times> 't ParseCache" where
  "ts_outline ts fs path language signatures g =
     (case ts_parse ts fs path g of
        (r, g') \<Rightarrow>
          (res_bind r (\<lambda>p. case p of
             None \<Rightarrow> Ok \<lparr>or_language = language, or_entries = []\<rparr>
           | Some parsed \<Rightarrow>
               res_bind (outline ts parsed signatures) (\<lambda>entries.
                 Ok \<lparr>or_language = pf_language parsed, or_entries = entries\<rparr>)), g'))"

definition ts_symbols ::
  "'t tree_sitter \<Rightarrow> (string \<Rightarrow> file_view) \<Rightarrow> string \<Rightarrow> Language \<Rightarrow> 't ParseCache \<Rightarrow>
     SymbolsResult rpc \<times> 't ParseCache" where
  "ts_symbols ts fs path language g =
     (case ts_parse ts fs path g of
        (r, g') \<Rightarrow>
          (res_bind r (\<lambda>p. case p of
             None \<Rightarrow> Ok \<lparr>sr_language = language, sr_names = []\<rparr>
           | Some parsed \<Rightarrow>
               res_bind (outline_symbols ts parsed) (\<lambda>names.
                 Ok \<lparr>sr_language = pf_language parsed, sr_names = names\<rparr>)), g'))"

definition tree_sitter_backend ::
  "'t tree_sitter \<Rightarrow> (string \<Rightarrow> file_view) \<Rightarrow> 't ParseCache LanguageBackend" where
  "tree_sitter_backend ts fs =
     \<lparr>be_name = ''tree-sitter'', be_supports = (\<lambda>_. True), be_outline = ts_outline ts fs,
      be_symbols = ts_symbols ts fs\<rparr>"

subsection \<open>The contract of a backend\<close>

text \<open>A backend reports the language of the file it was asked about, and its symbols are the
  names of its outline, each once. The second law compares the two operations on the same
  state.\<close>

definition names_of_outline :: "OutlineResult rpc \<Rightarrow> SymbolsResult rpc" where
  "names_of_outline r =
     res_bind r (\<lambda>o'. Ok \<lparr>sr_language = or_language o',
                          sr_names = first_seen [] (map coe_name (or_entries o'))\<rparr>)"

locale language_backend =
  fixes b :: "'s LanguageBackend" and good :: "'s \<Rightarrow> bool"
  assumes outline_good: "good s \<Longrightarrow> be_outline b path l sg s = (r, s') \<Longrightarrow> good s'"
    and symbols_good: "good s \<Longrightarrow> be_symbols b path l s = (q, s') \<Longrightarrow> good s'"
    and language: "good s \<Longrightarrow> detect path = Some l \<Longrightarrow>
          be_outline b path l sg s = (Ok res, s') \<Longrightarrow> or_language res = l"
    and symbols_outline: "good s \<Longrightarrow> detect path = Some l \<Longrightarrow>
          fst (be_symbols b path l s) = names_of_outline (fst (be_outline b path l False s))"
begin

lemma registry_language:
  assumes "good s" "for_language l r = Some b" "detect path = Some l"
    "registry_outline r path sg s = (Ok (Some res), s')"
  shows "or_language res = l"
proof (cases "be_outline b path l sg s")
  case (Pair x t)
  with assms show ?thesis using language [OF assms(1,3)]
    by (auto simp: registry_outline_def map_some_def res_simps)
qed

lemma registry_symbols_outline:
  assumes "good s" "for_language l r = Some b" "detect path = Some l"
    "fst (registry_outline r path False s) = Ok (Some res)"
  shows "fst (registry_symbols r path s) =
    Ok (Some \<lparr>sr_language = l, sr_names = first_seen [] (map coe_name (or_entries res))\<rparr>)"
proof -
  obtain x t where bo: "be_outline b path l False s = (x, t)" by fastforce
  then have x: "x = Ok res" using assms by (auto simp: registry_outline_def map_some_def res_simps)
  then have "or_language res = l" using language [OF assms(1,3)] bo by blast
  then show ?thesis
    using symbols_outline [OF assms(1,3)] assms(2,3) bo x
    by (simp add: registry_symbols_def map_some_def names_of_outline_def)
qed

end

subsection \<open>Tree-sitter keeps the contract\<close>

text \<open>The states the daemon can be in: every cached parse carries the language its path is
  detected as.\<close>

definition languages_good :: "'t ParseCache \<Rightarrow> bool" where
  "languages_good g \<longleftrightarrow> pc.consistent (\<lambda>sl path st. detect path = Some (snd sl)) g"

lemma get_or_parse_language:
  assumes "get_or_parse gr fv path g = (Ok (Some p), g')"
  shows "detect path = Some (pf_language p)"
  using assms
  by (auto simp: get_or_parse_def dest: read_and_parse_language
      split: option.splits prod.splits res.splits)

lemma get_or_parse_good:
  assumes "languages_good g" "get_or_parse gr fv path g = (r, g')"
  shows "languages_good g'"
proof (cases "detect path")
  case None
  then show ?thesis using assms by (simp add: get_or_parse_def)
next
  case l: (Some l)
  show ?thesis
  proof (cases "fv_stamp fv")
    case None
    then show ?thesis using assms l by (simp add: get_or_parse_def)
  next
    case st: (Some st)
    obtain x g1 where look: "parse_cache_lookup (st, l) path g = (x, g1)" by fastforce
    have g1: "languages_good g1"
      using pc.consistent_get [OF _ look] assms(1) unfolding languages_good_def by blast
    then have "languages_good (parse_cache_store (st, l) path y g1)" for y
      using l unfolding languages_good_def by (intro pc.consistent_ins) simp_all
    then show ?thesis using assms(2) l st look g1
      by (auto simp: get_or_parse_def split: option.splits res.splits prod.splits)
  qed
qed

lemma ts_parse_cases:
  assumes "ts_parse ts fs path g = (r, g')"
  obtains q where "get_or_parse (ts_grammar ts) (fs path) path g = (q, g')"
    "\<And>p. r = Ok p \<Longrightarrow> q = Ok p"
  using assms that by (cases "get_or_parse (ts_grammar ts) (fs path) path g" rule: prod.exhaust)
    (auto simp: ts_parse_def split: res.splits)

lemma ts_parse_good: "languages_good g \<Longrightarrow> ts_parse ts fs path g = (r, g') \<Longrightarrow> languages_good g'"
  by (erule ts_parse_cases) (rule get_or_parse_good)

lemma ts_parse_language:
  "ts_parse ts fs path g = (Ok (Some p), g') \<Longrightarrow> detect path = Some (pf_language p)"
  by (erule ts_parse_cases) (auto dest: get_or_parse_language)

interpretation tsb: language_backend "tree_sitter_backend ts fs" languages_good for ts fs
proof unfold_locales
  fix g g' :: "'a ParseCache" and path l sg r
  show "languages_good g'" if "languages_good g"
    "be_outline (tree_sitter_backend ts fs) path l sg g = (r, g')"
    using that ts_parse_good by (auto simp: tree_sitter_backend_def ts_outline_def split: prod.splits)
  show "languages_good g'" if "languages_good g"
    "be_symbols (tree_sitter_backend ts fs) path l g = (q, g')" for q
    using that ts_parse_good by (auto simp: tree_sitter_backend_def ts_symbols_def split: prod.splits)
  show "or_language r = l" if "detect path = Some l"
    "be_outline (tree_sitter_backend ts fs) path l sg g = (Ok r, g')" for r
    using that ts_parse_language
    by (fastforce simp: tree_sitter_backend_def ts_outline_def res_simps
        split: prod.splits option.splits)
  show "fst (be_symbols (tree_sitter_backend ts fs) path l g) =
      names_of_outline (fst (be_outline (tree_sitter_backend ts fs) path l False g))"
    if "detect path = Some l"
  proof (cases "ts_parse ts fs path g")
    case (Pair x g1)
    show ?thesis
    proof (cases x)
      case (Ok p)
      then show ?thesis using Pair
        by (cases p; cases "outline ts (the p) False")
          (simp_all add: tree_sitter_backend_def ts_symbols_def ts_outline_def
            names_of_outline_def outline_symbols_def)
    qed (simp_all add: Pair tree_sitter_backend_def ts_symbols_def ts_outline_def
        names_of_outline_def)
  qed
qed

lemma languages_good_new: "languages_good (parse_cache_new n)"
  unfolding languages_good_def by (rule new_consistent)

subsection \<open>Properties\<close>

text \<open>Through the daemon's registry (tree-sitter as the only backend) an outline names the
  language the path is detected as, and \<open>code.symbols\<close> on the same file answers with that
  language and the names of the outline, each once in order of appearance; a path of no known
  language is answered with nothing and leaves the cache alone.\<close>

theorem registry_symbols_match_outline:
  assumes "languages_good g"
    and "fst (registry_outline (register (tree_sitter_backend ts fs) registry_new) path False g) =
           Ok (Some res)"
  shows "detect path = Some (or_language res) \<and>
         fst (registry_symbols (register (tree_sitter_backend ts fs) registry_new) path g) =
           Ok (Some \<lparr>sr_language = or_language res,
                     sr_names = first_seen [] (map coe_name (or_entries res))\<rparr>)"
proof -
  let ?r = "register (tree_sitter_backend ts fs) registry_new"
  have f: "for_language l ?r = Some (tree_sitter_backend ts fs)" for l
    by (simp add: for_language_def register_def registry_new_def tree_sitter_backend_def)
  obtain l where l: "detect path = Some l"
    using assms(2) by (auto simp: registry_outline_def split: option.splits)
  obtain s' where "registry_outline ?r path False g = (Ok (Some res), s')"
    using assms(2) by (cases "registry_outline ?r path False g") simp
  from tsb.registry_language [OF assms(1) f l this] have "or_language res = l" .
  then show ?thesis
    using tsb.registry_symbols_outline [OF assms(1) f l assms(2)] l by simp
qed

theorem registry_symbols_match_outline_witness:
  "let ts = \<lparr>ts_grammar = \<lparr>gr_set_language = (\<lambda>_. None), gr_parse = (\<lambda>_ _. Some ())\<rparr>,
             ts_query = (\<lambda>_ _. Ok []), ts_matches = (\<lambda>_ _ _ _. [])\<rparr>;
       fs = (\<lambda>_. \<lparr>fv_stamp = Some \<lparr>fst_mtime_ns = 0, fst_size = 0\<rparr>, fv_read = Ok []\<rparr>)
   in fst (registry_symbols (register (tree_sitter_backend ts fs) registry_new) ''a.go''
            (parse_cache_new 4)) = Ok (Some \<lparr>sr_language = Go, sr_names = []\<rparr>)"
proof -
  let ?ts = "\<lparr>ts_grammar = \<lparr>gr_set_language = (\<lambda>_. None), gr_parse = (\<lambda>_ _. Some ())\<rparr>,
             ts_query = (\<lambda>_ _. Ok []), ts_matches = (\<lambda>_ _ _ _. [])\<rparr>"
  let ?fs = "\<lambda>_. \<lparr>fv_stamp = Some \<lparr>fst_mtime_ns = 0, fst_size = 0\<rparr>, fv_read = Ok []\<rparr>"
  have "valid_utf8 ''go''" by (rule valid_utf8_ascii) (simp add: byte_def)
  then have d: "detect ''a.go'' = Some Go"
    by (simp add: detect_def path_extension_def path_file_name_def path_components_def Let_def
        ascii_lower_def byte_def)
  have "fst (registry_outline (register (tree_sitter_backend ?ts ?fs) registry_new) ''a.go'' False
      (parse_cache_new 4)) = Ok (Some \<lparr>or_language = Go, or_entries = []\<rparr>)"
    using d by (simp add: registry_outline_def for_language_def register_def registry_new_def
        tree_sitter_backend_def ts_outline_def ts_parse_def get_or_parse_def parse_cache_lookup_def
        parse_cache_new_def read_and_parse_def outline_def raw_entries_def map_some_def Let_def)
  from registry_symbols_match_outline [OF languages_good_new this] show ?thesis by simp
qed

end
