(* ===== verification/Compact.thy ===== *)
theory Compact
  imports Protocol Rust_Str
begin

text \<open>
  Output compaction, \<^verbatim>\<open>src/crates/daemon/src/compact/mod.rs\<close>, with the status strings it reads
  (\<open>format_status\<close> of \<^verbatim>\<open>src/crates/daemon/src/handlers.rs\<close>). A \<open>BTreeMap\<close> is an association list in
  increasing key order (\<open>bt_modify\<close>); strings are compared bytewise.
\<close>

subsection \<open>Parent directories\<close>

text \<open>\<open>Path::parent\<close> on the slash-separated parts of a path. Trailing empty and \<open>.\<close> parts are
  not components; a leading empty part is the root.\<close>

fun trim_parts :: "string list \<Rightarrow> string list" where
  "trim_parts (c # d # cs) = (if c = [] \<or> c = ''.'' then trim_parts (d # cs) else c # d # cs)"
| "trim_parts cs = cs"

definition path_parent :: "string \<Rightarrow> string option" where
  "path_parent p =
     (let t = trim_parts (rev (split_on (CHR ''/'') p))
      in case t of
           [] \<Rightarrow> None
         | [c] \<Rightarrow> if c = [] then None else Some []
         | c # cs \<Rightarrow> (let q = trim_parts cs in if q = [[]] then Some ''/'' else Some (join ''/'' (rev q))))"

definition parent_dir_str :: "string \<Rightarrow> string" where
  "parent_dir_str path =
     (let normalised = map (\<lambda>c. if c = CHR 0x5C then CHR ''/'' else c) path
      in case path_parent normalised of
           Some parent \<Rightarrow> if parent \<noteq> [] then parent else ''.''
         | None \<Rightarrow> ''.'')"

subsection \<open>Status classes\<close>

datatype git_flag =
  INDEX_NEW | INDEX_MODIFIED | INDEX_DELETED | INDEX_RENAMED | INDEX_TYPECHANGE
| WT_NEW | WT_MODIFIED | WT_DELETED | WT_RENAMED | WT_TYPECHANGE | IGNORED | CONFLICTED

fun flag_name :: "git_flag \<Rightarrow> string" where
  "flag_name INDEX_NEW = ''index_new''"
| "flag_name INDEX_MODIFIED = ''index_modified''"
| "flag_name INDEX_DELETED = ''index_deleted''"
| "flag_name INDEX_RENAMED = ''index_renamed''"
| "flag_name INDEX_TYPECHANGE = ''index_typechange''"
| "flag_name WT_NEW = ''wt_new''"
| "flag_name WT_MODIFIED = ''wt_modified''"
| "flag_name WT_DELETED = ''wt_deleted''"
| "flag_name WT_RENAMED = ''wt_renamed''"
| "flag_name WT_TYPECHANGE = ''wt_typechange''"
| "flag_name IGNORED = ''ignored''"
| "flag_name CONFLICTED = ''conflicted''"

definition all_flags :: "git_flag list" where
  "all_flags =
     [INDEX_NEW, INDEX_MODIFIED, INDEX_DELETED, INDEX_RENAMED, INDEX_TYPECHANGE,
      WT_NEW, WT_MODIFIED, WT_DELETED, WT_RENAMED, WT_TYPECHANGE, IGNORED, CONFLICTED]"

definition format_status :: "(git_flag \<Rightarrow> bool) \<Rightarrow> string" where
  "format_status status =
     (let parts = map flag_name (filter status all_flags)
      in if parts = [] then ''clean'' else join '','' parts)"

definition primary_status_class :: "string \<Rightarrow> string" where
  "primary_status_class status =
     (if str_contains ''conflicted'' status then ''conflicted''
      else if str_contains ''deleted'' status then ''deleted''
      else if str_contains ''renamed'' status then ''renamed''
      else if str_contains ''typechange'' status then ''typechange''
      else if str_contains ''modified'' status then ''modified''
      else if str_contains ''wt_new'' status \<or> str_contains ''index_new'' status then ''untracked''
      else if str_contains ''ignored'' status then ''ignored''
      else ''clean'')"

subsection \<open>The three summaries\<close>

text \<open>\<open>sort_by(|a, b| b.count.cmp(&a.count).then(a.key.cmp(&b.key)))\<close>.\<close>

definition heaviest_first :: "('a \<Rightarrow> nat) \<Rightarrow> ('a \<Rightarrow> string) \<Rightarrow> 'a list \<Rightarrow> 'a list" where
  "heaviest_first cnt key xs = sort_key (\<lambda>x. (- int (cnt x), key x)) xs"

definition class_bucket :: "nat \<Rightarrow> string \<times> (string \<times> nat) list \<Rightarrow> GitStatusClassBucket" where
  "class_bucket top_dirs_per_class cd =
     (let sorted = heaviest_first snd fst (snd cd);
          head = (if length sorted > top_dirs_per_class
                  then take top_dirs_per_class sorted else sorted);
          tail = (if length sorted > top_dirs_per_class
                  then drop top_dirs_per_class sorted else []);
          by_dir = map (\<lambda>(d, c). \<lparr>gsdc_dir = d, gsdc_count = c\<rparr>) head
      in \<lparr>gscb_class = fst cd, gscb_count = sum_list (map snd sorted),
          gscb_by_dir =
            (if tail \<noteq> []
             then by_dir @ [\<lparr>gsdc_dir = ''(other)'', gsdc_count = sum_list (map snd tail)\<rparr>]
             else by_dir)\<rparr>)"

definition status_step ::
  "GitStatusEntry \<Rightarrow> (string \<times> (string \<times> nat) list) list \<times> nat \<Rightarrow>
     (string \<times> (string \<times> nat) list) list \<times> nat" where
  "status_step entry bt =
     (let class = primary_status_class (gse_status entry)
      in if class = ''clean'' then bt
         else (bt_modify class [] (bt_modify (parent_dir_str (gse_path entry)) 0 Suc) (fst bt),
               snd bt + 1))"

definition git_status_compact :: "GitStatusEntry list \<Rightarrow> nat \<Rightarrow> GitStatusCompact" where
  "git_status_compact entries top_dirs_per_class =
     (let (by_class, total) = fold status_step entries ([], 0)
      in \<lparr>gsc_by_class =
            heaviest_first gscb_count gscb_class (map (class_bucket top_dirs_per_class) by_class),
          gsc_total = total\<rparr>)"

fun bump_hit :: "SearchHit \<Rightarrow> nat \<times> nat \<times> nat \<Rightarrow> nat \<times> nat \<times> nat" where
  "bump_hit hit (n, a, b) = (n + 1, min a (hit_line_number hit), max b (hit_line_number hit))"

definition hit_step ::
  "SearchHit \<Rightarrow> (string \<times> nat \<times> nat \<times> nat) list \<Rightarrow> (string \<times> nat \<times> nat \<times> nat) list" where
  "hit_step hit =
     bt_modify (hit_path hit) (0, hit_line_number hit, hit_line_number hit) (bump_hit hit)"

definition search_grep_compact :: "SearchHit list \<Rightarrow> SearchGrepCompact" where
  "search_grep_compact hits =
     (let buckets = map (\<lambda>(p, n, a, b).
                      \<lparr>sfb_path = p, sfb_matches = n, sfb_first_line = a, sfb_last_line = b\<rparr>)
                    (fold hit_step hits [])
      in \<lparr>sgc_buckets = buckets, sgc_total_matches = sum_list (map sfb_matches buckets)\<rparr>)"

definition fs_scan_compact :: "string list \<Rightarrow> nat \<Rightarrow> FsScanCompact" where
  "fs_scan_compact files top_dirs =
     (let by_dir = fold (\<lambda>f. bt_modify (parent_dir_str f) 0 Suc) files [];
          rows = heaviest_first fsdb_count fsdb_dir
                   (map (\<lambda>(d, c). \<lparr>fsdb_dir = d, fsdb_count = c\<rparr>) by_dir)
      in \<lparr>fscc_by_dir =
            (if length rows > top_dirs
             then take top_dirs rows @
                  [\<lparr>fsdb_dir = ''(other)'',
                    fsdb_count = sum_list (map fsdb_count (drop top_dirs rows))\<rparr>]
             else rows),
          fscc_total = length files\<rparr>)"

subsection \<open>Lemmas: counting\<close>

definition count_in :: "('a \<Rightarrow> 'k) \<Rightarrow> 'k \<Rightarrow> 'a list \<Rightarrow> nat" where
  "count_in f k xs = length (filter (\<lambda>x. f x = k) xs)"

definition keys_sorted :: "('k::linorder \<times> 'v) list \<Rightarrow> bool" where
  "keys_sorted al \<longleftrightarrow> sorted_wrt (<) (map fst al)"

lemma keys_sorted_Nil [simp]: "keys_sorted []"
  by (simp add: keys_sorted_def)

lemma keys_sorted_modify: "keys_sorted al \<Longrightarrow> keys_sorted (bt_modify k d f al)"
  unfolding keys_sorted_def by (rule sorted_bt_modify)

lemma fold_bt_modify_sorted:
  "(\<And>x al. keys_sorted al \<Longrightarrow> keys_sorted (g x al)) \<Longrightarrow> keys_sorted al \<Longrightarrow> keys_sorted (fold g xs al)"
  by (induction xs arbitrary: al) simp_all

text \<open>Folding \<open>entry(f x).or_insert(d x)\<close> over a list keeps, for each key, the fold over the
  elements with that key.\<close>

lemma map_of_fold_bt_modify:
  assumes "keys_sorted al"
  shows "map_of (fold (\<lambda>x. bt_modify (f x) (d x) (u x)) xs al) k =
     (case filter (\<lambda>x. f x = k) xs of
        [] \<Rightarrow> map_of al k
      | x # ys \<Rightarrow> Some (fold u (x # ys) (case map_of al k of Some v \<Rightarrow> v | None \<Rightarrow> d x)))"
  using assms
proof (induction xs arbitrary: al)
  case Nil
  then show ?case by simp
next
  case (Cons x xs)
  have "map_of (bt_modify (f x) (d x) (u x) al) =
      (map_of al)(f x \<mapsto> u x (case map_of al (f x) of Some v \<Rightarrow> v | None \<Rightarrow> d x))"
    using Cons.prems by (simp add: map_of_bt_modify keys_sorted_def)
  with Cons.IH [OF keys_sorted_modify [OF Cons.prems]] show ?case
    by (auto split: list.split)
qed

lemma fold_Suc [simp]: "fold (\<lambda>_. Suc) xs n = n + length xs"
  by (induction xs arbitrary: n) simp_all

lemma map_of_count_fold:
  "map_of (fold (\<lambda>x. bt_modify (f x) 0 Suc) xs []) k =
     (if count_in f k xs = 0 then None else Some (count_in f k xs))"
  using map_of_fold_bt_modify [of "[]" f "\<lambda>_. 0" "\<lambda>_. Suc" xs k]
  by (cases "filter (\<lambda>x. f x = k) xs") (simp_all add: count_in_def)

lemma sum_bt_modify_weight:
  "(\<And>v. w (f v) = Suc (w v)) \<Longrightarrow> w d = 0 \<Longrightarrow>
     sum_list (map (\<lambda>kv. w (snd kv)) (bt_modify k d f al)) =
       Suc (sum_list (map (\<lambda>kv. w (snd kv)) al))"
  by (induction al) auto

lemma sum_bt_modify: "sum_list (map snd (bt_modify k 0 Suc al)) = Suc (sum_list (map snd al))"
  using sum_bt_modify_weight [of id Suc 0 k al] by simp

lemma sum_count_fold: "sum_list (map snd (fold (\<lambda>x. bt_modify (f x) 0 Suc) xs al)) =
  length xs + sum_list (map snd al)"
  by (induction xs arbitrary: al) (simp_all add: sum_bt_modify)

lemma map_of_keys_sorted: "keys_sorted al \<Longrightarrow> (k, v) \<in> set al \<longleftrightarrow> map_of al k = Some v"
  unfolding keys_sorted_def
  by (metis map_of_eq_Some_iff strict_sorted_iff)

lemma mset_heaviest [simp]: "mset (heaviest_first c k xs) = mset xs"
  by (simp add: heaviest_first_def)

lemma set_heaviest [simp]: "set (heaviest_first c k xs) = set xs"
  by (simp add: heaviest_first_def)

lemma length_heaviest [simp]: "length (heaviest_first c k xs) = length xs"
  by (simp add: heaviest_first_def)

lemma sum_heaviest [simp]: "sum_list (map (g :: _ \<Rightarrow> nat) (heaviest_first c k xs)) = sum_list (map g xs)"
  by (metis mset_heaviest mset_map sum_mset_sum_list)

lemma sum_take_drop: "sum_list (map f (take n xs)) + sum_list (map (f :: _ \<Rightarrow> nat) (drop n xs)) =
  sum_list (map f xs)"
  by (metis append_take_drop_id map_append sum_list_append)

lemma heaviest_sorted: "sorted_wrt (\<lambda>a b. c b \<le> c a) (heaviest_first c k xs)"
proof -
  have "sorted (map (\<lambda>x. (- int (c x), k x)) (heaviest_first c k xs))"
    by (simp add: heaviest_first_def)
  then show ?thesis
    unfolding sorted_wrt_map by (rule sorted_wrt_mono_rel [rotated]) (auto simp: less_eq_prod_def)
qed

subsection \<open>Lemmas: git status\<close>

definition status_class :: "GitStatusEntry \<Rightarrow> string" where
  "status_class e = primary_status_class (gse_status e)"

definition reported :: "GitStatusEntry list \<Rightarrow> GitStatusEntry list" where
  "reported entries = filter (\<lambda>e. status_class e \<noteq> ''clean'') entries"

definition class_map :: "GitStatusEntry list \<Rightarrow> (string \<times> (string \<times> nat) list) list" where
  "class_map live =
     fold (\<lambda>e. bt_modify (status_class e) [] (bt_modify (parent_dir_str (gse_path e)) 0 Suc)) live []"

lemma fold_status_step:
  "fold status_step entries (m, n) =
     (fold (\<lambda>e. bt_modify (status_class e) [] (bt_modify (parent_dir_str (gse_path e)) 0 Suc))
        (reported entries) m, n + length (reported entries))"
  by (induction entries arbitrary: m n)
    (simp_all add: status_step_def Let_def reported_def status_class_def)

lemma class_map_sorted: "keys_sorted (class_map live)"
  unfolding class_map_def by (rule fold_bt_modify_sorted) (simp_all add: keys_sorted_modify)

lemma map_of_class_map:
  "map_of (class_map live) c =
     (case filter (\<lambda>e. status_class e = c) live of
        [] \<Rightarrow> None
      | es \<Rightarrow> Some (fold (\<lambda>e. bt_modify (parent_dir_str (gse_path e)) 0 Suc) es []))"
  unfolding class_map_def
  by (subst map_of_fold_bt_modify) (simp_all split: list.split)

lemma class_map_count:
  assumes "(c, dirs) \<in> set (class_map live)"
  shows "sum_list (map snd dirs) = count_in status_class c live"
proof -
  have "map_of (class_map live) c = Some dirs"
    using assms map_of_keys_sorted [OF class_map_sorted] by metis
  then show ?thesis
    by (auto simp: map_of_class_map count_in_def sum_count_fold split: list.splits)
qed

abbreviation class_weight :: "string \<times> (string \<times> nat) list \<Rightarrow> nat" where
  "class_weight cd \<equiv> sum_list (map snd (snd cd))"

lemma sum_class_map: "sum_list (map class_weight (class_map live)) = length live"
proof -
  have "sum_list (map class_weight
      (fold (\<lambda>e. bt_modify (status_class e) [] (bt_modify (parent_dir_str (gse_path e)) 0 Suc)) live al))
     = length live + sum_list (map class_weight al)" for al
  proof (induction live arbitrary: al)
    case (Cons e live)
    show ?case
      using Cons.IH sum_bt_modify_weight [of "\<lambda>ds. sum_list (map snd ds)"
          "bt_modify (parent_dir_str (gse_path e)) 0 Suc" "[]" "status_class e" al]
      by (simp add: sum_bt_modify)
  qed simp
  then show ?thesis by (simp add: class_map_def)
qed

lemma class_bucket_props:
  "gscb_class (class_bucket n (c, ds)) = c"
  "gscb_count (class_bucket n (c, ds)) = sum_list (map snd ds)"
  "sum_list (map gsdc_count (gscb_by_dir (class_bucket n (c, ds)))) = sum_list (map snd ds)"
  "length (gscb_by_dir (class_bucket n (c, ds))) \<le> Suc n"
proof -
  let ?s = "heaviest_first snd fst ds"
  have m: "map gsdc_count (map (\<lambda>(d, c). \<lparr>gsdc_dir = d, gsdc_count = c\<rparr>) xs) = map snd xs"
    for xs by (induction xs) auto
  show "gscb_class (class_bucket n (c, ds)) = c" by (simp add: class_bucket_def Let_def)
  show "gscb_count (class_bucket n (c, ds)) = sum_list (map snd ds)"
    by (simp add: class_bucket_def Let_def)
  show "length (gscb_by_dir (class_bucket n (c, ds))) \<le> Suc n"
    by (simp add: class_bucket_def Let_def)
  show "sum_list (map gsdc_count (gscb_by_dir (class_bucket n (c, ds)))) = sum_list (map snd ds)"
  proof (cases "length ds > n")
    case True
    then show ?thesis using sum_take_drop [of snd n ?s]
      by (simp add: class_bucket_def Let_def m del: map_map)
  next
    case False
    then show ?thesis by (simp add: class_bucket_def Let_def m del: map_map)
  qed
qed

lemma git_status_compact_eq:
  "git_status_compact entries n =
     \<lparr>gsc_by_class = heaviest_first gscb_count gscb_class
        (map (class_bucket n) (class_map (reported entries))),
      gsc_total = length (reported entries)\<rparr>"
  by (simp add: git_status_compact_def fold_status_step class_map_def)

lemma class_names: "map gscb_class (map (class_bucket n) m) = map fst m"
  by (induction m) (auto simp: class_bucket_props)

subsection \<open>Lemmas: search hits\<close>

lemma hit_fold:
  "fold bump_hit hs (m, x, y) =
     (m + length hs, Min (insert x (hit_line_number ` set hs)),
      Max (insert y (hit_line_number ` set hs)))"
proof (induction hs arbitrary: m x y)
  case (Cons h hs)
  have "Min (insert (min x z) A) = Min (insert x (insert z A))"
    "Max (insert (max y z) A) = Max (insert y (insert z A))" if "finite A" for A :: "nat set" and z
    using that by (cases "A = {}"; simp add: min.assoc max.assoc)+
  then show ?case using Cons.IH by simp
qed simp

lemma hits_map:
  "map_of (fold hit_step hits []) p =
     (let hs = filter (\<lambda>h. hit_path h = p) hits
      in if hs = [] then None
         else Some (length hs, Min (hit_line_number ` set hs), Max (hit_line_number ` set hs)))"
proof (cases "filter (\<lambda>h. hit_path h = p) hits")
  case Nil
  then show ?thesis unfolding hit_step_def [abs_def] by (simp add: map_of_fold_bt_modify)
next
  case (Cons h hs)
  have "map_of (fold hit_step hits []) p =
      Some (fold bump_hit (h # hs) (0, hit_line_number h, hit_line_number h))"
    unfolding hit_step_def [abs_def] by (simp add: map_of_fold_bt_modify Cons)
  then show ?thesis using Cons by (simp only: hit_fold) simp
qed

lemma hits_sorted: "keys_sorted (fold hit_step hits [])"
  by (rule fold_bt_modify_sorted) (simp_all add: hit_step_def keys_sorted_modify)

lemma sum_hits: "sum_list (map (\<lambda>kv. fst (snd kv)) (fold hit_step hits al)) =
  length hits + sum_list (map (\<lambda>kv. fst (snd kv)) al)"
proof (induction hits arbitrary: al)
  case (Cons h hits)
  have "fst (bump_hit h v) = Suc (fst v)" for v by (cases v) simp
  then show ?case
    using Cons.IH sum_bt_modify_weight [of fst "bump_hit h" _ "hit_path h" al]
    by (simp add: hit_step_def)
qed simp

subsection \<open>Lemmas: status strings\<close>

lemma str_contains_sublist: "str_contains p s \<longleftrightarrow> sublist p s"
  by (induction s) (auto simp: sublist_Cons_right starts_with_iff prefix_def)

lemma str_contains_comma:
  assumes "CHR '','' \<notin> set p" "p \<noteq> []"
  shows "str_contains p (a @ '','' @ b) \<longleftrightarrow> str_contains p a \<or> str_contains p b"
proof -
  have "sublist p (a @ '','' @ b) \<longleftrightarrow> sublist p a \<or> sublist p ('','' @ b)"
  proof
    assume "sublist p (a @ '','' @ b)"
    then consider "sublist p a" | "sublist p ('','' @ b)" | x y where "p = x @ y" "suffix x a"
      "prefix y ('','' @ b)"
      unfolding sublist_append by blast
    then show "sublist p a \<or> sublist p ('','' @ b)"
    proof cases
      case 3
      then have "y = []" using assms(1) by (cases y) auto
      then show ?thesis using 3 by (metis append_Nil2 suffix_imp_sublist)
    qed auto
  next
    assume "sublist p a \<or> sublist p ('','' @ b)"
    then show "sublist p (a @ '','' @ b)" unfolding sublist_append by blast
  qed
  moreover have "sublist p ('','' @ b) \<longleftrightarrow> sublist p b"
    using assms by (cases p) (auto simp: sublist_Cons_right)
  ultimately show ?thesis by (simp add: str_contains_sublist)
qed

lemma str_contains_join:
  assumes "CHR '','' \<notin> set p" "p \<noteq> []"
  shows "str_contains p (join '','' ps) \<longleftrightarrow> (\<exists>q \<in> set ps. str_contains p q)"
proof (induction "'',''" ps rule: join.induct)
  case (3 s t ss)
  then show ?case using str_contains_comma [OF assms] by simp
qed (use assms in simp_all)

lemma contains_format_status:
  assumes "CHR '','' \<notin> set p" "p \<noteq> []" "\<not> str_contains p ''clean''"
  shows "str_contains p (format_status S) \<longleftrightarrow> (\<exists>f. S f \<and> str_contains p (flag_name f))"
proof -
  have all: "f \<in> set all_flags" for f by (cases f) (simp_all add: all_flags_def)
  show ?thesis
  proof (cases "filter S all_flags = []")
    case True
    then show ?thesis using all assms(3) by (auto simp: format_status_def filter_empty_conv)
  next
    case False
    then show ?thesis
      using str_contains_join [OF assms(1,2), of "map flag_name (filter S all_flags)"] all
      by (auto simp: format_status_def Let_def)
  qed
qed

lemma ex_flag: "(\<exists>f. P f) \<longleftrightarrow>
  P INDEX_NEW \<or> P INDEX_MODIFIED \<or> P INDEX_DELETED \<or> P INDEX_RENAMED \<or> P INDEX_TYPECHANGE \<or>
  P WT_NEW \<or> P WT_MODIFIED \<or> P WT_DELETED \<or> P WT_RENAMED \<or> P WT_TYPECHANGE \<or> P IGNORED \<or>
  P CONFLICTED"
  (is "?L \<longleftrightarrow> ?R")
proof
  assume ?L
  then obtain f where "P f" ..
  then show ?R by (cases f) simp_all
qed blast

subsection \<open>Properties\<close>

text \<open>The compact \<open>git.status\<close> view always reconciles: the total is the number of entries
  that are not clean and the sum of the class counts; each class occurs once and counts
  exactly its entries; within a class the directory rows (the \<open>(other)\<close> row included) add up
  to the class count and are at most one more than the cap; heavier classes come first.\<close>

theorem git_status_compact_reconciles:
  "let r = git_status_compact entries cap; live = reported entries
   in gsc_total r = length live \<and> gsc_total r = sum_list (map gscb_count (gsc_by_class r)) \<and>
      distinct (map gscb_class (gsc_by_class r)) \<and>
      sorted_wrt (\<lambda>a b. gscb_count b \<le> gscb_count a) (gsc_by_class r) \<and>
      list_all (\<lambda>b. gscb_count b = count_in status_class (gscb_class b) live \<and>
                    gscb_count b = sum_list (map gsdc_count (gscb_by_dir b)) \<and>
                    length (gscb_by_dir b) \<le> Suc cap) (gsc_by_class r)"
proof -
  let ?m = "class_map (reported entries)"
  have "map gscb_count (map (class_bucket cap) ?m) = map class_weight ?m"
    by (auto simp: class_bucket_props)
  then have sum: "sum_list (map gscb_count (map (class_bucket cap) ?m)) = length (reported entries)"
    by (simp only: sum_class_map)
  have "distinct (map gscb_class (map (class_bucket cap) ?m))"
    unfolding class_names using class_map_sorted [of "reported entries"]
    by (simp add: keys_sorted_def strict_sorted_iff)
  then have "distinct (map gscb_class (heaviest_first gscb_count gscb_class (map (class_bucket cap) ?m)))"
    by (metis mset_heaviest mset_map mset_eq_imp_distinct_iff)
  moreover have "list_all (\<lambda>b. gscb_count b = count_in status_class (gscb_class b) (reported entries) \<and>
      gscb_count b = sum_list (map gsdc_count (gscb_by_dir b)) \<and> length (gscb_by_dir b) \<le> Suc cap)
      (heaviest_first gscb_count gscb_class (map (class_bucket cap) ?m))"
    by (auto simp: list_all_iff class_bucket_props class_map_count)
  ultimately show ?thesis
    using sum heaviest_sorted unfolding git_status_compact_eq Let_def by (simp del: map_map)
qed

text \<open>The compact \<open>search.grep\<close> view: one bucket per file that has a hit, in path order, with
  the number of its hits and the smallest and largest line number among them; the total is
  the number of hits.\<close>

theorem search_grep_compact_exact:
  "let r = search_grep_compact hits
   in sorted_wrt (<) (map sfb_path (sgc_buckets r)) \<and> sgc_total_matches r = length hits \<and>
      set (sgc_buckets r) =
        (\<lambda>p. let hs = filter (\<lambda>h. hit_path h = p) hits
              in \<lparr>sfb_path = p, sfb_matches = length hs,
                  sfb_first_line = Min (hit_line_number ` set hs),
                  sfb_last_line = Max (hit_line_number ` set hs)\<rparr>) ` (hit_path ` set hits)"
proof -
  let ?m = "fold hit_step hits []"
  let ?b = "\<lambda>(p, n, a, b). \<lparr>sfb_path = p, sfb_matches = n, sfb_first_line = a, sfb_last_line = b\<rparr>"
  have 1: "map sfb_path (map ?b al) = map fst al"
    "map sfb_matches (map ?b al) = map (\<lambda>kv. fst (snd kv)) al" for al
    by (induction al) auto
  have "sorted_wrt (<) (map sfb_path (map ?b ?m))"
    using hits_sorted unfolding 1 by (simp add: keys_sorted_def)
  moreover have "sum_list (map sfb_matches (map ?b ?m)) = length hits"
    unfolding 1 by (simp add: sum_hits)
  moreover have "set (map ?b ?m) =
        (\<lambda>p. let hs = filter (\<lambda>h. hit_path h = p) hits
              in \<lparr>sfb_path = p, sfb_matches = length hs,
                  sfb_first_line = Min (hit_line_number ` set hs),
                  sfb_last_line = Max (hit_line_number ` set hs)\<rparr>) ` (hit_path ` set hits)"
    (is "?L = ?f ` ?P")
  proof -
    define g where "g = (\<lambda>p. let hs = filter (\<lambda>h. hit_path h = p) hits
        in (length hs, Min (hit_line_number ` set hs), Max (hit_line_number ` set hs)))"
    have mem: "(p, v) \<in> set ?m \<longleftrightarrow> p \<in> ?P \<and> v = g p" for p v
      unfolding map_of_keys_sorted [OF hits_sorted] hits_map g_def
      by (auto simp: Let_def filter_empty_conv)
    have "x \<in> set ?m \<longleftrightarrow> x \<in> (\<lambda>p. (p, g p)) ` ?P" for x
      by (cases x) (use mem in blast)
    then have "set ?m = (\<lambda>p. (p, g p)) ` ?P" by blast
    then have "?L = (\<lambda>p. ?b (p, g p)) ` ?P" by (simp only: set_map image_image)
    also have "(\<lambda>p. ?b (p, g p)) = ?f" by (simp add: g_def Let_def fun_eq_iff)
    finally show ?thesis .
  qed
  ultimately show ?thesis by (simp add: search_grep_compact_def Let_def del: map_map)
qed

text \<open>The compact \<open>fs.scan\<close> view reconciles: the rows add up to the total, which is the
  number of files; there is at most one row more than the cap, and every row below the cap
  counts exactly the files whose parent directory it names.\<close>

theorem fs_scan_compact_reconciles:
  "let r = fs_scan_compact files cap
   in fscc_total r = length files \<and> sum_list (map fsdb_count (fscc_by_dir r)) = length files \<and>
      length (fscc_by_dir r) \<le> Suc cap \<and>
      list_all (\<lambda>b. fsdb_count b = count_in parent_dir_str (fsdb_dir b) files)
        (take cap (fscc_by_dir r))"
proof -
  let ?m = "fold (\<lambda>f. bt_modify (parent_dir_str f) 0 Suc) files []"
  let ?b = "\<lambda>(d, c). \<lparr>fsdb_dir = d, fsdb_count = c\<rparr>"
  let ?rows = "heaviest_first fsdb_count fsdb_dir (map ?b ?m)"
  have cnt: "map fsdb_count (map ?b al) = map snd al" for al by (induction al) auto
  have sum: "sum_list (map fsdb_count ?rows) = length files"
    unfolding sum_heaviest cnt by (simp add: sum_count_fold)
  have ks: "keys_sorted ?m" by (rule fold_bt_modify_sorted) (simp_all add: keys_sorted_modify)
  have ex: "fsdb_count b = count_in parent_dir_str (fsdb_dir b) files" if "b \<in> set ?rows" for b
    using that map_of_count_fold [of parent_dir_str files] map_of_keys_sorted [OF ks]
    by (auto split: if_splits)
  show ?thesis
  proof (cases "length ?rows > cap")
    case True
    then show ?thesis using sum sum_take_drop [of fsdb_count cap ?rows] ex
      by (auto simp: fs_scan_compact_def Let_def list_all_iff dest: in_set_takeD simp del: map_map)
  next
    case False
    then show ?thesis using sum ex
      by (auto simp: fs_scan_compact_def Let_def list_all_iff simp del: map_map dest: in_set_takeD)
  qed
qed

text \<open>On the status strings the daemon itself produces, the class is the most urgent of
  the flags: conflicted, deleted, renamed, typechange, modified, new (labelled untracked, also
  for a file that is new in the index), ignored; and clean exactly without any flag.\<close>

theorem status_class_priority:
  "primary_status_class (format_status S) =
     (if S CONFLICTED then ''conflicted''
      else if S INDEX_DELETED \<or> S WT_DELETED then ''deleted''
      else if S INDEX_RENAMED \<or> S WT_RENAMED then ''renamed''
      else if S INDEX_TYPECHANGE \<or> S WT_TYPECHANGE then ''typechange''
      else if S INDEX_MODIFIED \<or> S WT_MODIFIED then ''modified''
      else if S INDEX_NEW \<or> S WT_NEW then ''untracked''
      else if S IGNORED then ''ignored'' else ''clean'')"
  by (simp add: primary_status_class_def contains_format_status ex_flag starts_with_def)

end
