(* ===== verification/Changelog.thy ===== *)
theory Changelog
  imports Protocol
begin

text \<open>
  The bounded change log of \<^verbatim>\<open>src/crates/daemon/src/changelog.rs\<close>: a monotonic version cursor and
  a ring of the most recent events. The mutex makes every operation atomic, so an
  execution is a sequence of \<open>changelog_record\<close> calls with queries between them.

  The \<open>HashMap\<close>s of \<open>changes_since\<close> are association lists; their iteration order is
  unspecified in Rust, and \<open>changes_since_any_order\<close> shows the answer does not depend on it.

  The abstract specification is the complete, never evicted history \<open>h\<close>; \<open>retains h log\<close>
  relates it to the ring. \<open>changes_since\<close> then refines a per-path coalescing of the
  complete history, as long as the \<open>overflowed\<close> flag is not raised.
\<close>

subsection \<open>State and operations\<close>

record ChangeLog =
  cl_version :: nat
  cl_entries :: "ChangeEntry list"
  cl_overflow_high_water :: nat
  cl_capacity :: nat

definition changelog_with_capacity :: "nat \<Rightarrow> ChangeLog" where
  "changelog_with_capacity capacity =
     \<lparr>cl_version = 0, cl_entries = [], cl_overflow_high_water = 0, cl_capacity = capacity\<rparr>"

definition changelog_record :: "string \<Rightarrow> ChangeKind \<Rightarrow> ChangeLog \<Rightarrow> ChangeLog" where
  "changelog_record path kind log =
     (let version = u64_add (cl_version log) 1;
          log1 = log\<lparr>cl_version := version\<rparr>;
          log2 = (if length (cl_entries log1) = cl_capacity log1
                  then (case cl_entries log1 of
                          [] \<Rightarrow> log1
                        | evicted # rest \<Rightarrow>
                            log1\<lparr>cl_entries := rest,
                                 cl_overflow_high_water := ce_version evicted\<rparr>)
                  else log1)
      in log2\<lparr>cl_entries := cl_entries log2 @
                [\<lparr>ce_path = path, ce_kind = kind, ce_version = version\<rparr>]\<rparr>)"

definition changelog_snapshot :: "ChangeLog \<Rightarrow> nat \<times> nat" where
  "changelog_snapshot log =
     (cl_version log,
      case cl_entries log of [] \<Rightarrow> cl_version log | e # _ \<Rightarrow> ce_version e)"

fun first_last ::
  "ChangeEntry list \<Rightarrow> (string \<times> ChangeEntry) list \<Rightarrow> (string \<times> ChangeEntry) list \<Rightarrow>
     (string \<times> ChangeEntry) list \<times> (string \<times> ChangeEntry) list" where
  "first_last [] first_m last_m = (first_m, last_m)"
| "first_last (e # es) first_m last_m =
     first_last es (al_or_insert (ce_path e) e first_m) (al_upd (ce_path e) e last_m)"

definition coalesced_row ::
  "(string \<times> ChangeEntry) list \<Rightarrow> string \<times> ChangeEntry \<Rightarrow> ChangeEntry option" where
  "coalesced_row first_m row =
     (case row of (path, last_e) \<Rightarrow>
       (case map_of first_m path of
          None \<Rightarrow> None
        | Some first_e \<Rightarrow>
            if ce_kind first_e = Created \<and> ce_kind last_e = Removed then None
            else Some last_e))"

definition changes_since :: "nat \<Rightarrow> ChangeLog \<Rightarrow> nat \<times> ChangeEntry list \<times> bool" where
  "changes_since since log =
     (let current = cl_version log;
          overflowed = since < cl_overflow_high_water log;
          (first_m, last_m) = first_last (filter (\<lambda>e. since < ce_version e) (cl_entries log)) [] [];
          out = List.map_filter (coalesced_row first_m) last_m
      in (current, sort_key ce_version out, overflowed))"

subsection \<open>Specification: the complete history\<close>

text \<open>Event number \<open>i\<close> of the history carries version \<open>i + 1\<close>.\<close>

fun number_events :: "nat \<Rightarrow> (string \<times> ChangeKind) list \<Rightarrow> ChangeEntry list" where
  "number_events n [] = []"
| "number_events n ((p, k) # evs) =
     \<lparr>ce_path = p, ce_kind = k, ce_version = Suc n\<rparr> # number_events (Suc n) evs"

fun record_all :: "(string \<times> ChangeKind) list \<Rightarrow> ChangeLog \<Rightarrow> ChangeLog" where
  "record_all [] log = log"
| "record_all ((p, k) # evs) log = record_all evs (changelog_record p k log)"

definition retains :: "ChangeEntry list \<Rightarrow> ChangeLog \<Rightarrow> bool" where
  "retains h log \<longleftrightarrow>
     cl_version log = length h \<and>
     map ce_version h = map Suc [0..<length h] \<and>
     length (cl_entries log) = min (length h) (cl_capacity log) \<and>
     cl_entries log = drop (length h - cl_capacity log) h \<and>
     cl_overflow_high_water log = length h - cl_capacity log"

definition first_of :: "ChangeEntry list \<Rightarrow> string \<Rightarrow> ChangeEntry option" where
  "first_of w p = List.find (\<lambda>e. ce_path e = p) w"

definition last_of :: "ChangeEntry list \<Rightarrow> string \<Rightarrow> ChangeEntry option" where
  "last_of w p = List.find (\<lambda>e. ce_path e = p) (rev w)"

definition short_lived :: "ChangeEntry list \<Rightarrow> string \<Rightarrow> bool" where
  "short_lived w p \<longleftrightarrow>
     map_option ce_kind (first_of w p) = Some Created \<and>
     map_option ce_kind (last_of w p) = Some Removed"

text \<open>The coalesced view of a window of events: the last event of every path, in order,
  without the paths that were created and are gone again.\<close>

definition coalesce :: "ChangeEntry list \<Rightarrow> ChangeEntry list" where
  "coalesce w = filter (\<lambda>e. last_of w (ce_path e) = Some e \<and> \<not> short_lived w (ce_path e)) w"

definition events_after :: "nat \<Rightarrow> ChangeEntry list \<Rightarrow> ChangeEntry list" where
  "events_after since h = filter (\<lambda>e. since < ce_version e) h"

text \<open>What a client that tracks the set of existing files does with an event.\<close>

definition apply_change :: "ChangeEntry \<Rightarrow> string set \<Rightarrow> string set" where
  "apply_change e S =
     (case ce_kind e of
        Created \<Rightarrow> insert (ce_path e) S
      | Modified \<Rightarrow> insert (ce_path e) S
      | Removed \<Rightarrow> S - {ce_path e})"

definition fresh_creations :: "string set \<Rightarrow> ChangeEntry list \<Rightarrow> bool" where
  "fresh_creations S w \<longleftrightarrow>
     (\<forall>p. map_option ce_kind (first_of w p) = Some Created \<longrightarrow> p \<notin> S)"

subsection \<open>The ring retains a suffix of the history\<close>

lemma number_events_length [simp]: "length (number_events n evs) = length evs"
  by (induction n evs rule: number_events.induct) auto

lemma retains_versions: "retains h log \<Longrightarrow> distinct (map ce_version h)"
  unfolding retains_def by (metis distinct_map distinct_upt inj_Suc inj_on_subset top_greatest)

lemma retains_empty: "retains [] (changelog_with_capacity c)"
  by (simp add: retains_def changelog_with_capacity_def)

lemma retains_record:
  assumes "retains h log" "0 < cl_capacity log" "Suc (length h) < 2 ^ 64"
  shows "retains (h @ [\<lparr>ce_path = p, ce_kind = k, ce_version = Suc (length h)\<rparr>])
           (changelog_record p k log)"
proof (cases "length h < cl_capacity log")
  case True
  then show ?thesis using assms by (auto simp: retains_def changelog_record_def Let_def)
next
  case False
  define n where "n = length h - cl_capacity log"
  have n: "n < length h" using assms(2) False by (simp add: n_def)
  have ent: "cl_entries log = h ! n # drop (Suc n) h"
    using assms(1) n by (simp add: retains_def n_def Cons_nth_drop_Suc)
  have ver: "ce_version (h ! n) = Suc n"
  proof -
    have "map ce_version h ! n = map Suc [0..<length h] ! n"
      using assms(1) by (simp add: retains_def)
    then show ?thesis using n by simp
  qed
  have len: "length (cl_entries log) = cl_capacity log"
    and vs: "map ce_version h = map Suc [0..<length h]" "cl_version log = length h"
    using assms(1) False by (simp_all add: retains_def)
  have rec: "changelog_record p k log =
      log\<lparr>cl_version := Suc (length h),
          cl_entries := drop (Suc n) h @
            [\<lparr>ce_path = p, ce_kind = k, ce_version = Suc (length h)\<rparr>],
          cl_overflow_high_water := Suc n\<rparr>"
    using len vs assms(3) by (simp add: changelog_record_def Let_def ent ver)
  have eq: "Suc n = Suc (length h) - cl_capacity log" and "cl_capacity log \<le> length h"
    using False by (simp_all add: n_def)
  then show ?thesis
    unfolding rec retains_def using vs assms(2) by (simp add: min_def)
qed

lemma record_capacity [simp]: "cl_capacity (changelog_record p k log) = cl_capacity log"
  by (simp add: changelog_record_def Let_def split: list.splits)

lemma retains_record_all:
  "retains h log \<Longrightarrow> 0 < cl_capacity log \<Longrightarrow> length h + length evs < 2 ^ 64 \<Longrightarrow>
     retains (h @ number_events (length h) evs) (record_all evs log)"
proof (induction evs arbitrary: h log)
  case Nil
  then show ?case by simp
next
  case (Cons ev evs)
  obtain p k where ev: "ev = (p, k)" by (cases ev)
  let ?e = "\<lparr>ce_path = p, ce_kind = k, ce_version = Suc (length h)\<rparr>"
  have "retains (h @ [?e]) (changelog_record p k log)"
    using Cons.prems by (intro retains_record) simp_all
  from Cons.IH [OF this] show ?case using Cons.prems ev by simp
qed

lemma retained_window:
  assumes "retains h log" "cl_overflow_high_water log \<le> since"
  shows "filter (\<lambda>e. since < ce_version e) (cl_entries log) = events_after since h"
proof -
  define n where "n = length h - cl_capacity log"
  have "\<not> since < ce_version e" if "e \<in> set (take n h)" for e
  proof -
    from that obtain i where i: "i < n" "i < length h" "e = h ! i"
      by (auto simp: in_set_conv_nth)
    have "map ce_version h ! i = map Suc [0..<length h] ! i"
      using assms(1) by (simp add: retains_def)
    with i have "ce_version e = Suc i" by simp
    with i assms show ?thesis by (simp add: retains_def n_def)
  qed
  then have "filter (\<lambda>e. since < ce_version e) (take n h) = []" by (simp add: filter_empty_conv)
  moreover have "h = take n h @ cl_entries log" using assms(1) by (simp add: retains_def n_def)
  ultimately show ?thesis unfolding events_after_def by (metis append_Nil filter_append)
qed

subsection \<open>The two hash maps hold the first and the last event of every path\<close>

lemma first_of_Cons:
  "first_of (e # w) p = (if ce_path e = p then Some e else first_of w p)"
  by (simp add: first_of_def)

lemma find_append:
  "List.find P (xs @ ys) = (case List.find P xs of None \<Rightarrow> List.find P ys | r \<Rightarrow> r)"
  by (induction xs) auto

lemma last_of_Cons:
  "last_of (e # w) p = (case last_of w p of None \<Rightarrow> if ce_path e = p then Some e else None
                        | r \<Rightarrow> r)"
  by (simp add: last_of_def find_append split: option.splits)

lemma first_last_maps:
  "first_last w f l = (f', l') \<Longrightarrow>
     map_of f' p = (case map_of f p of None \<Rightarrow> first_of w p | r \<Rightarrow> r) \<and>
     map_of l' p = (case last_of w p of None \<Rightarrow> map_of l p | r \<Rightarrow> r)"
proof (induction w f l rule: first_last.induct)
  case (1 f l)
  then show ?case by (simp add: first_of_def last_of_def split: option.splits)
next
  case (2 e w f l)
  then show ?case
    by (auto simp: map_simps first_of_Cons last_of_Cons split: option.splits if_splits)
qed

lemma first_last_distinct:
  "first_last w f l = (f', l') \<Longrightarrow> distinct (map fst l) \<Longrightarrow> distinct (map fst l')"
  by (induction w f l rule: first_last.induct) (auto simp: distinct_al_upd)

lemma last_of_SomeD: "last_of w p = Some e \<Longrightarrow> e \<in> set w \<and> ce_path e = p"
proof (induction w)
  case Nil
  then show ?case by (simp add: last_of_def)
next
  case (Cons a w)
  then show ?case by (auto simp: last_of_Cons split: option.splits if_splits)
qed

lemma last_of_None: "last_of w p = None \<longleftrightarrow> (\<forall>e \<in> set w. ce_path e \<noteq> p)"
  by (auto simp: last_of_def find_None_iff)

lemma first_of_None: "first_of w p = None \<longleftrightarrow> (\<forall>e \<in> set w. ce_path e \<noteq> p)"
  by (auto simp: first_of_def find_None_iff)

subsection \<open>Coalescing\<close>

lemma coalesced_row_SomeD: "coalesced_row f (q, e) = Some e' \<Longrightarrow> e' = e"
  by (simp add: coalesced_row_def split: option.splits if_splits)

lemma coalesced_rows_distinct:
  "distinct (map fst l) \<Longrightarrow> \<forall>(q, e) \<in> set l. ce_path e = q \<Longrightarrow>
     distinct (map ce_path (List.map_filter (coalesced_row f) l))"
proof (induction l)
  case Nil
  then show ?case by (simp add: List.map_filter_simps)
next
  case (Cons a l)
  obtain q e where a: "a = (q, e)" by (cases a)
  have "q \<notin> ce_path ` set (List.map_filter (coalesced_row f) l)"
  proof
    assume "q \<in> ce_path ` set (List.map_filter (coalesced_row f) l)"
    then obtain q' e' where "(q', e') \<in> set l" "ce_path e' = q"
      by (auto simp: set_map_filter_iff) (metis coalesced_row_SomeD)
    with Cons.prems a show False by force
  qed
  moreover have "ce_path e = q" using Cons.prems a by simp
  ultimately show ?case
    using Cons a coalesced_row_SomeD [of f q e]
    by (simp add: List.map_filter_simps split: option.split) metis
qed

lemma window_rows:
  assumes "first_last w [] [] = (f, l)"
  shows "set (List.map_filter (coalesced_row f) l) = set (coalesce w)"
    and "distinct (map ce_path (List.map_filter (coalesced_row f) l))"
proof -
  have f: "map_of f p = first_of w p" and l: "map_of l p = last_of w p" for p
    using first_last_maps [OF assms, of p] by (simp_all split: option.splits)
  have d: "distinct (map fst l)" using first_last_distinct [OF assms] by simp
  have mem: "(p, e) \<in> set l \<longleftrightarrow> last_of w p = Some e" for p e
    using map_of_eq_Some_iff [OF d, of p e] l [of p] by simp
  have row: "coalesced_row f (p, e) = Some e' \<longleftrightarrow> e' = e \<and> \<not> short_lived w p"
    if "last_of w p = Some e" for p e e'
  proof -
    have "first_of w p \<noteq> None" using that last_of_SomeD [OF that] by (auto simp: first_of_None)
    then obtain d where "first_of w p = Some d" by blast
    then show ?thesis using that by (auto simp: coalesced_row_def f short_lived_def)
  qed
  show "set (List.map_filter (coalesced_row f) l) = set (coalesce w)"
  proof (rule set_eqI)
    fix e
    have "e \<in> set (List.map_filter (coalesced_row f) l) \<longleftrightarrow>
        (\<exists>p. last_of w p = Some e \<and> \<not> short_lived w p)"
      unfolding set_map_filter_iff using mem row by (metis surj_pair)
    also have "\<dots> \<longleftrightarrow> last_of w (ce_path e) = Some e \<and> \<not> short_lived w (ce_path e)"
      using last_of_SomeD by blast
    also have "\<dots> \<longleftrightarrow> e \<in> set (coalesce w)"
      using last_of_SomeD [of w "ce_path e" e] by (simp add: coalesce_def) blast
    finally show "e \<in> set (List.map_filter (coalesced_row f) l) \<longleftrightarrow> e \<in> set (coalesce w)" .
  qed
  have "\<forall>(q, e) \<in> set l. ce_path e = q" using mem last_of_SomeD by blast
  then show "distinct (map ce_path (List.map_filter (coalesced_row f) l))"
    by (rule coalesced_rows_distinct [OF d])
qed

lemma sorted_coalesce:
  assumes "sorted (map ce_version w)" "distinct (map ce_version w)"
  shows "sorted (map ce_version (coalesce w))" "distinct (map ce_version (coalesce w))"
  using assms by (simp_all add: coalesce_def sorted_filter distinct_map_filter)

lemma sort_window_rows:
  assumes "first_last w [] [] = (f, l)" "sorted (map ce_version w)" "distinct (map ce_version w)"
  shows "sort_key ce_version (List.map_filter (coalesced_row f) l) = coalesce w"
  using sorted_coalesce [OF assms(2,3)] window_rows [OF assms(1)]
  by (intro sort_key_unique) (simp_all add: distinct_map)

lemma retains_sorted: "retains h log \<Longrightarrow> sorted (map ce_version h)"
  by (simp add: retains_def sorted_iff_nth_mono)

lemma changes_since_eq:
  assumes "sorted (map ce_version (cl_entries log))" "distinct (map ce_version (cl_entries log))"
  shows "changes_since since log =
    (cl_version log, coalesce (events_after since (cl_entries log)),
     since < cl_overflow_high_water log)"
proof -
  let ?w = "events_after since (cl_entries log)"
  obtain f l where fl: "first_last ?w [] [] = (f, l)" by fastforce
  have "sorted (map ce_version ?w)" "distinct (map ce_version ?w)"
    using assms by (simp_all add: events_after_def sorted_filter distinct_map_filter)
  from sort_window_rows [OF fl this] show ?thesis
    using fl by (simp add: changes_since_def events_after_def)
qed

lemma retains_entries_sorted:
  assumes "retains h log"
  shows "sorted (map ce_version (cl_entries log))" "distinct (map ce_version (cl_entries log))"
proof -
  have "cl_entries log = drop (length h - cl_capacity log) h" using assms by (simp add: retains_def)
  then show "sorted (map ce_version (cl_entries log))" "distinct (map ce_version (cl_entries log))"
    using retains_sorted [OF assms] retains_versions [OF assms]
    by (simp_all add: sorted_wrt_drop flip: drop_map)
qed

lemma events_after_retained:
  assumes "retains h log" "cl_overflow_high_water log \<le> since"
  shows "events_after since (cl_entries log) = events_after since h"
  using retained_window [OF assms] by (simp add: events_after_def)

lemma record_all_retains:
  assumes "0 < c" "length evs < 2 ^ 64"
  shows "retains (number_events 0 evs) (record_all evs (changelog_with_capacity c))"
  using retains_record_all [OF retains_empty, of c evs] assms
  by (simp add: changelog_with_capacity_def)

lemma record_all_capacity [simp]: "cl_capacity (record_all evs log) = cl_capacity log"
  by (induction evs log rule: record_all.induct) simp_all

lemma last_of_coalesce:
  "last_of (coalesce w) p = (if short_lived w p then None else last_of w p)"
proof (cases "last_of w p")
  case None
  then have "last_of (coalesce w) p = None" by (auto simp: last_of_None coalesce_def)
  with None show ?thesis by simp
next
  case (Some e)
  have mem: "e' = e" if "e' \<in> set (coalesce w)" "ce_path e' = p" for e'
    using that Some by (auto simp: coalesce_def)
  show ?thesis
  proof (cases "short_lived w p")
    case True
    then have "last_of (coalesce w) p = None" by (auto simp: last_of_None coalesce_def)
    with True show ?thesis by simp
  next
    case False
    have "e \<in> set (coalesce w)" "ce_path e = p"
      using False Some last_of_SomeD [OF Some] by (auto simp: coalesce_def)
    then have "last_of (coalesce w) p \<noteq> None" by (auto simp: last_of_None)
    then show ?thesis using mem last_of_SomeD False Some by fastforce
  qed
qed

lemma fold_apply_change_mem:
  "p \<in> fold apply_change w S \<longleftrightarrow>
     (case last_of w p of None \<Rightarrow> p \<in> S | Some e \<Rightarrow> ce_kind e \<noteq> Removed)"
proof (induction w arbitrary: S)
  case Nil
  then show ?case by (simp add: last_of_def)
next
  case (Cons e w)
  have "p \<in> apply_change e S \<longleftrightarrow> (if ce_path e = p then ce_kind e \<noteq> Removed else p \<in> S)"
    by (auto simp: apply_change_def split: ChangeKind.splits)
  with Cons.IH [of "apply_change e S"] show ?case
    by (simp add: last_of_Cons split: option.splits)
qed

lemma replay_coalesce:
  assumes "fresh_creations S w"
  shows "fold apply_change (coalesce w) S = fold apply_change w S"
proof (rule set_eqI)
  fix p
  have "p \<notin> S" if "short_lived w p"
    using that assms by (simp add: short_lived_def fresh_creations_def)
  moreover have "ce_kind e = Removed" if "short_lived w p" "last_of w p = Some e" for e
    using that by (simp add: short_lived_def)
  ultimately show "p \<in> fold apply_change (coalesce w) S \<longleftrightarrow> p \<in> fold apply_change w S"
    by (auto simp: fold_apply_change_mem last_of_coalesce split: option.splits)
qed

lemma changes_since_history:
  assumes "0 < c" "length evs < 2 ^ 64" "length evs - c \<le> since"
  shows "changes_since since (record_all evs (changelog_with_capacity c)) =
    (length evs, coalesce (events_after since (number_events 0 evs)), False)"
proof -
  let ?log = "record_all evs (changelog_with_capacity c)"
  have r: "retains (number_events 0 evs) ?log" by (rule record_all_retains [OF assms(1,2)])
  then have hw: "cl_overflow_high_water ?log = length evs - c" and v: "cl_version ?log = length evs"
    by (simp_all add: retains_def changelog_with_capacity_def)
  then show ?thesis
    using changes_since_eq [OF retains_entries_sorted [OF r], of since]
      events_after_retained [OF r, of since] assms(3) by simp
qed

subsection \<open>Properties\<close>

text \<open>C1. After any sequence of fewer than \<open>2 ^ 64\<close> recorded events, a client whose cursor has
  not been overtaken by the ring gets, for every path touched since its cursor, exactly the
  last event of the complete history (and nothing for paths created and removed again), in
  version order, with \<open>overflowed\<close> unset: eviction is invisible to it.\<close>

theorem changes_since_refines_history:
  assumes "0 < c" "length evs < 2 ^ 64" "length evs - c \<le> since"
  shows "changes_since since (record_all evs (changelog_with_capacity c)) =
    (length evs, coalesce (events_after since (number_events 0 evs)), False)"
  by (rule changes_since_history [OF assms])

theorem changes_since_refines_history_witness:
  "changes_since 1 (record_all [(''a'', Created), (''b'', Created), (''b'', Removed), (''a'', Modified)]
      (changelog_with_capacity 3)) =
    (4, [\<lparr>ce_path = ''a'', ce_kind = Modified, ce_version = 4\<rparr>], False)"
  using changes_since_refines_history [of 3
      "[(''a'', Created), (''b'', Created), (''b'', Removed), (''a'', Modified)]" 1]
  by (simp add: coalesce_def events_after_def last_of_def short_lived_def first_of_def)

text \<open>The \<open>overflowed\<close> flag is exact: it is raised if and only if an event newer than the
  client's cursor has been evicted from the ring.\<close>

theorem overflowed_iff_event_lost:
  assumes "0 < c" "length evs < 2 ^ 64"
  shows "snd (snd (changes_since since (record_all evs (changelog_with_capacity c)))) \<longleftrightarrow>
    (\<exists>e \<in> set (number_events 0 evs). since < ce_version e \<and>
       e \<notin> set (cl_entries (record_all evs (changelog_with_capacity c))))"
proof -
  define h where "h = number_events 0 evs"
  define log where "log = record_all evs (changelog_with_capacity c)"
  have r: "retains h log" unfolding h_def log_def by (rule record_all_retains [OF assms])
  have ver: "ce_version (h ! i) = Suc i" if "i < length h" for i
  proof -
    have "map ce_version h ! i = map Suc [0..<length h] ! i" using r by (simp add: retains_def)
    then show ?thesis using that by simp
  qed
  define n where "n = cl_overflow_high_water log"
  have n: "cl_entries log = drop n h" "n \<le> length h" using r by (simp_all add: retains_def n_def)
  have d: "distinct h" using retains_versions [OF r] by (simp add: distinct_map)
  have lost: "e \<in> set h \<and> e \<notin> set (drop n h) \<longleftrightarrow> (\<exists>i < n. e = h ! i)" for e
  proof -
    have "set h = set (take n h) \<union> set (drop n h)" by (metis append_take_drop_id set_append)
    moreover have "set (take n h) \<inter> set (drop n h) = {}"
      by (rule set_take_disj_set_drop_if_distinct [OF d]) simp
    ultimately have "e \<in> set h \<and> e \<notin> set (drop n h) \<longleftrightarrow> e \<in> set (take n h)" by blast
    then show ?thesis using n(2) by (auto simp: in_set_conv_nth)
  qed
  have "(\<exists>e \<in> set h. since < ce_version e \<and> e \<notin> set (drop n h)) \<longleftrightarrow> since < n"
  proof
    assume "\<exists>e \<in> set h. since < ce_version e \<and> e \<notin> set (drop n h)"
    then obtain e where e: "e \<in> set h" "since < ce_version e" "e \<notin> set (drop n h)" by blast
    with lost [of e] obtain i where "i < n" "e = h ! i" by auto
    with e(2) ver [of i] n(2) show "since < n" by simp
  next
    assume "since < n"
    then have i: "n - 1 < n" "since < ce_version (h ! (n - 1))" using ver [of "n - 1"] n(2) by auto
    from i(1) lost [of "h ! (n - 1)"] have "h ! (n - 1) \<in> set h \<and> h ! (n - 1) \<notin> set (drop n h)"
      by blast
    with i(2) show "\<exists>e \<in> set h. since < ce_version e \<and> e \<notin> set (drop n h)" by blast
  qed
  then show ?thesis
    unfolding h_def [symmetric] log_def [symmetric]
    using changes_since_eq [OF retains_entries_sorted [OF r], of since] n(1) by (simp add: n_def)
qed

theorem overflowed_iff_event_lost_witness:
  "snd (snd (changes_since 0 (record_all [(''a'', Created), (''b'', Created)]
      (changelog_with_capacity 1))))"
proof -
  let ?evs = "[(''a'', Created), (''b'', Created)]"
  have "cl_entries (record_all ?evs (changelog_with_capacity 1)) =
      [\<lparr>ce_path = ''b'', ce_kind = Created, ce_version = 2\<rparr>]"
    by (simp add: changelog_with_capacity_def changelog_record_def Let_def)
  then show ?thesis using overflowed_iff_event_lost [of 1 ?evs 0] by simp
qed

text \<open>Replaying the coalesced answer is as good as replaying every event: a client that
  holds the set \<open>S\<close> of files at its cursor and applies the changes it is given ends with the
  same set of files as one that saw every single event, provided a path whose first event
  in the window is a creation was not in \<open>S\<close>.\<close>

theorem replay_changes_since:
  assumes "0 < c" "length evs < 2 ^ 64" "length evs - c \<le> since"
    and "fresh_creations S (events_after since (number_events 0 evs))"
    and "changes_since since (record_all evs (changelog_with_capacity c)) = (v, changes, ov)"
  shows "fold apply_change changes S = fold apply_change (events_after since (number_events 0 evs)) S"
proof -
  let ?log = "record_all evs (changelog_with_capacity c)"
  have r: "retains (number_events 0 evs) ?log" by (rule record_all_retains [OF assms(1,2)])
  then have "cl_overflow_high_water ?log \<le> since"
    using assms(3) by (simp add: retains_def changelog_with_capacity_def)
  then have "changes = coalesce (events_after since (number_events 0 evs))"
    using changes_since_eq [OF retains_entries_sorted [OF r], of since]
      events_after_retained [OF r, of since] assms(5) by simp
  then show ?thesis using replay_coalesce [OF assms(4)] by simp
qed

theorem replay_changes_since_witness:
  "fold apply_change [\<lparr>ce_path = ''a'', ce_kind = Removed, ce_version = 4\<rparr>] {''a'', ''c''} =
   fold apply_change (events_after 1 (number_events 0
     [(''a'', Created), (''b'', Created), (''b'', Removed), (''a'', Removed)])) {''a'', ''c''}"
proof (rule replay_changes_since [of 3 "[(''a'', Created), (''b'', Created), (''b'', Removed),
      (''a'', Removed)]" 1 _ 4 _ False])
  show "fresh_creations {''a'', ''c''} (events_after 1 (number_events 0
     [(''a'', Created), (''b'', Created), (''b'', Removed), (''a'', Removed)]))"
    by (auto simp: fresh_creations_def events_after_def first_of_def)
qed (simp_all add: changes_since_def changelog_with_capacity_def changelog_record_def Let_def
    al_or_insert_def List.map_filter_simps coalesced_row_def)

text \<open>The answer of \<open>changes_since\<close> does not depend on the iteration order of the hash
  map: any permutation of its rows gives the same list.\<close>

theorem changes_since_any_order:
  assumes "0 < c" "length evs < 2 ^ 64"
    and "first_last (events_after since (cl_entries (record_all evs (changelog_with_capacity c))))
           [] [] = (f, l)"
    and "mset l' = mset l"
  shows "fst (snd (changes_since since (record_all evs (changelog_with_capacity c)))) =
    sort_key ce_version (List.map_filter (coalesced_row f) l')"
proof -
  let ?log = "record_all evs (changelog_with_capacity c)"
  have r: "retains (number_events 0 evs) ?log" by (rule record_all_retains [OF assms(1,2)])
  have w: "sorted (map ce_version (events_after since (cl_entries ?log)))"
    "distinct (map ce_version (events_after since (cl_entries ?log)))"
    using retains_entries_sorted [OF r]
    by (simp_all add: events_after_def sorted_filter distinct_map_filter)
  have rows: "set (List.map_filter (coalesced_row f) l) =
      set (coalesce (events_after since (cl_entries ?log)))"
    and dp: "distinct (map ce_path (List.map_filter (coalesced_row f) l))"
    using window_rows [OF assms(3)] by simp_all
  have "distinct (map ce_version (List.map_filter (coalesced_row f) l))"
    using rows dp sorted_coalesce [OF w] by (simp add: distinct_map)
  from sort_key_perm_unique [OF mset_map_filter_perm [OF assms(4)] this]
  show ?thesis
    using sort_window_rows [OF assms(3) w] changes_since_eq [OF retains_entries_sorted [OF r]]
    by simp
qed

theorem changes_since_any_order_witness:
  "fst (snd (changes_since 0 (record_all [(''a'', Created), (''b'', Modified)]
      (changelog_with_capacity 4)))) =
    [\<lparr>ce_path = ''a'', ce_kind = Created, ce_version = 1\<rparr>,
     \<lparr>ce_path = ''b'', ce_kind = Modified, ce_version = 2\<rparr>]"
proof -
  let ?a = "\<lparr>ce_path = ''a'', ce_kind = Created, ce_version = 1\<rparr>"
  let ?b = "\<lparr>ce_path = ''b'', ce_kind = Modified, ce_version = 2\<rparr>"
  let ?m = "[(''a'', ?a), (''b'', ?b)]"
  have fl: "first_last (events_after 0 (cl_entries (record_all [(''a'', Created), (''b'', Modified)]
      (changelog_with_capacity 4)))) [] [] = (?m, ?m)"
    by (simp add: events_after_def changelog_with_capacity_def changelog_record_def Let_def
        al_or_insert_def)
  show ?thesis
    using changes_since_any_order [OF _ _ fl, of "rev ?m"]
    by (simp add: List.map_filter_simps coalesced_row_def)
qed

end
