(* ===== verification/Paths.thy ===== *)
theory Paths
  imports Rust_Str
begin

text \<open>
  The socket path of a project, \<^verbatim>\<open>src/crates/protocol/src/paths.rs\<close>: bridge and daemon derive it
  independently from the canonical root. A path is the list of its bytes; the environment is
  a record of the three variables the source reads. \<open>ensure_socket_parent\<close> is in \<open>Startup\<close>.
\<close>

unbundle bit_operations_syntax

subsection \<open>Definitions\<close>

record Env =
  env_XDG_RUNTIME_DIR :: "string option"
  env_USER :: "string option"
  env_LOGNAME :: "string option"

definition fnv1a_step :: "64 word \<Rightarrow> char \<Rightarrow> 64 word" where
  "fnv1a_step h b = (h XOR word_of_nat (byte b)) * 0x100000001b3"

definition fnv1a_64 :: "string \<Rightarrow> 64 word" where
  "fnv1a_64 bytes = foldl fnv1a_step 0xcbf29ce484222325 bytes"

text \<open>The format \<open>{:016x}\<close>.\<close>

definition hex16 :: "64 word \<Rightarrow> string" where
  "hex16 h = map (\<lambda>i. hex_digit (unat h div 16 ^ i mod 16)) (rev [0..<16])"

definition hash_path :: "string \<Rightarrow> string" where
  "hash_path path = hex16 (fnv1a_64 (from_utf8_lossy path))"

definition is_absolute :: "string \<Rightarrow> bool" where
  "is_absolute p \<longleftrightarrow> starts_with ''/'' p"

definition path_join :: "string \<Rightarrow> string \<Rightarrow> string" where
  "path_join p q =
     (if is_absolute q then q
      else if p = [] \<or> ends_with ''/'' p then p @ q
      else p @ ''/'' @ q)"

definition xdg_runtime_dir :: "Env \<Rightarrow> string option" where
  "xdg_runtime_dir env =
     (case env_XDG_RUNTIME_DIR env of
        None \<Rightarrow> None
      | Some v \<Rightarrow> if v = [] then None else if is_absolute v then Some v else None)"

text \<open>\<open>std::env::var\<close> fails on an unset and on a non-Unicode variable alike.\<close>

definition env_var :: "string option \<Rightarrow> string option" where
  "env_var v = (case v of Some s \<Rightarrow> if valid_utf8 s then Some s else None | None \<Rightarrow> None)"

definition current_user :: "Env \<Rightarrow> string" where
  "current_user env =
     (case env_var (env_USER env) of
        Some u \<Rightarrow> u
      | None \<Rightarrow> (case env_var (env_LOGNAME env) of Some u \<Rightarrow> u | None \<Rightarrow> ''unknown''))"

definition socket_path_for_in :: "Env \<Rightarrow> string \<Rightarrow> string option \<Rightarrow> string" where
  "socket_path_for_in env canonical_root runtime_dir =
     (let hash = hash_path canonical_root; file = hash @ ''.sock''
      in case runtime_dir of
           Some dir \<Rightarrow> path_join (path_join dir ''mcp-cli'') file
         | None \<Rightarrow>
             (let user = current_user env;
                  file = ''mcp-cli-'' @ user @ ''-'' @ hash @ ''.sock''
              in path_join ''/tmp'' file))"

definition socket_path_for :: "Env \<Rightarrow> string \<Rightarrow> string" where
  "socket_path_for env canonical_root =
     socket_path_for_in env canonical_root (xdg_runtime_dir env)"

subsection \<open>Lemmas: digits\<close>

lemma digits_determine:
  assumes "\<And>i. i < n \<Longrightarrow> (a::nat) div b ^ i mod b = c div b ^ i mod b"
  shows "a mod b ^ n = c mod b ^ n"
  using assms
proof (induction n)
  case 0
  then show ?case by simp
next
  case (Suc n)
  have step: "x mod b ^ Suc n = b ^ n * (x div b ^ n mod b) + x mod b ^ n" for x
    using mod_mult2_eq' [of x "b ^ n" b] by (simp add: mult.commute)
  have "a mod b ^ n = c mod b ^ n" using Suc.IH Suc.prems by simp
  moreover have "a div b ^ n mod b = c div b ^ n mod b" using Suc.prems by simp
  ultimately show ?case unfolding step by simp
qed

lemma byte_hex_digit: "d < 16 \<Longrightarrow> byte (hex_digit d) = (if d < 10 then 48 + d else 87 + d)"
  by (simp add: hex_digit_def byte_def)

lemma hex_digit_inj: "d < 16 \<Longrightarrow> e < 16 \<Longrightarrow> hex_digit d = hex_digit e \<Longrightarrow> d = e"
proof -
  assume d: "d < 16" "e < 16" "hex_digit d = hex_digit e"
  then have "(if d < 10 then 48 + d else 87 + d) = (if e < 10 then 48 + e else 87 + e)"
    by (metis byte_hex_digit)
  then show "d = e" by (simp split: if_splits)
qed

lemma length_hex16 [simp]: "length (hex16 h) = 16"
  by (simp add: hex16_def)

lemma hex16_inj: "hex16 g = hex16 h \<Longrightarrow> g = h"
proof -
  assume eq: "hex16 g = hex16 h"
  have "unat g div 16 ^ i mod 16 = unat h div 16 ^ i mod 16" if "i < 16" for i
  proof -
    have "i \<in> set (rev [0..<16])" using that by simp
    with eq have "hex_digit (unat g div 16 ^ i mod 16) = hex_digit (unat h div 16 ^ i mod 16)"
      unfolding hex16_def map_eq_conv by blast
    then show ?thesis by (rule hex_digit_inj [rotated 2]) simp_all
  qed
  then have "unat g mod 16 ^ 16 = unat h mod 16 ^ 16" by (rule digits_determine)
  moreover have "unat x mod 16 ^ 16 = unat x" for x :: "64 word"
    using unsigned_less [where 'a = nat, of x] by simp
  ultimately show ?thesis by (simp add: word_unat_eq_iff)
qed

lemma hex_digit_not_slash: "d < 16 \<Longrightarrow> hex_digit d \<noteq> CHR ''/''"
proof
  assume d: "d < 16" "hex_digit d = CHR ''/''"
  then have "byte (CHR ''/'') = (if d < 10 then 48 + d else 87 + d)" by (metis byte_hex_digit)
  then show False by (simp add: byte_def split: if_splits)
qed

subsection \<open>Lemmas: the hash\<close>

lemma fnv_prime_inverse: "(0x100000001b3 :: 64 word) * 0xce965057aff6957b = 1"
  by simp

lemma fnv1a_step_inj_state: "fnv1a_step g b = fnv1a_step h b \<Longrightarrow> g = h"
proof -
  assume "fnv1a_step g b = fnv1a_step h b"
  then have "fnv1a_step g b * 0xce965057aff6957b = fnv1a_step h b * 0xce965057aff6957b" by simp
  then have "(g XOR word_of_nat (byte b)) = (h XOR word_of_nat (byte b))"
    unfolding fnv1a_step_def mult.assoc fnv_prime_inverse by simp
  then have "(g XOR word_of_nat (byte b)) XOR word_of_nat (byte b) =
    (h XOR word_of_nat (byte b)) XOR word_of_nat (byte b)" by simp
  then show "g = h" by (simp add: xor.assoc)
qed

lemma byte_lt [simp]: "byte c < 256"
  unfolding byte_def by (rule nat_of_char_less_256)

lemma word_of_byte_inj: "(word_of_nat (byte a) :: 64 word) = word_of_nat (byte b) \<Longrightarrow> a = b"
proof -
  assume eq: "(word_of_nat (byte a) :: 64 word) = word_of_nat (byte b)"
  have "byte c < 2 ^ 64" for c by (rule less_trans [OF byte_lt]) simp
  then have "byte a = byte b"
    using arg_cong [OF eq, of unat] by (simp add: unat_of_nat)
  then show "a = b" by (simp add: byte_def)
qed

lemma fnv1a_step_inj_byte: "fnv1a_step h a = fnv1a_step h b \<Longrightarrow> a = b"
proof -
  assume "fnv1a_step h a = fnv1a_step h b"
  then have "fnv1a_step h a * 0xce965057aff6957b = fnv1a_step h b * 0xce965057aff6957b" by simp
  then have "(h XOR word_of_nat (byte a)) = (h XOR word_of_nat (byte b))"
    unfolding fnv1a_step_def mult.assoc fnv_prime_inverse by simp
  then have "h XOR (h XOR word_of_nat (byte a)) = h XOR (h XOR word_of_nat (byte b))" by simp
  then show "a = b" unfolding xor.assoc [symmetric] by (simp add: word_of_byte_inj)
qed

lemma foldl_fnv_inj: "foldl fnv1a_step g s = foldl fnv1a_step h s \<Longrightarrow> g = h"
  by (induction s arbitrary: g h) (auto dest: fnv1a_step_inj_state)

lemma fnv1a_64_one_byte:
  "fnv1a_64 (p @ a # s) = fnv1a_64 (p @ b # s) \<Longrightarrow> a = b"
  by (auto simp: fnv1a_64_def dest!: foldl_fnv_inj fnv1a_step_inj_byte)

lemma is_absolute_append: "p \<noteq> [] \<Longrightarrow> is_absolute (p @ q) \<longleftrightarrow> is_absolute p"
  by (cases p) (simp_all add: is_absolute_def starts_with_def)

lemma hash_path_not_absolute: "\<not> is_absolute (hash_path r @ s)"
proof -
  have "hd (hash_path r) = hex_digit (unat (fnv1a_64 (from_utf8_lossy r)) div 16 ^ 15 mod 16)"
    by (simp add: hash_path_def hex16_def upt_rec [of _ 16])
  then have "hd (hash_path r) \<noteq> CHR ''/''" by (simp add: hex_digit_not_slash)
  moreover have "hash_path r \<noteq> []" by (simp add: hash_path_def hex16_def)
  ultimately show ?thesis
    by (cases "hash_path r") (auto simp: is_absolute_def starts_with_def)
qed

lemma path_join_inj:
  "path_join p q = path_join p q' \<longleftrightarrow> q = q'" if "\<not> is_absolute q" "\<not> is_absolute q'"
  using that by (simp add: path_join_def)

lemma tmp_file_not_absolute: "\<not> is_absolute (''mcp-cli-'' @ f)"
  by (simp add: is_absolute_def starts_with_def)

lemma socket_path_eq_iff:
  "socket_path_for env r = socket_path_for env r' \<longleftrightarrow>
     fnv1a_64 (from_utf8_lossy r) = fnv1a_64 (from_utf8_lossy r')"
proof -
  have "hash_path r = hash_path r' \<longleftrightarrow>
      fnv1a_64 (from_utf8_lossy r) = fnv1a_64 (from_utf8_lossy r')"
    by (auto simp: hash_path_def dest: hex16_inj)
  moreover have "socket_path_for env r = socket_path_for env r' \<longleftrightarrow> hash_path r = hash_path r'"
    by (cases "xdg_runtime_dir env")
      (simp_all add: socket_path_for_def socket_path_for_in_def Let_def
        path_join_inj [OF tmp_file_not_absolute tmp_file_not_absolute]
        path_join_inj [OF hash_path_not_absolute hash_path_not_absolute] del: append_Cons)
  ultimately show ?thesis by simp
qed

subsection \<open>Properties\<close>

text \<open>Under one environment two roots share a socket exactly when the hashes of their paths
  collide: no other part of the path loses information, whatever the runtime directory or the
  user name is.\<close>

theorem socket_path_collision:
  "socket_path_for env r = socket_path_for env r' \<longleftrightarrow>
     fnv1a_64 (from_utf8_lossy r) = fnv1a_64 (from_utf8_lossy r')"
  by (rule socket_path_eq_iff)

text \<open>Two project roots that differ in a single byte never share a socket: the
  multiplier of the hash is invertible modulo \<open>2\<^sup>6\<^sup>4\<close>, so a difference in one byte
  survives to the end.\<close>

theorem near_roots_have_distinct_sockets:
  assumes "valid_utf8 (p @ a # s)" "valid_utf8 (p @ b # s)" "a \<noteq> b"
  shows "socket_path_for env (p @ a # s) \<noteq> socket_path_for env (p @ b # s)"
  using fnv1a_64_one_byte [of p a s b] assms
  by (auto simp: socket_path_eq_iff from_utf8_lossy_valid)

theorem near_roots_have_distinct_sockets_witness:
  "socket_path_for \<lparr>env_XDG_RUNTIME_DIR = None, env_USER = Some ''me'', env_LOGNAME = None\<rparr>
     (''/w/'' @ CHR ''a'' # []) \<noteq>
   socket_path_for \<lparr>env_XDG_RUNTIME_DIR = None, env_USER = Some ''me'', env_LOGNAME = None\<rparr>
     (''/w/'' @ CHR ''b'' # [])"
  by (rule near_roots_have_distinct_sockets; (rule valid_utf8_ascii)?) (simp_all add: byte_def)

text \<open>The fallback path is 35 bytes plus the user name, so it stays within macOS's 104-byte
  \<open>sun_path\<close> (103 bytes and a terminator) exactly for user names of up to 68 bytes.\<close>

theorem fallback_socket_length:
  "xdg_runtime_dir env = None \<Longrightarrow>
     length (socket_path_for env r) = 35 + length (current_user env) \<and>
     (length (socket_path_for env r) < 104 \<longleftrightarrow> length (current_user env) \<le> 68)"
  by (auto simp: socket_path_for_def socket_path_for_in_def Let_def path_join_def hash_path_def
      ends_with_def is_absolute_def starts_with_def)

theorem fallback_socket_length_witness:
  "length (socket_path_for
     \<lparr>env_XDG_RUNTIME_DIR = None, env_USER = None, env_LOGNAME = None\<rparr> ''/w'') = 42"
  using fallback_socket_length
    [of "\<lparr>env_XDG_RUNTIME_DIR = None, env_USER = None, env_LOGNAME = None\<rparr>" "''/w''"]
  by (simp add: xdg_runtime_dir_def current_user_def env_var_def)

end
