(* ===== verification/Patch.thy ===== *)
theory Patch
  imports Protocol Rust_Str
begin

text \<open>
  Unified patches, \<open>apply_unified_patch\<close> and \<open>parse_hunk_header\<close> of \<^verbatim>\<open>src/crates/daemon/src/handlers.rs\<close>.
  The loop over an index into the patch lines is a recursion over the lines that are left.

  The abstract view of a patch is an edit script: segments of kept lines followed by edits,
  then an untouched tail. Applying the text of a script is shown to apply the script
  (completeness), and every success of the code is shown to come from a script read off the
  patch (soundness).
\<close>

subsection \<open>The code\<close>

definition patch_err :: "string \<Rightarrow> RpcError" where
  "patch_err m = rpc_error (-32084) m"

definition parse_hunk_header :: "string \<Rightarrow> (nat \<times> nat) rpc" where
  "parse_hunk_header header =
     (case find (starts_with ''-'') (split_whitespace header) of
        None \<Rightarrow> Err (patch_err ''invalid patch hunk header'')
      | Some old \<Rightarrow>
          (let parts = split_on (CHR '','') (dropWhile (\<lambda>c. c = CHR ''-'') old)
           in case parse_usize (hd parts) of
                None \<Rightarrow> Err (patch_err ''invalid patch old start'')
              | Some start \<Rightarrow>
                  Ok (start,
                      case tl parts of
                        [] \<Rightarrow> 1
                      | c # _ \<Rightarrow> (case parse_usize c of Some n \<Rightarrow> n | None \<Rightarrow> 1))))"

text \<open>What the inner loop does with a line of the patch, in the order of its tests.\<close>

datatype hunk_line =
  Stop | Skip | Split_Panic | Context string | Removal string | Addition string | Invalid

definition classify :: "string \<Rightarrow> hunk_line" where
  "classify l =
     (if starts_with ''@@ '' l then Stop
      else if starts_with ''--- '' l \<or> starts_with ''+++ '' l then Stop
      else if starts_with (CHR 0x5C # '' No newline at end of file'') l then Skip
      else if \<not> is_char_boundary l 1 then Split_Panic
      else if take 1 l = '' '' then Context (drop 1 l)
      else if take 1 l = ''-'' then Removal (drop 1 l)
      else if take 1 l = ''+'' then Addition (drop 1 l)
      else Invalid)"

text \<open>The inner loop: the patch lines left, the position in the original and the output.\<close>

fun hunk_body ::
  "string list \<Rightarrow> string list \<Rightarrow> nat \<Rightarrow> string \<Rightarrow> (string list \<times> nat \<times> string) rpc" where
  "hunk_body original [] i out = Ok ([], i, out)"
| "hunk_body original (l # ls) i out =
     (case classify l of
        Stop \<Rightarrow> Ok (l # ls, i, out)
      | Skip \<Rightarrow> hunk_body original ls i out
      | Split_Panic \<Rightarrow> Panic ''split_at: not a char boundary''
      | Context content \<Rightarrow>
          if length original \<le> i then Err (patch_err ''patch context extends beyond file'')
          else if original ! i \<noteq> content then Err (patch_err ''patch context mismatch'')
          else hunk_body original ls (i + 1) (out @ original ! i)
      | Removal content \<Rightarrow>
          if length original \<le> i then Err (patch_err ''patch removal extends beyond file'')
          else if original ! i \<noteq> content then Err (patch_err ''patch removal mismatch'')
          else hunk_body original ls (i + 1) out
      | Addition content \<Rightarrow> hunk_body original ls i (out @ content)
      | Invalid \<Rightarrow> Err (patch_err ''invalid patch hunk line''))"

lemma hunk_body_shorter: "hunk_body original ls i out = Ok (rest, j, out') \<Longrightarrow> length rest \<le> length ls"
proof (induction ls arbitrary: i out)
  case (Cons l ls)
  show ?case
  proof (cases "classify l")
    case Stop
    then show ?thesis using Cons.prems by auto
  qed (use Cons in \<open>auto split: if_splits dest: Cons.IH intro: le_SucI\<close>)
qed simp

function apply_hunks ::
  "string list \<Rightarrow> string list \<Rightarrow> nat \<Rightarrow> string \<Rightarrow> bool \<Rightarrow> string rpc" where
  "apply_hunks original [] i out saw_hunk =
     (if \<not> saw_hunk then Err (patch_err ''patch contains no hunks'')
      else Ok (out @ concat (drop i original)))"
| "apply_hunks original (l # ls) i out saw_hunk =
     (if \<not> starts_with ''@@ '' l then apply_hunks original ls i out saw_hunk
      else case parse_hunk_header l of
        Err e \<Rightarrow> Err e
      | Panic m \<Rightarrow> Panic m
      | Ok (old_start, _) \<Rightarrow>
          (let hunk_start = old_start - 1
           in if hunk_start < i \<or> length original < hunk_start
              then Err (patch_err ''patch hunk starts outside file'')
              else case hunk_body original ls hunk_start
                          (out @ concat (take (hunk_start - i) (drop i original))) of
                     Err e \<Rightarrow> Err e
                   | Panic m \<Rightarrow> Panic m
                   | Ok (rest, j, out') \<Rightarrow> apply_hunks original rest j out' True))"
  by pat_completeness auto
termination
  by (relation "measure (\<lambda>(_, ls, _). length ls)") (auto dest: hunk_body_shorter)

declare apply_hunks.simps(2) [simp del]

definition apply_unified_patch :: "string \<Rightarrow> string \<Rightarrow> string rpc" where
  "apply_unified_patch original patch =
     apply_hunks (split_inclusive nl original) (split_inclusive nl patch) 0 [] False"

subsection \<open>Edit scripts\<close>

datatype edit = Ctx string | Del string | Add string

fun old_side :: "edit list \<Rightarrow> string list" where
  "old_side [] = []"
| "old_side (Ctx l # es) = l # old_side es"
| "old_side (Del l # es) = l # old_side es"
| "old_side (Add l # es) = old_side es"

fun new_side :: "edit list \<Rightarrow> string list" where
  "new_side [] = []"
| "new_side (Ctx l # es) = l # new_side es"
| "new_side (Del l # es) = new_side es"
| "new_side (Add l # es) = l # new_side es"

fun edit_line :: "edit \<Rightarrow> string" where
  "edit_line (Ctx l) = CHR '' '' # l"
| "edit_line (Del l) = CHR ''-'' # l"
| "edit_line (Add l) = CHR ''+'' # l"

type_synonym segment = "string list \<times> edit list"

definition old_lines :: "segment list \<Rightarrow> string list" where
  "old_lines segs = concat (map (\<lambda>(kept, es). kept @ old_side es) segs)"

definition new_lines :: "segment list \<Rightarrow> string list" where
  "new_lines segs = concat (map (\<lambda>(kept, es). kept @ new_side es) segs)"

text \<open>The text of a script, as diff tools print it: a header with the one-based number of the
  first old line of the segment (of the line before it, if the segment has no old line), then
  the edits. \<open>i\<close> and \<open>j\<close> are the old and new lines before the segment.\<close>

definition hunk_pos :: "nat \<Rightarrow> nat \<Rightarrow> nat" where
  "hunk_pos a n = (if n = 0 then a else a + 1)"

definition hunk_header :: "nat \<Rightarrow> nat \<Rightarrow> nat \<Rightarrow> nat \<Rightarrow> string" where
  "hunk_header a b c d =
     ''@@ -'' @ dec_of_nat a @ '','' @ dec_of_nat b @ '' +'' @ dec_of_nat c @ '','' @ dec_of_nat d @
     '' @@'' @ [nl]"

fun render :: "nat \<Rightarrow> nat \<Rightarrow> segment list \<Rightarrow> string list" where
  "render i j [] = []"
| "render i j ((kept, es) # segs) =
     (let a = i + length kept; c = j + length kept
      in hunk_header (hunk_pos a (length (old_side es))) (length (old_side es))
           (hunk_pos c (length (new_side es))) (length (new_side es)) #
         map edit_line es @ render (a + length (old_side es)) (c + length (new_side es)) segs)"

text \<open>Every segment has an old line to hold on to, except at the very top of the file.\<close>

fun anchored :: "nat \<Rightarrow> segment list \<Rightarrow> bool" where
  "anchored i [] \<longleftrightarrow> True"
| "anchored i ((kept, es) # segs) \<longleftrightarrow>
     (old_side es \<noteq> [] \<or> i + length kept = 0) \<and>
     anchored (i + length kept + length (old_side es)) segs"

text \<open>Full lines; edits whose text the code does not take for a file header.\<close>

definition full_line :: "string \<Rightarrow> bool" where
  "full_line l \<longleftrightarrow> l \<noteq> [] \<and> last l = nl \<and> nl \<notin> set (butlast l) \<and> \<not> is_cont (byte (hd l))"

fun plain_edit :: "edit \<Rightarrow> bool" where
  "plain_edit (Ctx l) \<longleftrightarrow> full_line l"
| "plain_edit (Del l) \<longleftrightarrow> full_line l \<and> \<not> starts_with ''-- '' l"
| "plain_edit (Add l) \<longleftrightarrow> full_line l \<and> \<not> starts_with ''++ '' l"

definition valid_script :: "segment list \<Rightarrow> bool" where
  "valid_script segs \<longleftrightarrow>
     segs \<noteq> [] \<and> anchored 0 segs \<and> length (old_lines segs) < usize_max \<and>
     (\<forall>(kept, es) \<in> set segs.
        (\<forall>l \<in> set kept. full_line l) \<and> (\<forall>e \<in> set es. plain_edit e))"

subsection \<open>Lemmas: decimal numbers\<close>

lemma is_digit_char: "(d::nat) < 10 \<Longrightarrow> is_ascii_digit (char_of (48 + d))"
  by (simp add: is_ascii_digit_def byte_def)

lemma dec_of_nat_digits: "list_all is_ascii_digit (dec_of_nat n)"
proof (induction n rule: dec_of_nat.induct)
  case (1 n)
  then show ?case
    by (cases "n < 10") (simp_all add: dec_of_nat.simps [of n] is_digit_char)
qed

lemma dec_of_nat_nonempty: "dec_of_nat n \<noteq> []"
  by (simp add: dec_of_nat.simps [of n])

lemma digits_value_snoc: "digits_value (ds @ [c]) = digits_value ds * 10 + (byte c - 48)"
  by (simp add: digits_value_def)

lemma byte_digit: "(d::nat) < 10 \<Longrightarrow> byte (char_of (48 + d)) - 48 = d"
  by (simp add: byte_def)

lemma digits_value_dec_of_nat: "digits_value (dec_of_nat n) = n"
proof (induction n rule: dec_of_nat.induct)
  case (1 n)
  show ?case
  proof (cases "n < 10")
    case True
    then show ?thesis using byte_digit [of n] by (simp add: dec_of_nat.simps [of n] digits_value_def)
  next
    case False
    then show ?thesis using 1 byte_digit [of "n mod 10"]
      by (simp add: dec_of_nat.simps [of n] digits_value_snoc)
  qed
qed

lemma parse_usize_dec: "n \<le> usize_max \<Longrightarrow> parse_usize (dec_of_nat n) = Some n"
proof -
  assume n: "n \<le> usize_max"
  obtain c ds where d: "dec_of_nat n = c # ds" using dec_of_nat_nonempty by (cases "dec_of_nat n") auto
  then have "is_ascii_digit c" using dec_of_nat_digits [of n] by simp
  then have "c \<noteq> CHR ''+''" by (auto simp: is_ascii_digit_def byte_def)
  then show ?thesis
    using n d dec_of_nat_digits [of n] digits_value_dec_of_nat [of n]
    by (simp add: parse_usize_def Let_def)
qed

subsection \<open>Lemmas: the hunk header\<close>

definition word_char :: "char \<Rightarrow> bool" where
  "word_char c \<longleftrightarrow> 32 < byte c \<and> byte c < 128"

lemma ws_len_word_char: "word_char c \<Longrightarrow> ws_len (c # s) = 0"
  by (auto simp: word_char_def ws_len_def split: list.split)

lemma split_ws_word:
  "list_all word_char x \<Longrightarrow> split_ws w (x @ s) = split_ws (w @ x) s"
proof (induction x arbitrary: w)
  case (Cons c x)
  then have "split_ws w ((c # x) @ s) = split_ws (w @ [c]) (x @ s)"
    by (simp add: split_ws.simps [of w "c # x @ s"] ws_len_word_char)
  then show ?case using Cons by simp
qed simp

lemma split_ws_space: "split_ws w (CHR '' '' # s) = (if w = [] then [] else [w]) @ split_ws [] s"
  by (simp add: split_ws.simps [of w "CHR '' '' # s"] ws_len_def byte_def)

lemma word_char_digit: "is_ascii_digit c \<Longrightarrow> word_char c"
  by (simp add: is_ascii_digit_def word_char_def)

lemma dec_word: "list_all word_char (dec_of_nat n)"
  using dec_of_nat_digits [of n] by (simp add: list_all_iff word_char_digit)

lemma split_on_notin: "d \<notin> set x \<Longrightarrow> split_on d (x @ d # s) = x # split_on d s"
  by (induction x) auto

lemma digit_notin: "list_all is_ascii_digit ds \<Longrightarrow> CHR '','' \<notin> set ds" 
  by (auto simp: list_all_iff is_ascii_digit_def byte_def)

lemma parse_hunk_header_render:
  assumes "a \<le> usize_max"
  shows "\<exists>n. parse_hunk_header (hunk_header a b c d) = Ok (a, n)"
proof -
  let ?old = "''-'' @ dec_of_nat a @ '','' @ dec_of_nat b"
  have w: "list_all word_char ''@@''" "list_all word_char ?old"
    using dec_word by (simp_all add: word_char_def byte_def)
  define rest where "rest = ''+'' @ dec_of_nat c @ '','' @ dec_of_nat d @ '' @@'' @ [nl]"
  have "hunk_header a b c d = ''@@'' @ CHR '' '' # ?old @ CHR '' '' # rest"
    by (simp add: hunk_header_def rest_def)
  then have "split_whitespace (hunk_header a b c d) = ''@@'' # ?old # split_ws [] rest"
    using split_ws_word [OF w(1), of "[]"] split_ws_word [OF w(2), of "[]"]
    by (simp only: split_whitespace_def split_ws_space) simp
  then have f: "find (starts_with ''-'') (split_whitespace (hunk_header a b c d)) = Some ?old"
    by (simp add: starts_with_def)
  obtain x ds where x: "dec_of_nat a = x # ds" using dec_of_nat_nonempty by (cases "dec_of_nat a") auto
  then have "is_ascii_digit x" using dec_of_nat_digits [of a] by simp
  then have "x \<noteq> CHR ''-''" by (auto simp: is_ascii_digit_def byte_def)
  then have dw: "dropWhile (\<lambda>c. c = CHR ''-'') ?old = dec_of_nat a @ CHR '','' # dec_of_nat b"
    using x by simp
  show ?thesis
    using f dw split_on_notin [OF digit_notin [OF dec_of_nat_digits], of a "dec_of_nat b"]
      parse_usize_dec [OF assms]
    by (simp add: parse_hunk_header_def Let_def)
qed

subsection \<open>Lemmas: applying a script\<close>

lemma classify_edit:
  "plain_edit (Ctx l) \<Longrightarrow> classify (CHR '' '' # l) = Context l"
  "plain_edit (Del l) \<Longrightarrow> classify (CHR ''-'' # l) = Removal l"
  "plain_edit (Add l) \<Longrightarrow> classify (CHR ''+'' # l) = Addition l"
  by (cases l; simp add: classify_def starts_with_def full_line_def is_char_boundary_def)+

lemma hunk_body_edits:
  assumes "\<forall>e \<in> set es. plain_edit e"
    and "original = pre @ old_side es @ post"
  shows "hunk_body original (map edit_line es @ ls) (length pre) out =
           hunk_body original ls (length pre + length (old_side es)) (out @ concat (new_side es))"
  using assms
proof (induction es arbitrary: pre out)
  case (Cons e es)
  show ?case
  proof (cases e)
    case (Ctx l)
    then have "hunk_body original (map edit_line es @ ls) (length (pre @ [l])) (out @ l) =
        hunk_body original ls (length (pre @ [l]) + length (old_side es))
          ((out @ l) @ concat (new_side es))"
      using Cons.prems by (intro Cons.IH) simp_all
    then show ?thesis using Ctx Cons.prems classify_edit(1) [of l] by (simp add: nth_append)
  next
    case (Del l)
    then have "hunk_body original (map edit_line es @ ls) (length (pre @ [l])) out =
        hunk_body original ls (length (pre @ [l]) + length (old_side es)) (out @ concat (new_side es))"
      using Cons.prems by (intro Cons.IH) simp_all
    then show ?thesis using Del Cons.prems classify_edit(2) [of l] by (simp add: nth_append)
  next
    case (Add l)
    then have "hunk_body original (map edit_line es @ ls) (length pre) (out @ l) =
        hunk_body original ls (length pre + length (old_side es)) ((out @ l) @ concat (new_side es))"
      using Cons.prems by (intro Cons.IH) simp_all
    then show ?thesis using Add Cons.prems classify_edit(3) [of l] by simp
  qed
qed simp

lemma starts_with_header: "starts_with ''@@ '' (hunk_header a b c d)"
  by (simp add: hunk_header_def starts_with_def)

lemma hunk_body_render: "hunk_body original (render i j segs) k out = Ok (render i j segs, k, out)"
proof (cases segs)
  case (Cons s segs')
  obtain kept es where "s = (kept, es)" by (cases s)
  then show ?thesis using Cons by (simp add: Let_def classify_def starts_with_header)
qed simp

lemma old_lines_Cons [simp]: "old_lines ((kept, es) # segs) = kept @ old_side es @ old_lines segs"
  by (simp add: old_lines_def)

lemma new_lines_Cons [simp]: "new_lines ((kept, es) # segs) = kept @ new_side es @ new_lines segs"
  by (simp add: new_lines_def)

lemma apply_hunks_render:
  assumes "original = pre @ old_lines segs @ rest" "anchored (length pre) segs"
    and "length pre + length (old_lines segs) < usize_max"
    and "\<forall>(kept, es) \<in> set segs. \<forall>e \<in> set es. plain_edit e" "saw \<or> segs \<noteq> []"
  shows "apply_hunks original (render (length pre) j segs) (length pre) out saw =
           Ok (out @ concat (new_lines segs) @ concat rest)"
  using assms
proof (induction segs arbitrary: pre j out saw)
  case Nil
  then show ?case by (simp add: new_lines_def old_lines_def)
next
  case (Cons s segs)
  obtain kept es where s: "s = (kept, es)" by (cases s)
  let ?a = "length pre + length kept" and ?n = "length (old_side es)"
  let ?h = "hunk_header (hunk_pos ?a ?n) ?n (hunk_pos (j + length kept) (length (new_side es)))
              (length (new_side es))"
  let ?ls = "map edit_line es @ render (?a + ?n) (j + length kept + length (new_side es)) segs"
  obtain m where hd: "parse_hunk_header ?h = Ok (hunk_pos ?a ?n, m)"
    using parse_hunk_header_render [of "hunk_pos ?a ?n"] Cons.prems(3) s
    by (fastforce simp: hunk_pos_def)
  have start: "hunk_pos ?a ?n - 1 = ?a"
    using Cons.prems(2) s by (auto simp: hunk_pos_def)
  have orig: "original = (pre @ kept) @ old_side es @ old_lines segs @ rest"
    using Cons.prems(1) s by simp
  have body: "hunk_body original ?ls ?a (out @ concat kept) =
      Ok (render (?a + ?n) (j + length kept + length (new_side es)) segs, ?a + ?n,
          (out @ concat kept) @ concat (new_side es))"
    using hunk_body_edits [OF _ orig] Cons.prems(4) s by (simp add: hunk_body_render)
  have "apply_hunks original (render (length ((pre @ kept) @ old_side es))
          (j + length kept + length (new_side es)) segs) (length ((pre @ kept) @ old_side es))
          ((out @ concat kept) @ concat (new_side es)) True =
        Ok (((out @ concat kept) @ concat (new_side es)) @ concat (new_lines segs) @ concat rest)"
    using Cons.prems s by (intro Cons.IH) (simp_all add: add.assoc)
  moreover have "concat (take (?a - length pre) (drop (length pre) original)) = concat kept"
    using orig by simp
  ultimately show ?case
    using hd start body orig s
    by (simp add: Let_def apply_hunks.simps(2) starts_with_header add.assoc)
qed

lemma full_line_split: "full_line l \<Longrightarrow> split_inclusive nl (l @ t) = l # split_inclusive nl t"
proof -
  assume f: "full_line l"
  then have "l = butlast l @ [nl]" by (metis full_line_def append_butlast_last_id)
  then show ?thesis using split_inclusive_line [of nl "butlast l" t] f
    by (metis append.assoc append_Cons append_Nil full_line_def)
qed

lemma split_full_lines:
  "\<forall>l \<in> set ls. full_line l \<Longrightarrow> split_inclusive nl (concat ls @ t) = ls @ split_inclusive nl t"
  by (induction ls) (simp_all add: full_line_split)

lemma full_line_edit: "plain_edit e \<Longrightarrow> full_line (edit_line e)"
  by (cases e) (auto simp: full_line_def is_cont_def byte_def)

lemma nl_notin_dec: "nl \<notin> set (dec_of_nat n)"
  using dec_of_nat_digits [of n] by (auto simp: list_all_iff is_ascii_digit_def byte_def)

lemma full_line_header: "full_line (hunk_header a b c d)"
  using nl_notin_dec by (simp add: full_line_def hunk_header_def butlast_append is_cont_def byte_def)

lemma full_line_render:
  "\<forall>(kept, es) \<in> set segs. \<forall>e \<in> set es. plain_edit e \<Longrightarrow> l \<in> set (render i j segs) \<Longrightarrow> full_line l"
proof (induction i j segs rule: render.induct)
  case (2 i j kept es segs)
  then show ?case by (auto simp: Let_def full_line_header full_line_edit)
qed simp

lemma full_line_old:
  "\<forall>e \<in> set es. plain_edit e \<Longrightarrow> l \<in> set (old_side es) \<Longrightarrow> full_line l"
  by (induction es rule: old_side.induct) auto

lemma valid_script_old_lines: "valid_script segs \<Longrightarrow> \<forall>l \<in> set (old_lines segs). full_line l"
  using full_line_old by (fastforce simp: valid_script_def old_lines_def)

lemma valid_script_edits: "valid_script segs \<Longrightarrow> \<forall>(kept, es) \<in> set segs. \<forall>e \<in> set es. plain_edit e"
  by (auto simp: valid_script_def)

subsection \<open>Lemmas: reading a script off a patch\<close>

lemma classify_Context: "classify l = Context c \<Longrightarrow> l = edit_line (Ctx c)"
  by (cases l) (auto simp: classify_def split: if_splits)

lemma classify_Removal: "classify l = Removal c \<Longrightarrow> l = edit_line (Del c)"
  by (cases l) (auto simp: classify_def split: if_splits)

lemma classify_Addition: "classify l = Addition c \<Longrightarrow> l = edit_line (Add c)"
  by (cases l) (auto simp: classify_def split: if_splits)

definition reads :: "string list \<Rightarrow> string list \<Rightarrow> nat \<Rightarrow> string \<Rightarrow> string list \<Rightarrow> nat \<Rightarrow> string \<Rightarrow> edit list \<Rightarrow> bool" where
  "reads original ls i out rest j out' es \<longleftrightarrow>
     (\<exists>used. ls = used @ rest \<and> subseq (map edit_line es) used) \<and>
     j = i + length (old_side es) \<and> j \<le> length original \<and>
     take (length (old_side es)) (drop i original) = old_side es \<and>
     out' = out @ concat (new_side es)"

lemma reads_Cons:
  assumes "reads original ls (i + length (old_side [e])) (out @ concat (new_side [e])) rest j out' es"
    and "take (length (old_side [e])) (drop i original) = old_side [e]"
  shows "reads original (edit_line e # ls) i out rest j out' (e # es)"
proof -
  obtain used where u: "ls = used @ rest" "subseq (map edit_line es) used"
    using assms(1) by (auto simp: reads_def)
  have side: "old_side (e # es) = old_side [e] @ old_side es"
    "new_side (e # es) = new_side [e] @ new_side es" by (cases e; simp)+
  have "take (length (old_side (e # es))) (drop i original) = old_side (e # es)"
    using assms unfolding side reads_def length_append take_add by (simp add: add.commute)
  moreover have "edit_line e # ls = (edit_line e # used) @ rest \<and>
      subseq (map edit_line (e # es)) (edit_line e # used)" using u by simp
  ultimately show ?thesis using assms(1) unfolding reads_def side by auto
qed

lemma reads_skip:
  "reads original ls i out rest j out' es \<Longrightarrow> reads original (l # ls) i out rest j out' es"
  unfolding reads_def by (metis append_Cons list_emb_Cons)

lemma hunk_body_reads:
  "hunk_body original ls i out = Ok (rest, j, out') \<Longrightarrow> i \<le> length original \<Longrightarrow>
     \<exists>es. reads original ls i out rest j out' es"
proof (induction ls arbitrary: i out)
  case Nil
  then show ?case by (intro exI [of _ "[]"]) (simp add: reads_def)
next
  case (Cons l ls)
  have nth: "take 1 (drop i original) = [original ! i]" if "i < length original"
    using that by (simp add: take_Suc_conv_app_nth hd_drop_conv_nth take_Suc)
  show ?case
  proof (cases "classify l")
    case Stop
    then show ?thesis using Cons.prems by (intro exI [of _ "[]"]) (simp add: reads_def)
  next
    case Skip
    then obtain es where "reads original ls i out rest j out' es" using Cons by auto
    then show ?thesis using reads_skip by blast
  next
    case (Context c)
    then have c: "i < length original" "original ! i = c"
      "hunk_body original ls (i + 1) (out @ c) = Ok (rest, j, out')"
      using Cons.prems by (auto split: if_splits)
    then obtain es where "reads original ls (i + 1) (out @ c) rest j out' es"
      using Cons.IH [of "i + 1"] by auto
    then have "reads original (edit_line (Ctx c) # ls) i out rest j out' (Ctx c # es)"
      using c nth by (intro reads_Cons) simp_all
    then show ?thesis using classify_Context [OF Context] by blast
  next
    case (Removal c)
    then have c: "i < length original" "original ! i = c"
      "hunk_body original ls (i + 1) out = Ok (rest, j, out')"
      using Cons.prems by (auto split: if_splits)
    then obtain es where "reads original ls (i + 1) out rest j out' es"
      using Cons.IH [of "i + 1"] by auto
    then have "reads original (edit_line (Del c) # ls) i out rest j out' (Del c # es)"
      using c nth by (intro reads_Cons) simp_all
    then show ?thesis using classify_Removal [OF Removal] by blast
  next
    case (Addition c)
    then have "hunk_body original ls i (out @ c) = Ok (rest, j, out')" using Cons.prems by simp
    then obtain es where "reads original ls i (out @ c) rest j out' es"
      using Cons.IH Cons.prems(2) by blast
    then have "reads original (edit_line (Add c) # ls) i out rest j out' (Add c # es)"
      by (intro reads_Cons) simp_all
    then show ?thesis using classify_Addition [OF Addition] by blast
  qed (use Cons.prems in simp_all)
qed

lemma apply_hunks_script:
  "apply_hunks original ls i out saw = Ok res \<Longrightarrow> i \<le> length original \<Longrightarrow>
     \<exists>segs rest. drop i original = old_lines segs @ rest \<and>
        res = out @ concat (new_lines segs) @ concat rest \<and> (saw \<or> segs \<noteq> []) \<and>
        subseq (map edit_line (concat (map snd segs))) ls"
proof (induction original ls i out saw rule: apply_hunks.induct)
  case (1 original i out saw)
  then show ?case
    by (intro exI [of _ "[]"] exI [of _ "drop i original"])
      (simp add: old_lines_def new_lines_def split: if_splits)
next
  case (2 original l ls i out saw)
  show ?case
  proof (cases "starts_with ''@@ '' l")
    case False
    then obtain segs rest where "drop i original = old_lines segs @ rest"
      "res = out @ concat (new_lines segs) @ concat rest" "saw \<or> segs \<noteq> []"
      "subseq (map edit_line (concat (map snd segs))) ls"
      using "2.IH"(1) "2.prems" by (auto simp: apply_hunks.simps(2))
    then show ?thesis by (intro exI [of _ segs] exI [of _ rest]) (simp add: list_emb_Cons)
  next
    case st: True
    obtain a n where h: "parse_hunk_header l = Ok (a, n)"
      using "2.prems"(1) st by (auto simp: apply_hunks.simps(2) split: res.splits)
    define k where "k = a - 1"
    have k: "i \<le> k" "k \<le> length original"
      using "2.prems"(1) st h
      by (auto simp: apply_hunks.simps(2) k_def Let_def split: if_splits)
    define kept where "kept = take (k - i) (drop i original)"
    obtain rest j out' where b: "hunk_body original ls k (out @ concat kept) = Ok (rest, j, out')"
      using "2.prems"(1) st h k
      by (auto simp: apply_hunks.simps(2) k_def kept_def Let_def split: res.splits)
    then have r: "apply_hunks original rest j out' True = Ok res"
      using "2.prems"(1) st h k by (simp add: apply_hunks.simps(2) k_def kept_def Let_def)
    obtain es where es: "reads original ls k (out @ concat kept) rest j out' es"
      using hunk_body_reads [OF b k(2)] by blast
    then have j: "j \<le> length original" and jk: "j = k + length (old_side es)"
      by (simp_all add: reads_def)
    have "\<exists>segs rest'. drop j original = old_lines segs @ rest' \<and>
        res = out' @ concat (new_lines segs) @ concat rest' \<and> (True \<or> segs \<noteq> []) \<and>
        subseq (map edit_line (concat (map snd segs))) rest"
      using "2.IH"(2) [of "(a, n)" a n "a - 1" "(rest, j, out')" rest "(j, out')" j out'] st h k b r j
      by (simp add: k_def kept_def)
    then obtain segs rest' where IH: "drop j original = old_lines segs @ rest'"
      "res = out' @ concat (new_lines segs) @ concat rest'"
      "subseq (map edit_line (concat (map snd segs))) rest" by blast
    have "drop i original = kept @ drop k original"
      unfolding kept_def using k by (metis append_take_drop_id drop_drop le_add_diff_inverse2)
    also have "drop k original = old_side es @ drop j original"
      using es jk unfolding reads_def by (metis add.commute append_take_drop_id drop_drop)
    finally have "drop i original = old_lines ((kept, es) # segs) @ rest'" using IH(1) by simp
    moreover have "res = out @ concat (new_lines ((kept, es) # segs)) @ concat rest'"
      using es IH(2) by (simp add: reads_def)
    moreover obtain used where "ls = used @ rest" "subseq (map edit_line es) used"
      using es by (auto simp: reads_def)
    then have "subseq (map edit_line (concat (map snd ((kept, es) # segs)))) (l # ls)"
      using IH(3) by (simp add: list_emb_append_mono list_emb_Cons)
    ultimately show ?thesis by blast
  qed
qed

lemma apply_one_hunk:
  assumes "a \<le> usize_max" "a - 1 \<le> length (split_inclusive nl original)"
    and "(case hunk_body (split_inclusive nl original) (split_inclusive nl body) (a - 1)
             (concat (take (a - 1) (split_inclusive nl original))) of
            Ok (rest, j, out) \<Rightarrow> apply_hunks (split_inclusive nl original) rest j out True
          | Err e \<Rightarrow> Err e | Panic m \<Rightarrow> Panic m) = r"
  shows "apply_unified_patch original (hunk_header a b c d @ body) = r"
proof -
  obtain n where "parse_hunk_header (hunk_header a b c d) = Ok (a, n)"
    using parse_hunk_header_render [OF assms(1)] by blast
  then show ?thesis
    using assms(2,3) full_line_split [OF full_line_header]
    by (simp add: apply_unified_patch_def apply_hunks.simps(2) starts_with_header Let_def)
qed

subsection \<open>Properties\<close>



text \<open>C21. The code never invents an edit: whenever a patch is accepted, for any patch text
  whatever, the result is the original with a script applied whose every context, removal
  and addition is a line of the patch, in the patch's order; everything else of the original
  is kept byte for byte.\<close>

theorem accepted_patch_is_script:
  assumes "apply_unified_patch original patch = Ok out"
  shows "\<exists>segs rest. original = concat (old_lines segs) @ rest \<and>
           out = concat (new_lines segs) @ rest \<and> segs \<noteq> [] \<and>
           subseq (map edit_line (concat (map snd segs))) (split_inclusive nl patch)"
proof -
  from apply_hunks_script [OF assms [unfolded apply_unified_patch_def]]
  obtain segs rest where "split_inclusive nl original = old_lines segs @ rest"
    "out = concat (new_lines segs) @ concat rest" "segs \<noteq> []"
    "subseq (map edit_line (concat (map snd segs))) (split_inclusive nl patch)" by auto
  moreover from this(1) have "original = concat (old_lines segs) @ concat rest"
    by (metis concat_append concat_split_inclusive)
  ultimately show ?thesis by blast
qed

theorem accepted_patch_is_script_witness:
  "\<exists>segs rest. ''a'' @ [nl] = concat (old_lines segs) @ rest \<and>
     ''b'' @ [nl] @ ''a'' @ [nl] = concat (new_lines segs) @ rest \<and> segs \<noteq> [] \<and>
     subseq (map edit_line (concat (map snd segs)))
       (split_inclusive nl (concat (render 0 0 [([], [Add (''b'' @ [nl])])])))"
proof -
  have v: "valid_script [([], [Add (''b'' @ [nl])])]"
    by (simp add: valid_script_def full_line_def is_cont_def byte_def starts_with_def usize_max_def
        old_lines_def)
  have "apply_hunks (split_inclusive nl (''a'' @ [nl])) (render (length ([] :: string list)) 0
          [([], [Add (''b'' @ [nl])])]) (length ([] :: string list)) [] False =
        Ok ([] @ concat (new_lines [([], [Add (''b'' @ [nl])])]) @ concat [''a'' @ [nl]])"
    using valid_script_edits [OF v]
    by (intro apply_hunks_render) (simp_all add: old_lines_def usize_max_def)
  moreover have "split_inclusive nl (concat (render 0 0 [([], [Add (''b'' @ [nl])])])) =
      render 0 0 [([], [Add (''b'' @ [nl])])]"
    using split_full_lines [of "render 0 0 [([], [Add (''b'' @ [nl])])]" "[]"]
      full_line_render [OF valid_script_edits [OF v]] by (simp del: render.simps)
  ultimately have "apply_unified_patch (''a'' @ [nl]) (concat (render 0 0 [([], [Add (''b'' @ [nl])])])) =
      Ok (''b'' @ [nl] @ ''a'' @ [nl])"
    by (simp add: apply_unified_patch_def new_lines_def del: render.simps)
  from accepted_patch_is_script [OF this] show ?thesis .
qed

text \<open>Three patches that diff tools produce and the code mishandles. An insertion without
  context lines (\<open>@@ -1,0 +2,1 @@\<close>: after line 1) is placed before that line. A removal of a
  line that starts with \<open>-- \<close> is taken for a file header: the rest of the hunk is dropped and
  the patch is still reported as applied. A patch that touches a last line without newline,
  marked as such, is refused, because the marker does not remove the newline of the line
  before it.\<close>

theorem mishandled_patches:
  "apply_unified_patch (''a'' @ [nl] @ ''b'' @ [nl]) (hunk_header 1 0 2 1 @ ''+x'' @ [nl]) =
     Ok (''x'' @ [nl] @ ''a'' @ [nl] @ ''b'' @ [nl]) \<and>
   apply_unified_patch (''-- a'' @ [nl] @ ''b'' @ [nl])
     (hunk_header 1 2 0 0 @ ''--- a'' @ [nl] @ ''-b'' @ [nl]) =
     Ok (''-- a'' @ [nl] @ ''b'' @ [nl]) \<and>
   apply_unified_patch ''a''
     (hunk_header 1 1 1 1 @ ''-a'' @ [nl] @ [CHR 0x5C] @ '' No newline at end of file'' @ [nl] @
      ''+b'' @ [nl]) =
     Err (patch_err ''patch removal mismatch'')"
  by (intro conjI; rule apply_one_hunk)
    (simp_all add: classify_def starts_with_def is_char_boundary_def is_cont_def byte_def
      apply_hunks.simps(2) usize_max_def)

end
