(* ===== verification/Strip_Noise.thy ===== *)
theory Strip_Noise
  imports Protocol Rust_Str
begin

text \<open>
  Boilerplate elision for \<open>fs.read\<close>, \<^verbatim>\<open>src/crates/daemon/src/compact/strip_noise.rs\<close>: license headers, base64
  blobs and generated bodies are replaced by one marker line each. The line loops are
  recursions or \<open>takeWhile\<close> over the lines from an index.

  The abstract view of a result is a list of segments of the original lines, each a chunk
  that stays and a region that is elided, and the tail.
\<close>

subsection \<open>Detectors\<close>

definition LICENSE_MIN_LINES :: nat where "LICENSE_MIN_LINES = 3"
definition BASE64_MIN_LINES :: nat where "BASE64_MIN_LINES = 5"
definition BASE64_MIN_WIDTH :: nat where "BASE64_MIN_WIDTH = 60"
definition GENERATED_HEAD_SCAN :: nat where "GENERATED_HEAD_SCAN = 10"
definition GENERATED_MIN_FILE_LINES :: nat where "GENERATED_MIN_FILE_LINES = 50"
definition GENERATED_KEEP_AFTER_MARKER :: nat where "GENERATED_KEEP_AFTER_MARKER = 10"

datatype CommentStyle = Slash | Hash | Block

definition blank :: "string \<Rightarrow> bool" where
  "blank l \<longleftrightarrow> trim l = []"

definition comment_style :: "string \<Rightarrow> CommentStyle option" where
  "comment_style first =
     (if starts_with ''//'' first then Some Slash
      else if starts_with ''/*'' first then Some Block
      else if starts_with ''#'' first then Some Hash
      else None)"

definition is_comment :: "CommentStyle \<Rightarrow> string \<Rightarrow> bool" where
  "is_comment style line =
     (case style of
        Slash \<Rightarrow> starts_with ''//'' (trim_start line)
      | Hash \<Rightarrow> starts_with ''#'' (trim_start line)
      | Block \<Rightarrow> False)"

fun trim_blank_end :: "string list \<Rightarrow> nat \<Rightarrow> nat \<Rightarrow> nat" where
  "trim_blank_end lines start 0 = 0"
| "trim_blank_end lines start (Suc e) =
     (if start < Suc e \<and> blank (lines ! e) then trim_blank_end lines start e else Suc e)"

definition contains_license_keyword :: "string \<Rightarrow> bool" where
  "contains_license_keyword text \<longleftrightarrow>
     list_ex (\<lambda>kw. str_contains kw text)
       [''copyright'', ''spdx-license-identifier'', ''all rights reserved'', ''licensed under'',
        ''apache license'', ''mit license'', ''bsd license'', ''mozilla public'',
        ''gnu general public'', ''gnu lesser general public'']"

definition comment_end :: "string list \<Rightarrow> nat \<Rightarrow> CommentStyle \<Rightarrow> nat option" where
  "comment_end lines start style =
     (case style of
        Block \<Rightarrow>
          map_option (\<lambda>k. start + k + 1) (position (str_contains ''*/'') (drop start lines))
      | _ \<Rightarrow>
          Some (trim_blank_end lines start
            (start + length (takeWhile (\<lambda>l. is_comment style l \<or> blank l) (drop start lines)))))"

definition detect_license_header :: "string list \<Rightarrow> (nat \<times> nat) option" where
  "detect_license_header lines =
     (let i0 = (if lines \<noteq> [] \<and> starts_with ''#!'' (hd lines) then 1 else 0);
          start = i0 + length (takeWhile blank (drop i0 lines))
      in if length lines \<le> start then None
         else case comment_style (trim_start (lines ! start)) of
           None \<Rightarrow> None
         | Some style \<Rightarrow>
             (case comment_end lines start style of
                None \<Rightarrow> None
              | Some fin \<Rightarrow>
                  if fin \<le> start then None
                  else if fin - 1 - start + 1 < LICENSE_MIN_LINES then None
                  else if \<not> contains_license_keyword
                              (to_lowercase (join [nl] (take (fin - start) (drop start lines))))
                  then None
                  else Some (start, fin - 1)))"

definition is_base64_line :: "string \<Rightarrow> bool" where
  "is_base64_line line \<longleftrightarrow>
     (let trimmed = trim line
      in BASE64_MIN_WIDTH \<le> length trimmed \<and>
         list_all (\<lambda>c. is_ascii_alphanumeric c \<or>
           c \<in> {CHR ''+'', CHR ''/'', CHR ''='', CHR ''-'', CHR ''_''}) trimmed)"

function base64_from :: "string list \<Rightarrow> nat \<Rightarrow> (nat \<times> nat) list" where
  "base64_from lines i =
     (if length lines \<le> i then []
      else if \<not> is_base64_line (lines ! i) then base64_from lines (i + 1)
      else let n = length (takeWhile is_base64_line (drop i lines)); fin = i + n - 1
           in (if BASE64_MIN_LINES \<le> fin - i + 1 then [(i, fin)] else []) @
              base64_from lines (i + n))"
  by pat_completeness auto
termination
proof (relation "measure (\<lambda>(lines, i). length lines - i)")
  fix lines :: "string list" and i n
  assume "\<not> length lines \<le> i" "\<not> \<not> is_base64_line (lines ! i)"
    "n = length (takeWhile is_base64_line (drop i lines))"
  then have "0 < n" by (simp add: Cons_nth_drop_Suc [symmetric])
  then show "((lines, i + n), lines, i) \<in> measure (\<lambda>(lines, i). length lines - i)"
    using \<open>\<not> length lines \<le> i\<close> by simp
qed auto

declare base64_from.simps [simp del]

definition detect_base64_blobs :: "string list \<Rightarrow> (nat \<times> nat) list" where
  "detect_base64_blobs lines = base64_from lines 0"

definition generated_markers :: "string list" where
  "generated_markers =
     [''@generated'', ''DO NOT EDIT'', ''do not edit'', ''Code generated by'',
      ''code generated by'', ''Auto-generated'', ''auto-generated'', ''AUTOGENERATED'']"

definition detect_generated_body :: "string list \<Rightarrow> (nat \<times> nat) option" where
  "detect_generated_body lines =
     (if length lines < GENERATED_MIN_FILE_LINES then None
      else case position (\<lambda>l. list_ex (\<lambda>m. str_contains m l) generated_markers)
                  (take GENERATED_HEAD_SCAN lines) of
             None \<Rightarrow> None
           | Some marker_line \<Rightarrow>
               (let head_end = min (marker_line + GENERATED_KEEP_AFTER_MARKER) (length lines - 1)
                in if length lines \<le> head_end + 1 then None
                   else Some (head_end + 1, length lines - 1)))"

subsection \<open>Assembling the result\<close>

type_synonym region = "nat \<times> nat \<times> string"

definition format_marker :: "string \<Rightarrow> nat \<Rightarrow> string" where
  "format_marker kind n =
     (if kind = ''license''
      then ''[[mcp-cli: stripped '' @ dec_of_nat n @ ''-line license header]]''
      else if kind = ''base64''
      then ''[[mcp-cli: stripped '' @ dec_of_nat n @ ''-line base64 blob]]''
      else if kind = ''generated''
      then ''[[mcp-cli: stripped '' @ dec_of_nat n @ ''-line generated body]]''
      else ''[[mcp-cli: stripped '' @ dec_of_nat n @ '' lines]]'')"

definition all_regions :: "string list \<Rightarrow> region list" where
  "all_regions lines =
     (case detect_license_header lines of Some (s, e) \<Rightarrow> [(s, e, ''license'')] | None \<Rightarrow> []) @
     (case detect_generated_body lines of Some (s, e) \<Rightarrow> [(s, e, ''generated'')] | None \<Rightarrow> []) @
     map (\<lambda>(s, e). (s, e, ''base64'')) (detect_base64_blobs lines)"

fun keep_regions :: "region list \<Rightarrow> region list \<Rightarrow> region list" where
  "keep_regions kept [] = kept"
| "keep_regions kept (r # rs) =
     (if kept \<noteq> [] \<and> fst r \<le> fst (snd (last kept)) then keep_regions kept rs
      else keep_regions (kept @ [r]) rs)"

definition push_line :: "string \<Rightarrow> string \<times> bool \<Rightarrow> string \<times> bool" where
  "push_line line st = ((if snd st then fst st else fst st @ [nl]) @ line, False)"

definition region_row :: "region \<Rightarrow> StrippedRegion" where
  "region_row r =
     (case r of (s, e, kind) \<Rightarrow>
        \<lparr>sr_kind = kind, sr_start_line = u32_of (s + 1), sr_end_line = u32_of (e + 1),
         sr_lines = u32_of (e - s + 1)\<rparr>)"

function emit ::
  "string list \<Rightarrow> nat \<Rightarrow> region list \<Rightarrow> string \<times> bool \<Rightarrow> StrippedRegion list \<Rightarrow>
     (string \<times> bool) \<times> StrippedRegion list" where
  "emit lines idx kept st out_regions =
     (if length lines \<le> idx then (st, out_regions)
      else case kept of
        [] \<Rightarrow> emit lines (idx + 1) [] (push_line (lines ! idx) st) out_regions
      | (s, e, kind) # ks \<Rightarrow>
          if idx = s
          then emit lines (e + 1) ks (push_line (format_marker kind (u32_of (e - s + 1))) st)
                 (out_regions @ [region_row (s, e, kind)])
          else emit lines (idx + 1) kept (push_line (lines ! idx) st) out_regions)"
  by pat_completeness auto
termination
  by (relation "measures [\<lambda>(_, _, kept, _). length kept, \<lambda>(lines, idx, _). length lines - idx]") auto

declare emit.simps [simp del]

record StripResult =
  str_content :: string
  str_regions :: "StrippedRegion list"

definition strip_noise :: "string \<Rightarrow> StripResult" where
  "strip_noise content =
     (let lines = str_lines content;
          trailing_nl = ends_with [nl] content;
          kept = keep_regions [] (sort_key fst (all_regions lines));
          ((content_out, _), out_regions) = emit lines 0 kept ([], True) []
      in \<lparr>str_content = (if trailing_nl then content_out @ [nl] else content_out),
          str_regions = out_regions\<rparr>)"

subsection \<open>Segments\<close>

text \<open>A segment: lines that stay, lines that are elided, the kind of the elided region.\<close>

type_synonym noise_segment = "string list \<times> string list \<times> string"

definition original_lines :: "noise_segment list \<Rightarrow> string list" where
  "original_lines segs = concat (map (\<lambda>(c, r, _). c @ r) segs)"

definition shown_lines :: "noise_segment list \<Rightarrow> string list" where
  "shown_lines segs = concat (map (\<lambda>(c, r, k). c @ [format_marker k (u32_of (length r))]) segs)"

fun segment_rows :: "nat \<Rightarrow> noise_segment list \<Rightarrow> StrippedRegion list" where
  "segment_rows i [] = []"
| "segment_rows i ((c, r, k) # segs) =
     \<lparr>sr_kind = k, sr_start_line = u32_of (i + length c + 1),
      sr_end_line = u32_of (i + length c + length r), sr_lines = u32_of (length r)\<rparr> #
     segment_rows (i + length c + length r) segs"

fun regions_from :: "nat \<Rightarrow> nat \<Rightarrow> region list \<Rightarrow> bool" where
  "regions_from n i [] \<longleftrightarrow> True"
| "regions_from n i ((s, e, k) # ks) \<longleftrightarrow> i \<le> s \<and> s \<le> e \<and> e < n \<and> regions_from n (e + 1) ks"

fun segments_of :: "string list \<Rightarrow> nat \<Rightarrow> region list \<Rightarrow> noise_segment list" where
  "segments_of lines i [] = []"
| "segments_of lines i ((s, e, k) # ks) =
     (take (s - i) (drop i lines), take (e + 1 - s) (drop s lines), k) #
     segments_of lines (e + 1) ks"

fun rest_after :: "string list \<Rightarrow> nat \<Rightarrow> region list \<Rightarrow> string list" where
  "rest_after lines i [] = drop i lines"
| "rest_after lines i ((s, e, k) # ks) = rest_after lines (e + 1) ks"

lemma segments_original:
  "regions_from (length lines) i ks \<Longrightarrow>
     drop i lines = original_lines (segments_of lines i ks) @ rest_after lines i ks"
proof (induction lines i ks rule: segments_of.induct)
  case (2 lines i s e k ks)
  then have IH: "drop (e + 1) lines =
      original_lines (segments_of lines (e + 1) ks) @ rest_after lines (e + 1) ks" by simp
  have "drop i lines = take (s - i) (drop i lines) @ drop s lines"
    using "2.prems" by (metis append_take_drop_id drop_drop le_add_diff_inverse2 regions_from.simps(2))
  also have "drop s lines = take (e + 1 - s) (drop s lines) @ drop (e + 1) lines"
    using "2.prems"
    by (metis append_take_drop_id drop_drop le_add_diff_inverse2 regions_from.simps(2) trans_le_add1)
  finally show ?case using IH by (simp add: original_lines_def)
qed (simp add: original_lines_def)

lemma segments_nonempty:
  "regions_from (length lines) i ks \<Longrightarrow> (c, r, k) \<in> set (segments_of lines i ks) \<Longrightarrow> r \<noteq> []"
  by (induction lines i ks rule: segments_of.induct) auto

lemma segments_rows:
  "regions_from (length lines) i ks \<Longrightarrow>
     segment_rows i (segments_of lines i ks) = map region_row ks"
proof (induction lines i ks rule: segments_of.induct)
  case (2 lines i s e k ks)
  then have "min (length lines - i) (s - i) = s - i" "min (length lines - s) (e + 1 - s) = e + 1 - s"
    by auto
  moreover have "i + (s - i) = s" "s + (e + 1 - s) = e + 1" "e + 1 - s = e - s + 1"
    using "2.prems" by auto
  ultimately show ?case using 2 by (simp only: segments_of.simps segment_rows.simps length_take
      length_drop list.map region_row_def prod.case) simp
qed simp

lemma emit_prefix:
  assumes "i \<le> s" "s \<le> length lines" "\<forall>(a, _, _) \<in> set (take 1 ks). s \<le> a"
  shows "emit lines i ks st rs =
           emit lines s ks (fold push_line (take (s - i) (drop i lines)) st) rs"
  using assms
proof (induction "s - i" arbitrary: i st)
  case (Suc n)
  then have i: "i < s" "i < length lines" by simp_all
  have first: "emit lines i ks st rs = emit lines (i + 1) ks (push_line (lines ! i) st) rs"
  proof (cases ks)
    case (Cons r ks')
    then show ?thesis using i Suc.prems(3) by (cases r) (simp add: emit.simps [of lines i])
  qed (use i in \<open>simp add: emit.simps [of lines i]\<close>)
  have "take (s - i) (drop i lines) = lines ! i # take (s - (i + 1)) (drop (i + 1) lines)"
    using i by (metis Cons_nth_drop_Suc Suc_diff_Suc Suc_eq_plus1 take_Suc_Cons)
  then show ?case using first Suc.hyps(1) [of "i + 1"] Suc.hyps(2) Suc.prems i by simp
qed simp

lemma emit_segments:
  "regions_from (length lines) i ks \<Longrightarrow> i \<le> length lines \<Longrightarrow>
     emit lines i ks st rs =
       (fold push_line (shown_lines (segments_of lines i ks) @ rest_after lines i ks) st,
        rs @ map region_row ks)"
proof (induction lines i ks arbitrary: st rs rule: segments_of.induct)
  case (1 lines i)
  then show ?case
    using emit_prefix [of i "length lines" lines "[]" st rs]
    by (simp add: shown_lines_def emit.simps [of lines "length lines"])
next
  case (2 lines i s e k ks)
  then have b: "i \<le> s" "s \<le> e" "e < length lines" by simp_all
  let ?st = "fold push_line (take (s - i) (drop i lines)) st"
  have "emit lines i ((s, e, k) # ks) st rs = emit lines s ((s, e, k) # ks) ?st rs"
    using b by (intro emit_prefix) simp_all
  also have "\<dots> = emit lines (e + 1) ks (push_line (format_marker k (u32_of (e - s + 1))) ?st)
      (rs @ [region_row (s, e, k)])"
    using b by (simp add: emit.simps [of lines s])
  finally show ?case using "2.IH" "2.prems" b
    by (simp add: shown_lines_def Suc_diff_le)
qed

lemma push_lines_join:
  "ls \<noteq> [] \<Longrightarrow> fst (fold push_line ls (out, False)) = out @ [nl] @ join [nl] ls"
  "fst (fold push_line ls ([], True)) = join [nl] ls"
proof -
  have *: "ls \<noteq> [] \<Longrightarrow> fold push_line ls (out, False) = (out @ [nl] @ join [nl] ls, False)" for ls out
  proof (induction "[nl]" ls arbitrary: out rule: join.induct)
    case (3 s t ss)
    have "fold push_line (s # t # ss) (out, False) = fold push_line (t # ss) (out @ [nl] @ s, False)"
      by (simp add: push_line_def)
    also have "\<dots> = ((out @ [nl] @ s) @ [nl] @ join [nl] (t # ss), False)"
      by (rule 3) simp
    finally show ?case by simp
  qed (simp_all add: push_line_def)
  show "ls \<noteq> [] \<Longrightarrow> fst (fold push_line ls (out, False)) = out @ [nl] @ join [nl] ls"
    using * by simp
  show "fst (fold push_line ls ([], True)) = join [nl] ls"
  proof (cases ls)
    case (Cons l ls')
    then show ?thesis using * [of ls' l] by (cases ls') (simp_all add: push_line_def)
  qed simp
qed

subsection \<open>The detectors stay within the file\<close>

lemma trim_blank_end_le: "trim_blank_end lines start e \<le> e"
  by (induction e) auto

lemma comment_end_le: "comment_end lines s style = Some fin \<Longrightarrow> s \<le> length lines \<Longrightarrow> fin \<le> length lines"
proof -
  assume f: "comment_end lines s style = Some fin" and s: "s \<le> length lines"
  have tw: "s + length (takeWhile P (drop s lines)) \<le> length lines" for P
    using length_takeWhile_le [of P "drop s lines"] s by simp
  show ?thesis
  proof (cases style)
    case Block
    then obtain k where k: "position (str_contains ''*/'') (drop s lines) = Some k" "fin = s + k + 1"
      using f by (auto simp: comment_end_def)
    have "k < length lines - s" using position_SomeD [OF k(1)] by simp
    then show ?thesis using k(2) by linarith
  next
    case Slash
    then show ?thesis
      using f order_trans [OF trim_blank_end_le tw] by (auto simp: comment_end_def)
  next
    case Hash
    then show ?thesis
      using f order_trans [OF trim_blank_end_le tw] by (auto simp: comment_end_def)
  qed
qed

lemma detect_license_header_bounds:
  "detect_license_header lines = Some (s, e) \<Longrightarrow> s \<le> e \<and> e < length lines"
proof -
  assume d: "detect_license_header lines = Some (s, e)"
  obtain style fin where f: "comment_end lines s style = Some fin" "s < fin" "e = fin - 1"
    "s < length lines"
    using d by (auto simp: detect_license_header_def Let_def not_le split: if_splits option.splits)
  have "fin \<le> length lines" using comment_end_le [OF f(1)] f(4) by simp
  then show ?thesis using f by linarith
qed

lemma detect_generated_body_bounds:
  "detect_generated_body lines = Some (s, e) \<Longrightarrow> s \<le> e \<and> e < length lines"
proof -
  assume "detect_generated_body lines = Some (s, e)"
  then have "\<not> length lines \<le> s" "e = length lines - 1"
    by (auto simp: detect_generated_body_def Let_def split: if_splits option.splits)
  then show ?thesis by linarith
qed

lemma base64_from_bounds: "(s, e) \<in> set (base64_from lines i) \<Longrightarrow> s \<le> e \<and> e < length lines"
proof (induction lines i rule: base64_from.induct)
  case (1 lines i)
  let ?n = "length (takeWhile is_base64_line (drop i lines))"
  have n: "?n \<le> length lines - i" by (metis length_drop length_takeWhile_le)
  show ?case
  proof (cases "length lines \<le> i")
    case True
    then show ?thesis using "1.prems" by (simp add: base64_from.simps [of lines i])
  next
    case i: False
    show ?thesis
    proof (cases "is_base64_line (lines ! i)")
      case False
      then show ?thesis using "1.prems" i "1.IH"(1) by (simp add: base64_from.simps [of lines i])
    next
      case True
      then have "0 < ?n" using i by (simp add: Cons_nth_drop_Suc [symmetric])
      moreover have "(s, e) = (i, i + ?n - 1) \<or> (s, e) \<in> set (base64_from lines (i + ?n))"
        using "1.prems" i True by (auto simp: base64_from.simps [of lines i] Let_def split: if_splits)
      moreover have "i \<le> i + ?n - 1 \<and> i + ?n - 1 < length lines" if "0 < ?n"
        using that n i by linarith
      ultimately show ?thesis using "1.IH"(2) i True by blast
    qed
  qed
qed

lemma all_regions_bounds:
  assumes "(s, e, k) \<in> set (all_regions lines)"
  shows "s \<le> e \<and> e < length lines \<and> k \<in> {''license'', ''generated'', ''base64''}"
proof -
  consider "detect_license_header lines = Some (s, e)" "k = ''license''"
    | "detect_generated_body lines = Some (s, e)" "k = ''generated''"
    | "(s, e) \<in> set (base64_from lines 0)" "k = ''base64''"
    using assms by (auto simp: all_regions_def detect_base64_blobs_def split: option.splits)
  then show ?thesis
    by cases (use detect_license_header_bounds detect_generated_body_bounds base64_from_bounds in blast)+
qed

lemma regions_from_snoc:
  "regions_from n i (ks @ [(s, e, k)]) \<longleftrightarrow>
     regions_from n i ks \<and> (if ks = [] then i else fst (snd (last ks)) + 1) \<le> s \<and> s \<le> e \<and> e < n"
  by (induction n i ks rule: regions_from.induct) auto

lemma keep_regions_from:
  "regions_from n 0 kept \<Longrightarrow> \<forall>(s, e, k) \<in> set rs. s \<le> e \<and> e < n \<Longrightarrow>
     regions_from n 0 (keep_regions kept rs) \<and> set (keep_regions kept rs) \<subseteq> set kept \<union> set rs"
proof (induction kept rs rule: keep_regions.induct)
  case (2 kept r rs)
  obtain s e k where r: "r = (s, e, k)" by (cases r)
  show ?case
  proof (cases "kept \<noteq> [] \<and> fst r \<le> fst (snd (last kept))")
    case True
    then show ?thesis using 2 by auto
  next
    case False
    then have "regions_from n 0 (kept @ [r])"
      using "2.prems" r by (auto simp: regions_from_snoc)
    then show ?thesis using 2 False by auto
  qed
qed simp

lemma kept_regions:
  "regions_from (length lines) 0 (keep_regions [] (sort_key fst (all_regions lines)))"
  using keep_regions_from [of "length lines" "[]" "sort_key fst (all_regions lines)"]
    all_regions_bounds by auto

subsection \<open>Lines and their join\<close>

lemma split_first_line:
  assumes "nl \<in> set s"
  obtains l t where "s = l @ nl # t" "nl \<notin> set l"
  using split_list_first [OF assms] by blast

lemma strip_line_end_plain: "nl \<notin> set l \<Longrightarrow> strip_line_end l = l"
  by (cases l rule: rev_cases) (auto simp: strip_line_end_def)

lemma str_lines_Cons:
  "nl \<notin> set l \<Longrightarrow> \<not> ends_with [cr] l \<Longrightarrow> str_lines (l @ nl # t) = l # str_lines t"
proof -
  assume l: "nl \<notin> set l" "\<not> ends_with [cr] l"
  have "str_lines (l @ nl # t) = strip_line_end (l @ [nl]) # str_lines t"
    using l(1) by (simp add: str_lines_def split_inclusive_line)
  moreover have "strip_line_end (l @ [nl]) = l"
    using l(2) by (cases l rule: rev_cases) (auto simp: strip_line_end_def ends_with_def butlast_append Let_def)
  ultimately show ?thesis by simp
qed

lemma str_lines_empty: "str_lines s = [] \<longleftrightarrow> s = []"
  by (metis concat.simps(1) concat_split_inclusive map_is_Nil_conv split_inclusive.simps(1)
      str_lines_def)

lemma ends_with_nl_append: "t \<noteq> [] \<Longrightarrow> ends_with [nl] (l @ nl # t) \<longleftrightarrow> ends_with [nl] t"
  by (cases t rule: rev_cases) (simp_all add: ends_with_def)

lemma str_contains_append2: "str_contains p b \<Longrightarrow> str_contains p (a @ b)"
  by (induction a) auto

lemma str_contains_prefix: "str_contains p (p @ b)"
  by (cases p; cases b) (simp_all add: starts_with_def)

lemma join_str_lines:
  "\<not> str_contains [cr, nl] s \<Longrightarrow>
     join [nl] (str_lines s) @ (if ends_with [nl] s then [nl] else []) = s"
proof (induction s rule: length_induct)
  case (1 s)
  show ?case
  proof (cases "nl \<in> set s")
    case False
    then have "\<not> ends_with [nl] s" by (cases s rule: rev_cases) (auto simp: ends_with_def)
    moreover have "s \<noteq> [] \<Longrightarrow> str_lines s = [s]"
      using False by (simp add: str_lines_def split_inclusive_last strip_line_end_plain)
    ultimately show ?thesis by (cases "s = []") (simp_all add: str_lines_def)
  next
    case True
    then obtain l t where s: "s = l @ nl # t" "nl \<notin> set l" by (rule split_first_line)
    have "\<not> ends_with [cr] l"
    proof
      assume "ends_with [cr] l"
      then obtain l' where "l = l' @ [cr]"
        by (cases l rule: rev_cases) (auto simp: ends_with_def)
      then have "s = l' @ [cr, nl] @ t" using s(1) by simp
      then show False using "1.prems" str_contains_append2 [OF str_contains_prefix] by metis
    qed
    then have lines: "str_lines s = l # str_lines t" using s by (simp add: str_lines_Cons)
    show ?thesis
    proof (cases "t = []")
      case True
      then show ?thesis using lines s by (simp add: str_lines_def ends_with_def)
    next
      case False
      have "\<not> str_contains [cr, nl] t"
        using "1.prems" str_contains_append2 [of "[cr, nl]" t "l @ [nl]"] s(1) by auto
      then have "join [nl] (str_lines t) @ (if ends_with [nl] t then [nl] else []) = t"
        using "1.IH" s(1) by simp
      moreover obtain x xs where "str_lines t = x # xs"
        using False str_lines_empty [of t] by (cases "str_lines t") auto
      ultimately show ?thesis using lines s(1) False by (simp add: ends_with_nl_append)
    qed
  qed
qed

subsection \<open>Properties\<close>

text \<open>C33. Elision is accounted for line by line, for every text: the original lines fall into
  chunks that are shown unchanged and in order, and non-empty regions that are each replaced
  by one marker line with the number of lines it stands for; the reported regions are exactly
  these, with their original one-based line range. Putting the regions back where the markers
  stand gives every line of the file.\<close>

theorem strip_noise_accounts_for_lines:
  "\<exists>segs tail.
     str_lines content = original_lines segs @ tail \<and>
     str_content (strip_noise content) =
       join [nl] (shown_lines segs @ tail) @ (if ends_with [nl] content then [nl] else []) \<and>
     str_regions (strip_noise content) = segment_rows 0 segs \<and>
     list_all (\<lambda>(c, r, k). r \<noteq> []) segs"
proof -
  define lines where "lines = str_lines content"
  define ks where "ks = keep_regions [] (sort_key fst (all_regions lines))"
  have rf: "regions_from (length lines) 0 ks" unfolding ks_def by (rule kept_regions)
  have "emit lines 0 ks ([], True) [] =
      (fold push_line (shown_lines (segments_of lines 0 ks) @ rest_after lines 0 ks) ([], True),
       map region_row ks)"
    using emit_segments [OF rf] by simp
  then have "str_content (strip_noise content) =
      join [nl] (shown_lines (segments_of lines 0 ks) @ rest_after lines 0 ks) @
        (if ends_with [nl] content then [nl] else [])"
    "str_regions (strip_noise content) = segment_rows 0 (segments_of lines 0 ks)"
    by (simp_all add: strip_noise_def Let_def lines_def [symmetric] ks_def [symmetric]
        push_lines_join(2) [symmetric] segments_rows [OF rf] split: prod.split)
  moreover have "lines = original_lines (segments_of lines 0 ks) @ rest_after lines 0 ks"
    using segments_original [OF rf] by simp
  moreover have "list_all (\<lambda>(c, r, k). r \<noteq> []) (segments_of lines 0 ks)"
    using segments_nonempty [OF rf] by (auto simp: list_all_iff)
  ultimately show ?thesis unfolding lines_def by blast
qed

text \<open>A text in which nothing is elided comes back byte for byte, unless it has a CR LF line
  end; and then the result is the text with its line ends rewritten to LF.\<close>

theorem strip_noise_identity:
  assumes "str_regions (strip_noise content) = []"
  shows "str_content (strip_noise content) =
           join [nl] (str_lines content) @ (if ends_with [nl] content then [nl] else []) \<and>
         (\<not> str_contains [cr, nl] content \<longrightarrow> str_content (strip_noise content) = content)"
proof -
  define lines where "lines = str_lines content"
  define ks where "ks = keep_regions [] (sort_key fst (all_regions lines))"
  have rf: "regions_from (length lines) 0 ks" unfolding ks_def by (rule kept_regions)
  have e: "emit lines 0 ks ([], True) [] =
      (fold push_line (shown_lines (segments_of lines 0 ks) @ rest_after lines 0 ks) ([], True),
       map region_row ks)"
    using emit_segments [OF rf] by simp
  then have "map region_row ks = []" using assms
    by (simp add: strip_noise_def Let_def lines_def [symmetric] ks_def [symmetric] split: prod.splits)
  then have "ks = []" by simp
  then have "emit lines 0 ks ([], True) [] = (fold push_line lines ([], True), [])"
    using e by (simp add: shown_lines_def)
  then have "str_content (strip_noise content) =
      join [nl] lines @ (if ends_with [nl] content then [nl] else [])"
    by (simp add: strip_noise_def Let_def lines_def [symmetric] ks_def [symmetric]
        push_lines_join(2) [symmetric] split: prod.split)
  then show ?thesis using join_str_lines [of content] unfolding lines_def by auto
qed

theorem strip_noise_identity_witness:
  "str_content (strip_noise (''a'' @ [nl])) = ''a'' @ [nl]"
proof -
  have "str_regions (strip_noise (''a'' @ [nl])) = []"
    by (simp add: strip_noise_def Let_def str_lines_def strip_line_end_def all_regions_def
        detect_license_header_def detect_generated_body_def GENERATED_MIN_FILE_LINES_def
        detect_base64_blobs_def base64_from.simps is_base64_line_def BASE64_MIN_WIDTH_def
        comment_style_def starts_with_def blank_def trim_def trim_end_def trim_start.simps
        trim_back.simps ws_len_def ws_len_back_def byte_def emit.simps push_line_def)
  moreover have "\<not> str_contains [cr, nl] (''a'' @ [nl])" by (simp add: starts_with_def)
  ultimately show ?thesis using strip_noise_identity by blast
qed

end
