(* ===== verification/Files.thy ===== *)
theory Files
  imports Changelog Paths Patch Strip_Noise
begin

text \<open>
  The file handlers of \<^verbatim>\<open>src/crates/daemon/src/handlers.rs\<close> (reading, patching, replacing, the change-log
  queries) and \<open>resolve_within\<close> of \<^verbatim>\<open>src/crates/daemon/src/server.rs\<close>.

  The operating system is a parameter \<open>Os\<close>: \<open>canonicalize\<close> (which resolves symbolic links)
  and the base64 encoder of an external crate. A canonical path is the list of its
  components. The mutable part is \<open>FsState\<close>: the files, the clock that stamps writes, and
  the change log. A handler takes decoded parameters; \<open>json_handler\<close> adds the decoding of the
  request parameters and the encoding of the result, both parameters of the model.
\<close>

subsection \<open>Files\<close>

text \<open>Why a write can fail: before the file is truncated, or after some bytes have been
  written. \<open>fl_mtime\<close> is nanoseconds since the epoch, if there is such a time.\<close>

datatype write_fault = Open_Fault string | Write_Fault nat string

record file_node =
  fl_bytes :: string
  fl_mtime :: "nat option"
  fl_stat_fault :: "string option"
  fl_read_fault :: "string option"
  fl_mmap_fault :: "string option"
  fl_write_fault :: "write_fault option"

type_synonym path = "string list"

record Os =
  os_canonicalize :: "string \<Rightarrow> (path, string) res"
  os_base64 :: "string \<Rightarrow> string"

record FsState =
  st_root :: path
  st_files :: "path \<Rightarrow> file_node option"
  st_now :: "nat option"
  st_changelog :: ChangeLog

definition not_found :: string where
  "not_found = ''No such file or directory (os error 2)''"

definition fs_open :: "path \<Rightarrow> FsState \<Rightarrow> (file_node, string) res" where
  "fs_open p st =
     (case st_files st p of
        None \<Rightarrow> Err not_found
      | Some f \<Rightarrow> (case fl_read_fault f of Some e \<Rightarrow> Err e | None \<Rightarrow> Ok f))"

definition fs_metadata :: "path \<Rightarrow> FsState \<Rightarrow> (file_node, string) res" where
  "fs_metadata p st =
     (case st_files st p of
        None \<Rightarrow> Err not_found
      | Some f \<Rightarrow> (case fl_stat_fault f of Some e \<Rightarrow> Err e | None \<Rightarrow> Ok f))"

definition fs_read_to_string :: "path \<Rightarrow> FsState \<Rightarrow> (string, string) res" where
  "fs_read_to_string p st =
     res_bind (fs_open p st) (\<lambda>f.
       if valid_utf8 (fl_bytes f) then Ok (fl_bytes f)
       else Err ''stream did not contain valid UTF-8'')"

definition fs_write :: "path \<Rightarrow> string \<Rightarrow> FsState \<Rightarrow> (unit, string) res \<times> FsState" where
  "fs_write p bytes st =
     (let f = (case st_files st p of
                 Some f \<Rightarrow> f
               | None \<Rightarrow> \<lparr>fl_bytes = [], fl_mtime = None, fl_stat_fault = None, fl_read_fault = None,
                          fl_mmap_fault = None, fl_write_fault = None\<rparr>);
          put = (\<lambda>b. st\<lparr>st_files := (st_files st)(p \<mapsto> f\<lparr>fl_bytes := b, fl_mtime := st_now st\<rparr>)\<rparr>)
      in case fl_write_fault f of
           None \<Rightarrow> (Ok (), put bytes)
         | Some (Open_Fault e) \<Rightarrow> (Err e, st)
         | Some (Write_Fault n e) \<Rightarrow> (Err e, put (take n bytes)))"

subsection \<open>Paths within the root\<close>

definition path_str :: "path \<Rightarrow> string" where
  "path_str p = ''/'' @ join ''/'' p"

definition resolve_within :: "Os \<Rightarrow> path \<Rightarrow> string \<Rightarrow> path rpc" where
  "resolve_within os root candidate =
     (let joined = (if is_absolute candidate then candidate
                    else path_join (path_str root) candidate)
      in case os_canonicalize os joined of
           Err e \<Rightarrow> Err (rpc_error (-32001) (''canonicalize '' @ candidate @ '': '' @ e))
         | Panic m \<Rightarrow> Panic m
         | Ok canon \<Rightarrow>
             if \<not> prefix root canon
             then Err (rpc_error (-32002) (''path escapes root: '' @ path_str canon))
             else Ok canon)"

definition map_err :: "int \<Rightarrow> string \<Rightarrow> ('a, string) res \<Rightarrow> 'a rpc" where
  "map_err code what r =
     (case r of Ok a \<Rightarrow> Ok a | Err e \<Rightarrow> Err (rpc_error code (what @ e)) | Panic m \<Rightarrow> Panic m)"

definition metadata_mtime_ns :: "file_node \<Rightarrow> nat" where
  "metadata_mtime_ns f = (case fl_mtime f of Some t \<Rightarrow> min t (2 ^ 64 - 1) | None \<Rightarrow> 0)"

subsection \<open>Reading\<close>

definition FS_READ_DEFAULT_LIMIT :: nat where
  "FS_READ_DEFAULT_LIMIT = 256 * 1024"

definition read_encoding :: "FsReadParams \<Rightarrow> string option" where
  "read_encoding params = Some (if frp_binary params then ''base64'' else ''utf8_lossy'')"

definition fs_read_inner :: "Os \<Rightarrow> FsReadParams \<Rightarrow> FsState \<Rightarrow> FsReadResult rpc" where
  "fs_read_inner os params st =
     res_bind (resolve_within os (st_root st) (frp_path params)) (\<lambda>path.
     res_bind (map_err (-32010) ''open: '' (fs_open path st)) (\<lambda>f.
     res_bind (map_err (-32011) ''stat: ''
                 (case fl_stat_fault f of Some e \<Rightarrow> Err e | None \<Rightarrow> Ok f)) (\<lambda>metadata.
       let total_size = length (fl_bytes metadata);
           mtime_ns = metadata_mtime_ns metadata;
           version = fst (changelog_snapshot (st_changelog st))
       in if total_size = 0
          then Ok \<lparr>frr_path = frp_path params, frr_version = version, frr_mtime_ns = mtime_ns,
                   frr_bytes_read = 0, frr_total_size = 0, frr_content = [],
                   frr_encoding = read_encoding params, frr_truncated = False,
                   frr_stripped_regions = []\<rparr>
          else
     res_bind (map_err (-32012) ''mmap: ''
                 (case fl_mmap_fault f of Some e \<Rightarrow> Err e | None \<Rightarrow> Ok (fl_bytes f))) (\<lambda>mmap.
       let offset = min (frp_offset params) total_size;
           remaining = total_size - offset;
           limit = min (case frp_length params of Some n \<Rightarrow> n | None \<Rightarrow> FS_READ_DEFAULT_LIMIT)
                     remaining;
           fin = offset + limit;
           slice = take (fin - offset) (drop offset mmap);
           content = (if frp_binary params then os_base64 os slice else from_utf8_lossy slice);
           truncated = fin < total_size;
           (content', regions) =
             (if frp_strip_noise params \<and> \<not> frp_binary params \<and> frp_offset params = 0
              then (str_content (strip_noise content), str_regions (strip_noise content))
              else (content, []))
       in Ok \<lparr>frr_path = frp_path params, frr_version = version, frr_mtime_ns = mtime_ns,
              frr_bytes_read = limit, frr_total_size = total_size, frr_content = content',
              frr_encoding = read_encoding params, frr_truncated = truncated,
              frr_stripped_regions = regions\<rparr>))))"

definition fs_read_batch :: "Os \<Rightarrow> FsReadBatchParams \<Rightarrow> FsState \<Rightarrow> FsReadBatchResult rpc" where
  "fs_read_batch os params st =
     (let items = map (\<lambda>req. (frp_path req, fs_read_inner os req st)) (frbp_requests params)
      in case find (\<lambda>(_, r). case r of Panic _ \<Rightarrow> True | _ \<Rightarrow> False) items of
           Some (_, Panic m) \<Rightarrow> Panic m
         | _ \<Rightarrow>
             Ok \<lparr>frbr_responses = map (\<lambda>(path, r).
                   \<lparr>frbi_path = path,
                    frbi_result = (case r of Ok x \<Rightarrow> Some x | _ \<Rightarrow> None),
                    frbi_error = (case r of Err e \<Rightarrow> Some e | _ \<Rightarrow> None)\<rparr>) items\<rparr>)"

subsection \<open>The change log\<close>

definition fs_snapshot :: "FsState \<Rightarrow> FsSnapshotResult rpc" where
  "fs_snapshot st =
     (case changelog_snapshot (st_changelog st) of
        (version, oldest_retained) \<Rightarrow>
          Ok \<lparr>fsnr_version = version, fsnr_capacity = cl_capacity (st_changelog st),
              fsnr_oldest_retained = oldest_retained\<rparr>)"

definition fs_changes :: "FsChangesParams \<Rightarrow> FsState \<Rightarrow> FsChangesResult rpc" where
  "fs_changes params st =
     (case changes_since (fchp_since params) (st_changelog st) of
        (version, changes, overflowed) \<Rightarrow>
          Ok \<lparr>fchr_version = version, fchr_changes = changes, fchr_overflowed = overflowed\<rparr>)"

subsection \<open>Writing\<close>

definition check_write_preconditions ::
  "path \<Rightarrow> nat option \<Rightarrow> nat option \<Rightarrow> FsState \<Rightarrow> unit rpc" where
  "check_write_preconditions path expected_version expected_mtime_ns st =
     res_bind
       (case expected_version of
          None \<Rightarrow> Ok ()
        | Some expected \<Rightarrow>
            (let current = fst (changelog_snapshot (st_changelog st))
             in if current \<noteq> expected
                then Err (rpc_error (-32082)
                       (''stale write: expected version '' @ dec_of_nat expected @
                        '', current version '' @ dec_of_nat current))
                else Ok ()))
       (\<lambda>_. case expected_mtime_ns of
          None \<Rightarrow> Ok ()
        | Some expected \<Rightarrow>
            res_bind (map_err (-32011) ''stat: '' (fs_metadata path st)) (\<lambda>metadata.
              let current = metadata_mtime_ns metadata
              in if current \<noteq> expected
                 then Err (rpc_error (-32083)
                        (''stale write: expected mtime_ns '' @ dec_of_nat expected @
                         '', current mtime_ns '' @ dec_of_nat current))
                 else Ok ()))"

definition write_file_checked :: "path \<Rightarrow> string \<Rightarrow> FsState \<Rightarrow> unit rpc \<times> FsState" where
  "write_file_checked path bytes st =
     (case fs_write path bytes st of (r, st') \<Rightarrow> (map_err (-32081) ''write: '' r, st'))"

definition relative_str :: "path \<Rightarrow> path \<Rightarrow> string" where
  "relative_str root path =
     from_utf8_lossy (if prefix root path then join ''/'' (drop (length root) path) else path_str path)"

definition record_daemon_write :: "path \<Rightarrow> FsState \<Rightarrow> FsState" where
  "record_daemon_write path st =
     st\<lparr>st_changelog :=
         changelog_record (relative_str (st_root st) path) Modified (st_changelog st)\<rparr>"

text \<open>Sequencing of stateful steps: a failing step ends the handler in the state it left.\<close>

definition and_then ::
  "'a rpc \<times> 's \<Rightarrow> ('a \<Rightarrow> 's \<Rightarrow> 'b rpc \<times> 's) \<Rightarrow> 'b rpc \<times> 's" where
  "and_then x f =
     (case x of
        (Ok a, s) \<Rightarrow> f a s
      | (Err e, s) \<Rightarrow> (Err e, s)
      | (Panic m, s) \<Rightarrow> (Panic m, s))"

text \<open>Both handlers first compute what to write, without touching anything (\<open>patch_plan\<close>,
  \<open>replace_plan\<close>), then write and record the change, then stat the file for the result.\<close>

definition commit_write :: "path \<Rightarrow> string \<Rightarrow> FsState \<Rightarrow> unit rpc \<times> FsState" where
  "commit_write path bytes st =
     and_then (write_file_checked path bytes st) (\<lambda>_ st. (Ok (), record_daemon_write path st))"

definition patch_plan :: "Os \<Rightarrow> FsApplyPatchParams \<Rightarrow> FsState \<Rightarrow> (path \<times> string) rpc" where
  "patch_plan os params st =
     res_bind (resolve_within os (st_root st) (fapp_path params)) (\<lambda>path.
     res_bind (check_write_preconditions path (fapp_expected_version params)
                 (fapp_expected_mtime_ns params) st) (\<lambda>_.
     res_bind (map_err (-32080) ''read: '' (fs_read_to_string path st)) (\<lambda>content.
     res_bind (apply_unified_patch content (fapp_patch params)) (\<lambda>patched.
       Ok (path, patched)))))"

definition fs_apply_patch ::
  "Os \<Rightarrow> FsApplyPatchParams \<Rightarrow> FsState \<Rightarrow> FsApplyPatchResult rpc \<times> FsState" where
  "fs_apply_patch os params st =
     and_then (patch_plan os params st, st) (\<lambda>(path, patched) st.
     and_then (commit_write path patched st) (\<lambda>_ st.
     and_then (map_err (-32011) ''stat: '' (fs_metadata path st), st) (\<lambda>metadata st.
       (Ok \<lparr>fapr_path = fapp_path params, fapr_applied = True,
            fapr_version = fst (changelog_snapshot (st_changelog st)),
            fapr_mtime_ns = metadata_mtime_ns metadata\<rparr>, st))))"

definition replace_plan :: "Os \<Rightarrow> FsReplaceAllParams \<Rightarrow> FsState \<Rightarrow> (path \<times> nat \<times> string) rpc" where
  "replace_plan os params st =
     (if frap_search params = [] then Err (rpc_error (-32602) ''search must not be empty'')
      else
     res_bind (resolve_within os (st_root st) (frap_path params)) (\<lambda>path.
     res_bind (check_write_preconditions path (frap_expected_version params)
                 (frap_expected_mtime_ns params) st) (\<lambda>_.
     res_bind (map_err (-32080) ''read: '' (fs_read_to_string path st)) (\<lambda>content.
     let replacements = matches_count (frap_search params) content
     in res_bind
          (case frap_max_replacements params of
             Some m \<Rightarrow>
               if m < replacements
               then Err (rpc_error (-32086)
                      (''replacement count '' @ dec_of_nat replacements @
                       '' exceeds max_replacements '' @ dec_of_nat m))
               else Ok ()
           | None \<Rightarrow> Ok ()) (\<lambda>_.
        Ok (path, replacements,
            str_replace (frap_search params) (frap_replacement params) content))))))"

definition fs_replace_all ::
  "Os \<Rightarrow> FsReplaceAllParams \<Rightarrow> FsState \<Rightarrow> FsReplaceAllResult rpc \<times> FsState" where
  "fs_replace_all os params st =
     and_then (replace_plan os params st, st) (\<lambda>(path, replacements, replaced) st.
     and_then (if 0 < replacements then commit_write path replaced st else (Ok (), st)) (\<lambda>_ st.
     and_then (map_err (-32011) ''stat: '' (fs_metadata path st), st) (\<lambda>metadata st.
       (Ok \<lparr>frar_path = frap_path params, frar_replacements = replacements,
            frar_version = fst (changelog_snapshot (st_changelog st)),
            frar_mtime_ns = metadata_mtime_ns metadata\<rparr>, st))))"

subsection \<open>Handlers on JSON\<close>

definition json_handler ::
  "(json \<Rightarrow> ('p, string) res) \<Rightarrow> ('r \<Rightarrow> json) \<Rightarrow> ('p \<Rightarrow> 's \<Rightarrow> 'r rpc \<times> 's) \<Rightarrow>
     json \<Rightarrow> 's \<Rightarrow> json rpc \<times> 's" where
  "json_handler dec enc h params s =
     and_then (map_err (-32602) ''invalid params: '' (dec params), s) (\<lambda>p s.
     and_then (h p s) (\<lambda>r s. (Ok (enc r), s)))"

subsection \<open>Lemmas\<close>

lemma resolve_within_Ok: "resolve_within os root c = Ok p \<Longrightarrow> prefix root p"
  by (auto simp: resolve_within_def Let_def split: res.splits if_splits)

lemma and_then_simps [simp]:
  "and_then (Ok a, s) f = f a s" "and_then (Err e, s) f = (Err e, s)"
  "and_then (Panic m, s) f = (Panic m, s)"
  by (simp_all add: and_then_def)

lemma and_then_cases:
  obtains a s where "x = (Ok a, s)" "and_then x f = f a s"
  | s where "snd (and_then x f) = snd x" "\<forall>a. fst x \<noteq> Ok a" "\<forall>b. fst (and_then x f) \<noteq> Ok b"
      "\<And>e. fst (and_then x f) = Err e \<Longrightarrow> fst x = Err e"
proof (cases x)
  case (Pair r s)
  then show thesis using that by (cases r) auto
qed

lemma and_then_Ok_iff:
  "and_then x f = (Ok b, s') \<longleftrightarrow> (\<exists>a s. x = (Ok a, s) \<and> f a s = (Ok b, s'))"
  by (cases x; cases "fst x") auto

lemma and_then_inv:
  assumes "I (snd x)" "\<And>a s. x = (Ok a, s) \<Longrightarrow> I s \<Longrightarrow> I (snd (f a s))"
  shows "I (snd (and_then x f))"
  using assms by (cases x; cases "fst x") auto

lemma and_then_pure: "snd (and_then (r, s) (\<lambda>m st. (Ok (w m st), st))) = s"
  by (cases r) simp_all

lemma map_err_Ok [simp]: "map_err c w r = Ok a \<longleftrightarrow> r = Ok a"
  by (cases r) (simp_all add: map_err_def)

lemma map_err_code: "map_err c w r = Err e \<Longrightarrow> err_code e = c"
  by (cases r) (auto simp: map_err_def)

lemma fs_write_frame:
  "fs_write p b st = (r, st') \<Longrightarrow>
     st_root st' = st_root st \<and> st_changelog st' = st_changelog st \<and> st_now st' = st_now st \<and>
     (\<forall>q. q \<noteq> p \<longrightarrow> st_files st' q = st_files st q)"
  by (auto simp: fs_write_def Let_def split: option.splits write_fault.splits)

lemma write_file_checked_frame:
  "write_file_checked p b st = (r, st') \<Longrightarrow>
     st_root st' = st_root st \<and> st_changelog st' = st_changelog st \<and> st_now st' = st_now st \<and>
     (\<forall>q. q \<noteq> p \<longrightarrow> st_files st' q = st_files st q)"
  using fs_write_frame by (fastforce simp: write_file_checked_def split: prod.splits)

lemma write_file_checked_code:
  "write_file_checked p b st = (Err e, st') \<Longrightarrow> err_code e = -32081"
  by (auto simp: write_file_checked_def split: prod.splits dest: map_err_code)

lemma commit_write_code: "commit_write p b st = (Err e, st') \<Longrightarrow> err_code e = -32081"
  unfolding commit_write_def
  by (cases "write_file_checked p b st"; cases "fst (write_file_checked p b st)")
    (auto dest: write_file_checked_code)

text \<open>The shape both handlers have: plan, commit, stat.\<close>

lemma plan_commit_unchanged:
  assumes "\<And>a. plan = Ok a \<Longrightarrow> \<exists>p b g. commit a st = (if g then commit_write p b st else (Ok (), st))"
    and "fst (and_then (plan, st) (\<lambda>a st. and_then (commit a st) (\<lambda>_ st.
            and_then (map_err (-32011) ''stat: '' (fs_metadata (q a) st), st) (\<lambda>m st. (Ok (w a m st), st))))) = Err e"
    and "err_code e \<noteq> -32081" "err_code e \<noteq> -32011"
  shows "snd (and_then (plan, st) (\<lambda>a st. and_then (commit a st) (\<lambda>_ st.
            and_then (map_err (-32011) ''stat: '' (fs_metadata (q a) st), st) (\<lambda>m st. (Ok (w a m st), st))))) = st"
proof (cases plan)
  case (Ok a)
  from assms(1) [OF Ok] obtain p b g where
    c: "commit a st = (if g then commit_write p b st else (Ok (), st))" by blast
  obtain r st1 where rs: "commit a st = (r, st1)" by fastforce
  show ?thesis
  proof (cases r)
    case r: (Ok u)
    then show ?thesis using assms(2-4) Ok rs
      by (cases "map_err (-32011) ''stat: '' (fs_metadata (q a) st1)") (auto dest: map_err_code)
  next
    case (Err e')
    then show ?thesis using assms(2,3) Ok rs c commit_write_code
      by (cases g) auto
  qed (use assms(2) Ok rs in auto)
qed (use assms(2) in auto)

definition confined :: "path \<Rightarrow> (path \<Rightarrow> file_node option) \<Rightarrow> FsState \<Rightarrow> bool" where
  "confined root files st \<longleftrightarrow>
     st_root st = root \<and> (\<forall>q. \<not> prefix root q \<longrightarrow> st_files st q = files q)"

lemma confined_commit:
  "confined root files st \<Longrightarrow> prefix root p \<Longrightarrow> confined root files (snd (commit_write p b st))"
proof -
  assume c: "confined root files st" "prefix root p"
  obtain r st1 where w: "write_file_checked p b st = (r, st1)" by fastforce
  then have "confined root files st1"
    using c write_file_checked_frame [OF w] by (auto simp: confined_def)
  then show ?thesis
    by (cases r) (simp_all add: commit_write_def w record_daemon_write_def confined_def)
qed

lemma patch_plan_prefix: "patch_plan os params st = Ok (p, b) \<Longrightarrow> prefix (st_root st) p"
  by (auto simp: patch_plan_def res_simps dest: resolve_within_Ok)

lemma replace_plan_prefix: "replace_plan os params st = Ok (p, n, b) \<Longrightarrow> prefix (st_root st) p"
  by (auto simp: replace_plan_def res_simps Let_def dest: resolve_within_Ok split: if_splits)

lemma fs_apply_patch_confined:
  assumes "confined root files st"
  shows "confined root files (snd (fs_apply_patch os params st))"
proof (cases "patch_plan os params st")
  case (Ok pb)
  obtain p b where pb: "pb = (p, b)" by (cases pb)
  have "prefix root p" using patch_plan_prefix Ok pb assms by (auto simp: confined_def)
  then have "confined root files (snd (commit_write p b st))" by (rule confined_commit [OF assms])
  then show ?thesis unfolding fs_apply_patch_def Ok pb and_then_simps prod.case
    by (rule and_then_inv) (simp only: and_then_pure)
qed (use assms in \<open>simp_all add: fs_apply_patch_def\<close>)

lemma fs_replace_all_confined:
  assumes "confined root files st"
  shows "confined root files (snd (fs_replace_all os params st))"
proof (cases "replace_plan os params st")
  case (Ok pb)
  obtain p n b where pb: "pb = (p, n, b)" by (cases pb)
  have "prefix root p" using replace_plan_prefix Ok pb assms by (auto simp: confined_def)
  then have "confined root files (snd (commit_write p b st))" by (rule confined_commit [OF assms])
  then have "confined root files (snd (if 0 < n then commit_write p b st else (Ok (), st)))"
    using assms by simp
  then show ?thesis unfolding fs_replace_all_def Ok pb and_then_simps prod.case
    by (rule and_then_inv) (simp only: and_then_pure)
qed (use assms in \<open>simp_all add: fs_replace_all_def\<close>)

lemma fs_apply_patch_unchanged:
  "fst (fs_apply_patch os params st) = Err e \<Longrightarrow> err_code e \<noteq> -32081 \<Longrightarrow> err_code e \<noteq> -32011 \<Longrightarrow>
     snd (fs_apply_patch os params st) = st"
proof -
  have "\<exists>p b g. commit_write (fst a) (snd a) st = (if g then commit_write p b st else (Ok (), st))"
    for a by (rule exI [of _ "fst a"], rule exI [of _ "snd a"], rule exI [of _ True]) simp
  note step = plan_commit_unchanged
    [where commit = "\<lambda>a. commit_write (fst a) (snd a)" and q = fst and st = st, OF this]
  assume "fst (fs_apply_patch os params st) = Err e" "err_code e \<noteq> -32081" "err_code e \<noteq> -32011"
  then show ?thesis unfolding fs_apply_patch_def case_prod_beta by (rule step)
qed

lemma fs_replace_all_unchanged:
  "fst (fs_replace_all os params st) = Err e \<Longrightarrow> err_code e \<noteq> -32081 \<Longrightarrow> err_code e \<noteq> -32011 \<Longrightarrow>
     snd (fs_replace_all os params st) = st"
proof -
  have "\<exists>p b g. (if 0 < fst (snd a) then commit_write (fst a) (snd (snd a)) st else (Ok (), st)) =
      (if g then commit_write p b st else (Ok (), st))" for a :: "path \<times> nat \<times> string"
    by (rule exI [of _ "fst a"], rule exI [of _ "snd (snd a)"], rule exI [of _ "0 < fst (snd a)"]) simp
  note step = plan_commit_unchanged [where commit = "\<lambda>a st. if 0 < fst (snd a)
      then commit_write (fst a) (snd (snd a)) st else (Ok (), st)" and q = fst and st = st, OF this]
  assume "fst (fs_replace_all os params st) = Err e" "err_code e \<noteq> -32081" "err_code e \<noteq> -32011"
  then show ?thesis unfolding fs_replace_all_def case_prod_beta by (rule step)
qed

lemma stale_version:
  assumes "expected \<noteq> cl_version (st_changelog st)"
  shows "\<exists>e. check_write_preconditions p (Some expected) m st = Err e \<and> err_code e = -32082"
  using assms by (simp add: check_write_preconditions_def changelog_snapshot_def Let_def)

lemma patch_plan_stale:
  assumes "fapp_expected_version params = Some v" "v \<noteq> cl_version (st_changelog st)"
    and "resolve_within os (st_root st) (fapp_path params) = Ok p"
  shows "\<exists>e. patch_plan os params st = Err e \<and> err_code e = -32082"
  using stale_version [OF assms(2), of p "fapp_expected_mtime_ns params"] assms(1,3)
  by (auto simp: patch_plan_def)

lemma replace_plan_stale:
  assumes "frap_expected_version params = Some v" "v \<noteq> cl_version (st_changelog st)"
    and "resolve_within os (st_root st) (frap_path params) = Ok p" "frap_search params \<noteq> []"
  shows "\<exists>e. replace_plan os params st = Err e \<and> err_code e = -32082"
  using stale_version [OF assms(2), of p "frap_expected_mtime_ns params"] assms(1,3,4)
  by (auto simp: replace_plan_def)

lemma commit_write_Ok:
  assumes "commit_write p b st = (Ok (), st')" "st_files st p = Some f"
  shows "st' = st\<lparr>st_files := (st_files st)(p \<mapsto> f\<lparr>fl_bytes := b, fl_mtime := st_now st\<rparr>),
             st_changelog := changelog_record (relative_str (st_root st) p) Modified (st_changelog st)\<rparr>"
  using assms
  by (auto simp: commit_write_def and_then_Ok_iff write_file_checked_def fs_write_def Let_def
      record_daemon_write_def split: option.splits write_fault.splits prod.splits)

lemma fs_read_to_string_Ok:
  "fs_read_to_string p st = Ok c \<Longrightarrow> \<exists>f. st_files st p = Some f \<and> fl_bytes f = c"
  by (auto simp: fs_read_to_string_def fs_open_def res_simps split: option.splits if_splits)

lemma cl_version_record: "cl_version (changelog_record p k l) = u64_add (cl_version l) 1"
  by (auto simp: changelog_record_def Let_def split: list.split)

lemma u64_add_1_neq: "u64_add v 1 \<noteq> v"
proof (cases "v < 2 ^ 64 - 1")
  case False
  then show ?thesis by (cases "v = 2 ^ 64 - 1") (simp_all add: u64_add_def mod_less_eq_dividend)
qed (simp add: u64_add_def)

lemma changes_after_record:
  assumes "retains h log" "0 < cl_capacity log" "Suc (length h) < 2 ^ 64"
  shows "changes_since (cl_version log) (changelog_record p Modified log) =
    (Suc (cl_version log), [\<lparr>ce_path = p, ce_kind = Modified, ce_version = Suc (cl_version log)\<rparr>], False)"
proof -
  let ?e = "\<lparr>ce_path = p, ce_kind = Modified, ce_version = Suc (length h)\<rparr>"
  let ?log = "changelog_record p Modified log"
  have r: "retains (h @ [?e]) ?log" using retains_record [OF assms] .
  have v: "cl_version log = length h" and vs: "map ce_version h = map Suc [0..<length h]"
    using assms(1) by (simp_all add: retains_def)
  have "ce_version e \<le> length h" if "e \<in> set h" for e
  proof -
    have "ce_version e \<in> set (map Suc [0..<length h])" using that vs by (metis image_eqI set_map)
    then show ?thesis by auto
  qed
  then have "events_after (length h) h = []" by (auto simp: events_after_def not_less)
  then have ea: "events_after (length h) (h @ [?e]) = [?e]" by (simp add: events_after_def)
  have "coalesce [?e] = [?e]"
    by (simp add: coalesce_def last_of_def short_lived_def first_of_def)
  moreover have "cl_overflow_high_water ?log \<le> length h" "cl_version ?log = Suc (length h)"
    using r assms(2) by (simp_all add: retains_def)
  ultimately show ?thesis
    using changes_since_eq [OF retains_entries_sorted [OF r], of "length h"]
      events_after_retained [OF r, of "length h"] ea v r assms(2)
    by (simp add: retains_def)
qed

lemma fs_read_inner_agree:
  assumes "st_root st = st_root st'" "st_changelog st = st_changelog st'"
    and "\<forall>q. prefix (st_root st) q \<longrightarrow> st_files st q = st_files st' q"
  shows "fs_read_inner os params st = fs_read_inner os params st'"
proof (cases "resolve_within os (st_root st) (frp_path params)")
  case (Ok p)
  then have "fs_open p st = fs_open p st'"
    using assms(3) resolve_within_Ok by (simp add: fs_open_def)
  then show ?thesis using Ok assms(1,2) by (simp add: fs_read_inner_def)
qed (use assms(1) in \<open>simp_all add: fs_read_inner_def\<close>)

lemma replace_plan_Ok:
  assumes "replace_plan os params st = Ok (p, n, b)"
  obtains f where "prefix (st_root st) p" "st_files st p = Some f" "frap_search params \<noteq> []"
    "n = matches_count (frap_search params) (fl_bytes f)"
    "b = str_replace (frap_search params) (frap_replacement params) (fl_bytes f)"
    "\<And>m. frap_max_replacements params = Some m \<Longrightarrow> n \<le> m"
proof -
  obtain content where c: "fs_read_to_string p st = Ok content"
    "n = matches_count (frap_search params) content" "frap_search params \<noteq> []"
    "b = str_replace (frap_search params) (frap_replacement params) content"
    "\<forall>m < n. frap_max_replacements params \<noteq> Some m"
    using assms
    by (auto simp: replace_plan_def res_simps Let_def split: if_splits option.splits)
  obtain f where f: "st_files st p = Some f" "fl_bytes f = content"
    using fs_read_to_string_Ok [OF c(1)] by blast
  have "n \<le> m" if "frap_max_replacements params = Some m" for m
    using c(5) that by (meson not_le)
  then show thesis using that replace_plan_prefix [OF assms] f c(2-4) by blast
qed

lemma fs_read_slice:
  assumes "resolve_within os (st_root st) (frp_path params) = Ok p" "st_files st p = Some f"
    and "fl_read_fault f = None" "fl_stat_fault f = None" "fl_mmap_fault f = None"
    and "frp_binary params" "frp_offset params \<le> length (fl_bytes f)" "frp_length params = Some n"
    and "0 < length (fl_bytes f)"
  shows "\<exists>r. fs_read_inner os params st = Ok r \<and>
     frr_bytes_read r = min n (length (fl_bytes f) - frp_offset params) \<and>
     frr_content r = os_base64 os (take n (drop (frp_offset params) (fl_bytes f))) \<and>
     (frr_truncated r \<longleftrightarrow> frp_offset params + n < length (fl_bytes f))"
proof -
  let ?off = "frp_offset params" and ?size = "length (fl_bytes f)"
  have "take (min n (?size - ?off)) (drop ?off (fl_bytes f)) = take n (drop ?off (fl_bytes f))"
    by (metis length_drop min_def nle_le take_all)
  moreover have "?off + min n (?size - ?off) < ?size \<longleftrightarrow> ?off + n < ?size"
    using assms(7) by (auto simp: min_def)
  ultimately show ?thesis using assms
    by (simp add: fs_read_inner_def fs_open_def map_err_def Let_def min_def)
qed

text \<open>A client that pages through a file: read from an offset, advance by the bytes read, stop
  when the answer is not truncated.\<close>

fun read_pages ::
  "Os \<Rightarrow> (string \<Rightarrow> string) \<Rightarrow> string \<Rightarrow> nat \<Rightarrow> nat \<Rightarrow> nat \<Rightarrow> FsState \<Rightarrow> string rpc" where
  "read_pages os dec path n 0 off st = Ok []"
| "read_pages os dec path n (Suc fuel) off st =
     res_bind (fs_read_inner os \<lparr>frp_path = path, frp_offset = off, frp_length = Some n,
                                 frp_binary = True, frp_strip_noise = False\<rparr> st) (\<lambda>r.
       if frr_truncated r
       then res_bind (read_pages os dec path n fuel (off + frr_bytes_read r) st)
              (\<lambda>t. Ok (dec (frr_content r) @ t))
       else Ok (dec (frr_content r)))"

lemma read_pages_suffix:
  assumes "resolve_within os (st_root st) path = Ok p" "st_files st p = Some f"
    and "fl_read_fault f = None" "fl_stat_fault f = None" "fl_mmap_fault f = None"
    and "\<And>x. dec (os_base64 os x) = x" "0 < n" "0 < length (fl_bytes f)"
  shows "off \<le> length (fl_bytes f) \<Longrightarrow> length (fl_bytes f) - off < fuel \<Longrightarrow>
     read_pages os dec path n fuel off st = Ok (drop off (fl_bytes f))"
proof (induction fuel arbitrary: off)
  case (Suc fuel)
  let ?ps = "\<lparr>frp_path = path, frp_offset = off, frp_length = Some n, frp_binary = True,
              frp_strip_noise = False\<rparr>"
  obtain r where r: "fs_read_inner os ?ps st = Ok r"
    "frr_bytes_read r = min n (length (fl_bytes f) - off)"
    "frr_content r = os_base64 os (take n (drop off (fl_bytes f)))"
    "frr_truncated r \<longleftrightarrow> off + n < length (fl_bytes f)"
    using fs_read_slice [of os st ?ps p f n] assms Suc.prems(1) by auto
  show ?case
  proof (cases "off + n < length (fl_bytes f)")
    case True
    then have "read_pages os dec path n fuel (off + n) st = Ok (drop (off + n) (fl_bytes f))"
      using Suc.prems assms(7) by (intro Suc.IH) simp_all
    moreover have "drop off (fl_bytes f) =
        take n (drop off (fl_bytes f)) @ drop (off + n) (fl_bytes f)"
      by (metis add.commute append_take_drop_id drop_drop)
    moreover have "min n (length (fl_bytes f) - off) = n" using True by simp
    ultimately show ?thesis using r True assms(6) by (simp only: read_pages.simps res_bind.simps) simp
  next
    case False
    then have "take n (drop off (fl_bytes f)) = drop off (fl_bytes f)" by simp
    then show ?thesis using r False assms(6) by simp
  qed
qed simp

text \<open>A small concrete system, for evaluating the handlers.\<close>

definition demo_os :: Os where
  "demo_os = \<lparr>os_canonicalize = (\<lambda>s. Ok (filter (\<lambda>c. c \<noteq> []) (split_on (CHR ''/'') s))),
              os_base64 = (\<lambda>x. x)\<rparr>"

definition demo_file :: file_node where
  "demo_file = \<lparr>fl_bytes = ''a'' @ [nl], fl_mtime = Some 7, fl_stat_fault = None,
     fl_read_fault = None, fl_mmap_fault = None, fl_write_fault = None\<rparr>"

definition demo_state :: FsState where
  "demo_state = \<lparr>st_root = [''r''], st_files = [[''r'', ''a''] \<mapsto> demo_file], st_now = Some 9,
     st_changelog = changelog_with_capacity 4\<rparr>"

definition demo_patch :: "string \<Rightarrow> nat option \<Rightarrow> FsApplyPatchParams" where
  "demo_patch path v = \<lparr>fapp_path = path,
     fapp_patch = hunk_header 1 1 1 2 @ '' a'' @ [nl] @ ''+b'' @ [nl],
     fapp_expected_version = v, fapp_expected_mtime_ns = None\<rparr>"

lemma demo_resolve:
  "resolve_within demo_os [''r''] ''a'' = Ok [''r'', ''a'']"
  "resolve_within demo_os [''r''] ''/etc/b'' =
     Err (rpc_error (-32002) ''path escapes root: /etc/b'')"
  by (simp_all add: resolve_within_def demo_os_def is_absolute_def starts_with_def path_join_def
      path_str_def ends_with_def Let_def)

lemma demo_valid: "valid_utf8 (''a'' @ [nl])"
  by (rule valid_utf8_ascii) (simp add: byte_def)

lemma demo_apply:
  "apply_unified_patch (''a'' @ [nl]) (hunk_header 1 1 1 2 @ '' a'' @ [nl] @ ''+b'' @ [nl]) =
     Ok (''a'' @ [nl] @ ''b'' @ [nl])"
  by (rule apply_one_hunk)
    (simp_all add: classify_def starts_with_def is_char_boundary_def is_cont_def byte_def usize_max_def)

definition demo_state1 :: FsState where
  "demo_state1 = demo_state\<lparr>
     st_files := [[''r'', ''a''] \<mapsto> demo_file\<lparr>fl_bytes := ''a'' @ [nl] @ ''b'' @ [nl], fl_mtime := Some 9\<rparr>],
     st_changelog := changelog_record (from_utf8_lossy ''a'') Modified (changelog_with_capacity 4)\<rparr>"

lemma demo_run:
  "v = None \<or> v = Some 0 \<Longrightarrow> fs_apply_patch demo_os (demo_patch ''a'' v) demo_state =
     (Ok \<lparr>fapr_path = ''a'', fapr_applied = True, fapr_version = 1, fapr_mtime_ns = 9\<rparr>, demo_state1)"
  using demo_resolve demo_valid demo_apply
  by (auto simp: fs_apply_patch_def patch_plan_def demo_patch_def demo_state_def demo_state1_def
      check_write_preconditions_def changelog_snapshot_def changelog_with_capacity_def
      fs_read_to_string_def fs_open_def demo_file_def map_err_def commit_write_def
      write_file_checked_def fs_write_def record_daemon_write_def relative_str_def fs_metadata_def
      metadata_mtime_ns_def changelog_record_def Let_def)

subsection \<open>Properties\<close>

text \<open>Writes are confined to the project root: whatever the parameters, the patch and the
  symbolic links are, neither \<open>fs.apply_patch\<close> nor \<open>fs.replace_all\<close> changes a file whose
  canonical path is outside the root, nor the root itself.\<close>

theorem writes_confined_to_root:
  "\<not> prefix (st_root st) q \<Longrightarrow>
     st_files (snd (fs_apply_patch os pp st)) q = st_files st q \<and>
     st_files (snd (fs_replace_all os rp st)) q = st_files st q \<and>
     st_root (snd (fs_apply_patch os pp st)) = st_root st \<and>
     st_root (snd (fs_replace_all os rp st)) = st_root st"
  using fs_apply_patch_confined [of "st_root st" "st_files st" st os pp]
    fs_replace_all_confined [of "st_root st" "st_files st" st os rp]
  by (simp add: confined_def)

theorem writes_confined_to_root_witness:
  "st_files (snd (fs_apply_patch demo_os (demo_patch ''/etc/b'' None) demo_state)) [''etc'', ''b''] = None"
  using writes_confined_to_root [of demo_state "[''etc'', ''b'']" demo_os "demo_patch ''/etc/b'' None"]
  by (simp add: demo_state_def)

text \<open>Reads are confined to the project root: the answer of \<open>fs.read\<close> (errors included) is a
  function of the files under the root, so two systems that differ only outside it cannot be
  told apart.\<close>

theorem reads_confined_to_root:
  assumes "st_root st = st_root st'" "st_changelog st = st_changelog st'"
    and "\<forall>q. prefix (st_root st) q \<longrightarrow> st_files st q = st_files st' q"
  shows "fs_read_inner os params st = fs_read_inner os params st' \<and>
         fs_read_batch os batch st = fs_read_batch os batch st'"
  using fs_read_inner_agree [OF assms] by (simp add: fs_read_batch_def)

theorem reads_confined_to_root_witness:
  "let ps = \<lparr>frp_path = ''a'', frp_offset = 0, frp_length = None, frp_binary = False,
             frp_strip_noise = True\<rparr>
   in fs_read_inner demo_os ps demo_state =
      fs_read_inner demo_os ps (demo_state\<lparr>st_files := (st_files demo_state)([''etc''] \<mapsto> demo_file)\<rparr>)"
  unfolding Let_def
  by (rule conjunct1 [OF reads_confined_to_root]) (simp_all add: demo_state_def)

text \<open>C22. A write request that is refused changes nothing: with any error other than a failing
  write or stat call (stale version or time stamp, path outside the root, unreadable file,
  patch that does not apply, too many replacements, ...) files, change log and clock are
  exactly as before.\<close>

theorem refused_write_changes_nothing:
  assumes "err_code e \<noteq> -32081" "err_code e \<noteq> -32011"
  shows "(fst (fs_apply_patch os pp st) = Err e \<longrightarrow> snd (fs_apply_patch os pp st) = st) \<and>
         (fst (fs_replace_all os rp st) = Err e \<longrightarrow> snd (fs_replace_all os rp st) = st)"
  using fs_apply_patch_unchanged fs_replace_all_unchanged assms by blast

theorem refused_write_changes_nothing_witness:
  "snd (fs_apply_patch demo_os (demo_patch ''/etc/b'' None) demo_state) = demo_state"
proof -
  let ?e = "rpc_error (-32002) ''path escapes root: /etc/b''"
  have "fst (fs_apply_patch demo_os (demo_patch ''/etc/b'' None) demo_state) = Err ?e"
    using demo_resolve(2)
    by (simp add: fs_apply_patch_def patch_plan_def demo_patch_def demo_state_def)
  then show ?thesis using refused_write_changes_nothing [of ?e] by simp
qed

text \<open>A successful \<open>fs.apply_patch\<close>: the file is under the root and now holds the patch
  applied to its previous contents, nothing else changed, the expected version (if given) was
  the current one, the version in the answer is the next one, and a client at the previous
  version sees exactly this modification.\<close>

theorem apply_patch_success:
  assumes "fs_apply_patch os params st = (Ok r, st')"
    and "retains h (st_changelog st)" "0 < cl_capacity (st_changelog st)" "Suc (length h) < 2 ^ 64"
  shows "\<exists>p f patched.
     prefix (st_root st) p \<and> st_files st p = Some f \<and>
     apply_unified_patch (fl_bytes f) (fapp_patch params) = Ok patched \<and>
     st_files st' = (st_files st)(p \<mapsto> f\<lparr>fl_bytes := patched, fl_mtime := st_now st\<rparr>) \<and>
     fapr_version r = Suc (cl_version (st_changelog st)) \<and>
     (\<forall>v. fapp_expected_version params = Some v \<longrightarrow> v = cl_version (st_changelog st)) \<and>
     changes_since (cl_version (st_changelog st)) (st_changelog st') =
       (fapr_version r,
        [\<lparr>ce_path = relative_str (st_root st) p, ce_kind = Modified, ce_version = fapr_version r\<rparr>],
        False)"
proof -
  obtain p patched st1 where plan: "patch_plan os params st = Ok (p, patched)"
    and c: "commit_write p patched st = (Ok (), st1)"
    and rest: "st' = st1" "fapr_version r = cl_version (st_changelog st1)"
    using assms(1)
    by (auto simp: fs_apply_patch_def and_then_Ok_iff changelog_snapshot_def split: prod.splits)
  obtain content where content: "fs_read_to_string p st = Ok content"
    "apply_unified_patch content (fapp_patch params) = Ok patched"
    and pre: "check_write_preconditions p (fapp_expected_version params)
      (fapp_expected_mtime_ns params) st = Ok ()"
    using plan by (auto simp: patch_plan_def res_simps)
  obtain f where f: "st_files st p = Some f" "fl_bytes f = content"
    using fs_read_to_string_Ok [OF content(1)] by blast
  have "v = cl_version (st_changelog st)" if "fapp_expected_version params = Some v" for v
    using stale_version [of v st p "fapp_expected_mtime_ns params"] pre that by auto
  then have "\<forall>v. fapp_expected_version params = Some v \<longrightarrow> v = cl_version (st_changelog st)" by blast
  moreover note commit_write_Ok [OF c f(1)] changes_after_record [OF assms(2-4)]
  moreover have "cl_version (st_changelog st1) = Suc (cl_version (st_changelog st))"
    using commit_write_Ok [OF c f(1)] assms(2,4) by (simp add: cl_version_record retains_def)
  ultimately show ?thesis
    using patch_plan_prefix [OF plan] f content(2) rest
    by (intro exI [of _ p] exI [of _ f] exI [of _ patched]) simp
qed

theorem apply_patch_success_witness:
  "\<exists>p f patched. st_files demo_state p = Some f \<and>
     st_files demo_state1 = (st_files demo_state)(p \<mapsto> f\<lparr>fl_bytes := patched, fl_mtime := Some 9\<rparr>)"
proof -
  have "retains [] (st_changelog demo_state)" "0 < cl_capacity (st_changelog demo_state)"
    by (simp_all add: demo_state_def retains_empty) (simp add: changelog_with_capacity_def)
  moreover have "st_now demo_state = Some 9" by (simp add: demo_state_def)
  ultimately show ?thesis
    using apply_patch_success [OF demo_run [of "Some 0"], of "[]"] by auto
qed



text \<open>A successful \<open>fs.replace_all\<close> replaces every non-overlapping occurrence, from left to
  right: it reports their number, which respects the given maximum, the length of the file
  changes accordingly, and when there is no occurrence nothing is written and no version is
  used.\<close>

theorem replace_all_success:
  assumes "fs_replace_all os params st = (Ok r, st')"
  shows "\<exists>p f. prefix (st_root st) p \<and> st_files st p = Some f \<and>
     frar_replacements r = matches_count (frap_search params) (fl_bytes f) \<and>
     (case frap_max_replacements params of Some m \<Rightarrow> frar_replacements r \<le> m | None \<Rightarrow> True) \<and>
     (if frar_replacements r = 0 then st' = st
      else \<exists>new. new = str_replace (frap_search params) (frap_replacement params) (fl_bytes f) \<and>
             st_files st' = (st_files st)(p \<mapsto> f\<lparr>fl_bytes := new, fl_mtime := st_now st\<rparr>) \<and>
             length new + length (frap_search params) * frar_replacements r =
               length (fl_bytes f) + length (frap_replacement params) * frar_replacements r \<and>
             cl_version (st_changelog st') = u64_add (cl_version (st_changelog st)) 1)"
proof -
  obtain p n b st1 where plan: "replace_plan os params st = Ok (p, n, b)"
    and c: "(if 0 < n then commit_write p b st else (Ok (), st)) = (Ok (), st1)"
    and rest: "st' = st1" "frar_replacements r = n"
    using assms by (auto simp: fs_replace_all_def and_then_Ok_iff split: prod.splits)
  from replace_plan_Ok [OF plan] obtain f where f: "prefix (st_root st) p" "st_files st p = Some f"
    "n = matches_count (frap_search params) (fl_bytes f)"
    "b = str_replace (frap_search params) (frap_replacement params) (fl_bytes f)"
    "\<And>m. frap_max_replacements params = Some m \<Longrightarrow> n \<le> m" by blast
  have m: "case frap_max_replacements params of Some m \<Rightarrow> frar_replacements r \<le> m | None \<Rightarrow> True"
    using f(5) rest(2) by (simp split: option.split)
  show ?thesis
  proof (cases "n = 0")
    case True
    then show ?thesis using c rest f(1-4) m by (intro exI [of _ p] exI [of _ f] conjI) simp_all
  next
    case False
    then have "commit_write p b st = (Ok (), st1)" using c by simp
    note st1 = commit_write_Ok [OF this f(2)]
    have "length b + length (frap_search params) * n =
        length (fl_bytes f) + length (frap_replacement params) * n"
      unfolding f(3,4) by (rule str_replace_length)
    then show ?thesis using False st1 rest f(1-4) m
      by (intro exI [of _ p] exI [of _ f] conjI) (simp_all add: cl_version_record)
  qed
qed

theorem replace_all_success_witness:
  "\<exists>p f. st_files demo_state p = Some f \<and> matches_count ''zz'' (fl_bytes f) = 0"
proof -
  let ?p = "\<lparr>frap_path = ''a'', frap_search = ''zz'', frap_replacement = ''y'',
    frap_expected_version = None, frap_expected_mtime_ns = None, frap_max_replacements = Some 3\<rparr>"
  have m: "matches_count ''zz'' (''a'' @ [nl]) = 0"
    by (simp add: matches_count.simps starts_with_def)
  have "fs_replace_all demo_os ?p demo_state =
      (Ok \<lparr>frar_path = ''a'', frar_replacements = 0, frar_version = 0, frar_mtime_ns = 7\<rparr>, demo_state)"
    using demo_resolve(1) demo_valid m
    by (simp add: fs_replace_all_def replace_plan_def demo_state_def check_write_preconditions_def
        fs_read_to_string_def fs_open_def demo_file_def map_err_def fs_metadata_def
        metadata_mtime_ns_def changelog_snapshot_def changelog_with_capacity_def Let_def)
  from replace_all_success [OF this] show ?thesis by auto
qed



end
