(* ===== verification/Metrics.thy ===== *)
theory Metrics
  imports Protocol
begin

text \<open>
  Per-tool counters, \<^verbatim>\<open>src/crates/daemon/src/metrics.rs\<close>. Recording takes the lock, looks for the tool,
  and if it is new releases the lock and takes it again to insert; a caller that lost the race
  starts over. The two critical sections are \<open>fast\<close> and \<open>slow\<close>; \<open>metrics_step\<close> interleaves
  any number of callers. Counters are 64-bit and wrap. The floating-point savings ratio is a
  parameter: a function of the two totals.
\<close>

subsection \<open>State and operations\<close>

record ToolCounter =
  tc_calls :: nat
  tc_raw_bytes :: nat
  tc_compacted_bytes :: nat
  tc_latency_calls :: nat
  tc_latency_sum_us :: nat
  tc_latency_max_us :: nat

definition zero_counter :: ToolCounter where
  "zero_counter = \<lparr>tc_calls = 0, tc_raw_bytes = 0, tc_compacted_bytes = 0, tc_latency_calls = 0,
     tc_latency_sum_us = 0, tc_latency_max_us = 0\<rparr>"

type_synonym ToolMetrics = "(string \<times> ToolCounter) list"

text \<open>The two kinds of call.\<close>

datatype metric_event =
  Bytes (ev_tool: string) (ev_raw: nat) (ev_compacted: nat)
| Latency (ev_tool: string) (ev_us: nat)

text \<open>\<open>update_max\<close> is a compare-and-swap loop that ends with the larger value.\<close>

definition update_max :: "nat \<Rightarrow> nat \<Rightarrow> nat" where
  "update_max current candidate = (if candidate > current then candidate else current)"

fun bump :: "metric_event \<Rightarrow> ToolCounter \<Rightarrow> ToolCounter" where
  "bump (Bytes t raw compacted) c =
     c\<lparr>tc_calls := u64_add (tc_calls c) 1, tc_raw_bytes := u64_add (tc_raw_bytes c) raw,
       tc_compacted_bytes := u64_add (tc_compacted_bytes c) compacted\<rparr>"
| "bump (Latency t us) c =
     c\<lparr>tc_latency_calls := u64_add (tc_latency_calls c) 1,
       tc_latency_sum_us := u64_add (tc_latency_sum_us c) us,
       tc_latency_max_us := update_max (tc_latency_max_us c) us\<rparr>"

fun first_counter :: "metric_event \<Rightarrow> ToolCounter" where
  "first_counter (Bytes t raw compacted) =
     zero_counter\<lparr>tc_calls := 1, tc_raw_bytes := raw, tc_compacted_bytes := compacted\<rparr>"
| "first_counter (Latency t us) =
     zero_counter\<lparr>tc_latency_calls := 1, tc_latency_sum_us := us, tc_latency_max_us := us\<rparr>"

definition has_tool :: "string \<Rightarrow> ToolMetrics \<Rightarrow> bool" where
  "has_tool tool m \<longleftrightarrow> list_ex (\<lambda>(k, _). k = tool) m"

fun bump_first :: "metric_event \<Rightarrow> ToolMetrics \<Rightarrow> ToolMetrics" where
  "bump_first ev [] = []"
| "bump_first ev ((k, c) # m) =
     (if k = ev_tool ev then (k, bump ev c) # m else (k, c) # bump_first ev m)"

definition record_fast :: "metric_event \<Rightarrow> ToolMetrics \<Rightarrow> ToolMetrics option" where
  "record_fast ev m = (if has_tool (ev_tool ev) m then Some (bump_first ev m) else None)"

definition record_slow :: "metric_event \<Rightarrow> ToolMetrics \<Rightarrow> ToolMetrics option" where
  "record_slow ev m = (if has_tool (ev_tool ev) m then None else Some (m @ [(ev_tool ev, first_counter ev)]))"

text \<open>A call without interference.\<close>

definition metrics_record :: "metric_event \<Rightarrow> ToolMetrics \<Rightarrow> ToolMetrics" where
  "metrics_record ev m =
     (case record_fast ev m of
        Some m' \<Rightarrow> m'
      | None \<Rightarrow> (case record_slow ev m of Some m' \<Rightarrow> m' | None \<Rightarrow> m))"

definition metrics_snapshot :: "(nat \<Rightarrow> nat \<Rightarrow> f64) \<Rightarrow> ToolMetrics \<Rightarrow> MetricsGainResult" where
  "metrics_snapshot ratio m =
     (let per_tool = sort_key (\<lambda>e. (- int (tge_raw_bytes e), tge_tool e))
            (map (\<lambda>(name, c). \<lparr>tge_tool = name, tge_calls = tc_calls c,
                    tge_raw_bytes = tc_raw_bytes c, tge_compacted_bytes = tc_compacted_bytes c\<rparr>) m);
          total_raw = sum_list (map tge_raw_bytes per_tool) mod 2 ^ 64;
          total_compacted = sum_list (map tge_compacted_bytes per_tool) mod 2 ^ 64
      in \<lparr>mgr_per_tool = per_tool, mgr_total_raw_bytes = total_raw,
          mgr_total_compacted_bytes = total_compacted,
          mgr_savings_ratio = ratio total_raw total_compacted\<rparr>)"

definition latency_entry :: "string \<times> ToolCounter \<Rightarrow> ToolLatencyEntry option" where
  "latency_entry nc =
     (case nc of (name, c) \<Rightarrow>
        if tc_latency_calls c = 0 then None
        else Some \<lparr>tle_tool = name, tle_calls = tc_latency_calls c,
                   tle_latency_sum_us = tc_latency_sum_us c,
                   tle_mean_us = tc_latency_sum_us c div tc_latency_calls c,
                   tle_max_us = tc_latency_max_us c\<rparr>)"

definition metrics_snapshot_latency :: "ToolMetrics \<Rightarrow> MetricsToolLatencyResult" where
  "metrics_snapshot_latency m =
     \<lparr>mtlr_per_tool = sort_key (\<lambda>e. (- int (tle_latency_sum_us e), tle_tool e))
        (List.map_filter latency_entry m)\<rparr>"

subsection \<open>Concurrent callers\<close>

text \<open>A caller is at its first or its second lock; a finished call leaves the pool and is noted
  in the history.\<close>

datatype phase = First | Second

inductive metrics_step ::
  "ToolMetrics \<times> (metric_event \<times> phase) list \<times> metric_event list \<Rightarrow>
   ToolMetrics \<times> (metric_event \<times> phase) list \<times> metric_event list \<Rightarrow> bool" where
  call: "metrics_step (m, ps, h) (m, ps @ [(ev, First)], h)"
| hit: "record_fast ev m = Some m' \<Longrightarrow>
     metrics_step (m, ps @ (ev, First) # qs, h) (m', ps @ qs, h @ [ev])"
| miss: "record_fast ev m = None \<Longrightarrow>
     metrics_step (m, ps @ (ev, First) # qs, h) (m, ps @ (ev, Second) # qs, h)"
| insert: "record_slow ev m = Some m' \<Longrightarrow>
     metrics_step (m, ps @ (ev, Second) # qs, h) (m', ps @ qs, h @ [ev])"
| lost: "record_slow ev m = None \<Longrightarrow>
     metrics_step (m, ps @ (ev, Second) # qs, h) (m, ps @ (ev, First) # qs, h)"

inductive metrics_reachable ::
  "ToolMetrics \<times> (metric_event \<times> phase) list \<times> metric_event list \<Rightarrow> bool" where
  start: "metrics_reachable ([], [], [])"
| step: "metrics_reachable s \<Longrightarrow> metrics_step s t \<Longrightarrow> metrics_reachable t"

subsection \<open>What the counters should be\<close>

definition events_of :: "string \<Rightarrow> metric_event list \<Rightarrow> metric_event list" where
  "events_of tool h = filter (\<lambda>ev. ev_tool ev = tool) h"

definition is_bytes :: "metric_event \<Rightarrow> bool" where
  "is_bytes ev = (case ev of Bytes _ _ _ \<Rightarrow> True | _ \<Rightarrow> False)"

definition expected_counter :: "metric_event list \<Rightarrow> ToolCounter" where
  "expected_counter evs =
     (let bs = filter is_bytes evs; ls = filter (\<lambda>ev. \<not> is_bytes ev) evs
      in \<lparr>tc_calls = length bs mod 2 ^ 64, tc_raw_bytes = sum_list (map ev_raw bs) mod 2 ^ 64,
          tc_compacted_bytes = sum_list (map ev_compacted bs) mod 2 ^ 64,
          tc_latency_calls = length ls mod 2 ^ 64,
          tc_latency_sum_us = sum_list (map ev_us ls) mod 2 ^ 64,
          tc_latency_max_us = fold max (map ev_us ls) 0\<rparr>)"

definition u64_event :: "metric_event \<Rightarrow> bool" where
  "u64_event ev \<longleftrightarrow>
     (case ev of Bytes _ r c \<Rightarrow> r < 2 ^ 64 \<and> c < 2 ^ 64 | Latency _ u \<Rightarrow> u < 2 ^ 64)"

subsection \<open>Lemmas\<close>

lemma record_sections:
  "record_fast ev m = Some m' \<Longrightarrow> metrics_record ev m = m'"
  "record_slow ev m = Some m' \<Longrightarrow> metrics_record ev m = m'"
  by (auto simp: metrics_record_def record_fast_def record_slow_def split: if_splits)

lemma has_tool_keys: "has_tool t m \<longleftrightarrow> t \<in> fst ` set m"
  by (force simp: has_tool_def list_ex_iff)

lemma keys_bump_first [simp]: "map fst (bump_first ev m) = map fst m"
  by (induction ev m rule: bump_first.induct) auto

lemma map_of_bump_first:
  "map_of (bump_first ev m) =
     (case map_of m (ev_tool ev) of
        None \<Rightarrow> map_of m | Some c \<Rightarrow> (map_of m)(ev_tool ev \<mapsto> bump ev c))"
  by (induction ev m rule: bump_first.induct) (auto split: option.splits simp: fun_eq_iff)

lemma metrics_record_eq:
  "metrics_record ev m =
     (if ev_tool ev \<in> fst ` set m then bump_first ev m else m @ [(ev_tool ev, first_counter ev)])"
  by (simp add: metrics_record_def record_fast_def record_slow_def has_tool_keys)

lemma distinct_record: "distinct (map fst m) \<Longrightarrow> distinct (map fst (metrics_record ev m))"
  by (auto simp: metrics_record_eq)

lemma map_of_record:
  "map_of (metrics_record ev m) =
     (map_of m)(ev_tool ev \<mapsto>
        (case map_of m (ev_tool ev) of None \<Rightarrow> first_counter ev | Some c \<Rightarrow> bump ev c))"
proof (cases "map_of m (ev_tool ev)")
  case None
  then have "ev_tool ev \<notin> fst ` set m" by (simp add: map_of_eq_None_iff)
  then show ?thesis using None
    by (auto simp: metrics_record_eq map_add_def fun_eq_iff split: option.splits)
next
  case (Some c)
  then have "ev_tool ev \<in> fst ` set m" by (metis domI dom_map_of_conv_image_fst)
  then show ?thesis using Some by (simp add: metrics_record_eq map_of_bump_first)
qed

lemma max_update: "update_max a b = max a b"
  by (simp add: update_max_def max_def)

lemma fold_max_snoc: "fold max (xs @ [x]) (a::nat) = max (fold max xs a) x"
  by (simp add: max.commute)

lemma expected_snoc: "bump ev (expected_counter evs) = expected_counter (evs @ [ev])"
  by (cases ev)
    (simp_all add: expected_counter_def Let_def is_bytes_def u64_add_def mod_simps max_update
      add.commute max.commute)

lemma expected_single: "u64_event ev \<Longrightarrow> first_counter ev = expected_counter [ev]"
  by (cases ev) (simp_all add: expected_counter_def Let_def is_bytes_def u64_event_def zero_counter_def)

lemma events_of_snoc:
  "events_of t (h @ [ev]) = (if ev_tool ev = t then events_of t h @ [ev] else events_of t h)"
  by (simp add: events_of_def)

lemma metrics_history:
  "list_all u64_event h \<Longrightarrow>
     distinct (map fst (fold metrics_record h [])) \<and>
     map_of (fold metrics_record h []) t =
       (if events_of t h = [] then None else Some (expected_counter (events_of t h)))"
proof (induction h arbitrary: t rule: rev_induct)
  case Nil
  then show ?case by (simp add: events_of_def)
next
  case (snoc ev h)
  let ?m = "fold metrics_record h []"
  have IH: "distinct (map fst ?m)"
    "map_of ?m t = (if events_of t h = [] then None else Some (expected_counter (events_of t h)))" for t
    using snoc by simp_all
  then show ?case
    using distinct_record [OF IH(1), of ev] snoc.prems
    by (simp add: map_of_record events_of_snoc expected_snoc expected_single)
qed

lemma metrics_reachable_history:
  "metrics_reachable (m, ps, h) \<Longrightarrow> m = fold metrics_record h []"
proof -
  have "metrics_reachable s \<Longrightarrow> fst s = fold metrics_record (snd (snd s)) []" for s
  proof (induction rule: metrics_reachable.induct)
    case (step s t)
    from step.hyps(2) step.IH show ?case
      by (cases rule: metrics_step.cases) (auto simp: record_sections)
  qed simp
  then show "metrics_reachable (m, ps, h) \<Longrightarrow> m = fold metrics_record h []" by fastforce
qed

subsection \<open>Properties\<close>

text \<open>C30. Every interleaving of concurrent callers counts every finished call exactly once:
  the table has one row per tool, and a tool's counters are the number of its calls, the sums of
  their bytes and latencies (modulo \<open>2 ^ 64\<close>) and the largest latency, as if the calls had run one
  after another; the gap between the two locks loses and duplicates nothing.\<close>

theorem metrics_count_every_call:
  assumes "metrics_reachable (m, ps, h)" "list_all u64_event h"
  shows "distinct (map fst m) \<and>
         map_of m tool =
           (if events_of tool h = [] then None else Some (expected_counter (events_of tool h)))"
  using metrics_history [OF assms(2)] metrics_reachable_history [OF assms(1)] by simp

theorem metrics_count_every_call_witness:
  "\<exists>m ps. metrics_reachable (m, ps, [Latency ''ping'' 5, Latency ''ping'' 3]) \<and>
     map_of m ''ping'' = Some (expected_counter [Latency ''ping'' 5, Latency ''ping'' 3])"
proof -
  let ?a = "Latency ''ping'' 5" and ?b = "Latency ''ping'' 3"
  let ?m1 = "[(''ping'', first_counter ?a)]"
  have s1: "metrics_step ([], [], []) ([], [(?a, First)], [])"
    using metrics_step.call [of "[]" "[]" "[]" ?a] by simp
  have s2: "metrics_step ([], [(?a, First)], []) ([], [(?a, Second)], [])"
    using metrics_step.miss [of ?a "[]" "[]" "[]" "[]"] by (simp add: record_fast_def has_tool_def)
  have s3: "metrics_step ([], [(?a, Second)], []) (?m1, [], [?a])"
    using metrics_step.insert [of ?a "[]" ?m1 "[]" "[]" "[]"]
    by (simp add: record_slow_def has_tool_def)
  have s4: "metrics_step (?m1, [], [?a]) (?m1, [(?b, First)], [?a])"
    using metrics_step.call [of ?m1 "[]" "[?a]" ?b] by simp
  have s5: "metrics_step (?m1, [(?b, First)], [?a]) (bump_first ?b ?m1, [], [?a, ?b])"
    using metrics_step.hit [of ?b ?m1 "bump_first ?b ?m1" "[]" "[]" "[?a]"]
    by (simp add: record_fast_def has_tool_def)
  note r = metrics_reachable.step [OF metrics_reachable.step [OF metrics_reachable.step
        [OF metrics_reachable.step [OF metrics_reachable.step [OF metrics_reachable.start s1] s2] s3] s4] s5]
  show ?thesis
    using metrics_count_every_call [OF r, of "''ping''"] r
    by (auto simp: u64_event_def events_of_def)
qed

end
