(* ===== verification/Pipe.thy ===== *)
theory Pipe
  imports Files
begin

text \<open>
  The \<open>pipe\<close> handler, \<^verbatim>\<open>src/crates/daemon/src/pipe.rs\<close>: a sequence of calls whose parameters may refer to
  earlier results, with a fan-out over the elements of a result.

  \<open>dispatch_method\<close> is an argument \<open>disp\<close> (the server instantiates it with its own), and so
  are the JSONPath engine of an external crate and the schedule of the fan-out: for \<open>n\<close>
  tasks, the order in which they run and the order in which they are joined, both
  permutations of \<open>0..<n\<close>. A task runs without interruption.
\<close>

subsection \<open>References\<close>

datatype RefRoot = Step nat | Item

text \<open>The \<open>Debug\<close> form of a string, exact on ASCII; other characters stand for themselves.\<close>

definition debug_char :: "char \<Rightarrow> string" where
  "debug_char c =
     (if c = CHR 0x22 then [CHR 0x5C, CHR 0x22]
      else if c = CHR 0x5C then [CHR 0x5C, CHR 0x5C]
      else if c = nl then [CHR 0x5C, CHR ''n'']
      else if c = cr then [CHR 0x5C, CHR ''r'']
      else if c = CHR 0x09 then [CHR 0x5C, CHR ''t'']
      else if c = CHR 0x00 then [CHR 0x5C, CHR ''0'']
      else if byte c < 32 \<or> byte c = 127
      then [CHR 0x5C] @ ''u{'' @ (if byte c < 16 then [] else [hex_digit (byte c div 16)]) @
           [hex_digit (byte c mod 16)] @ ''}''
      else [c])"

definition debug_str :: "string \<Rightarrow> string" where
  "debug_str s = [CHR 0x22] @ concat (map debug_char s) @ [CHR 0x22]"

definition pipe_err :: "string \<Rightarrow> RpcError" where
  "pipe_err m = rpc_error (-32602) m"

definition jsonpath_suffix :: "string \<Rightarrow> string \<Rightarrow> string rpc" where
  "jsonpath_suffix full rest =
     (if rest = [] then Ok []
      else case strip_prefix ''.'' rest of
             Some s \<Rightarrow> Ok (''.'' @ s)
           | None \<Rightarrow>
               if starts_with ''['' rest then Ok rest
               else Err (pipe_err (''ref suffix must start with '' @ [CHR 0x27] @ ''.'' @ [CHR 0x27] @
                      '' or '' @ [CHR 0x27] @ ''['' @ [CHR 0x27] @ '': '' @ debug_str full)))"

definition parse_prefix :: "string \<Rightarrow> (RefRoot \<times> string) rpc" where
  "parse_prefix expr =
     (let raw = trim expr
      in case strip_prefix ''$'' raw of
           None \<Rightarrow> Err (pipe_err (''ref must start with '' @ [CHR 0x27] @ ''$'' @ [CHR 0x27] @ '': '' @ debug_str raw))
         | Some after \<Rightarrow>
             (case strip_prefix ''item'' after of
                Some rest \<Rightarrow> res_bind (jsonpath_suffix raw rest) (\<lambda>s. Ok (Item, s))
              | None \<Rightarrow>
                  (let digits = takeWhile is_ascii_digit after
                   in if digits = [] then Err (pipe_err (''ref must be $N or $item: '' @ debug_str raw))
                      else case parse_usize digits of
                             None \<Rightarrow> Err (pipe_err (''ref index parse failed: '' @ debug_str raw))
                           | Some idx \<Rightarrow>
                               res_bind (jsonpath_suffix raw (drop (length digits) after))
                                 (\<lambda>s. Ok (Step idx, s)))))"

type_synonym jsonpath = "string \<Rightarrow> (json \<Rightarrow> json list, string) res"

definition ref_target ::
  "string \<Rightarrow> RefRoot \<Rightarrow> json option list \<Rightarrow> json option \<Rightarrow> json rpc" where
  "ref_target expr root step_results item =
     (case root of
        Step idx \<Rightarrow>
          ok_or (if idx < length step_results then step_results ! idx else None)
            (pipe_err (''$ref '' @ debug_str expr @ '': step '' @ dec_of_nat idx @
               '' has no result (out of range or errored)''))
      | Item \<Rightarrow> ok_or item (pipe_err (''$item used outside for_each: '' @ debug_str expr)))"

definition resolve_ref ::
  "jsonpath \<Rightarrow> string \<Rightarrow> json option list \<Rightarrow> json option \<Rightarrow> bool \<Rightarrow> json rpc" where
  "resolve_ref jp expr step_results item single =
     res_bind (parse_prefix expr) (\<lambda>(root, suffix).
     res_bind (ref_target expr root step_results item) (\<lambda>target.
     res_bind
       (if suffix = [] then Ok [target]
        else let path_str = ''$'' @ suffix
             in case jp path_str of
                  Err e \<Rightarrow> Err (pipe_err (''invalid jsonpath '' @ debug_str path_str @ '': '' @ e))
                | Panic m \<Rightarrow> Panic m
                | Ok query \<Rightarrow> Ok (query target)) (\<lambda>nodes.
       if single
       then (case nodes of
               [v] \<Rightarrow> Ok v
             | [] \<Rightarrow> Err (pipe_err (''$ref '' @ debug_str expr @ '' resolved to zero nodes''))
             | _ \<Rightarrow> Err (pipe_err (''$ref '' @ debug_str expr @ '' resolved to '' @
                      dec_of_nat (length nodes) @ '' nodes; use for_each for multi-cardinality'')))
       else Ok (JArray nodes))))"

text \<open>The reference an object stands for: \<open>{"$ref": "<expr>"}\<close>.\<close>

fun ref_expr :: "(string \<times> json) list \<Rightarrow> string option" where
  "ref_expr [(k, JString expr)] = (if k = ''$ref'' then Some expr else None)"
| "ref_expr _ = None"

fun substitute :: "jsonpath \<Rightarrow> json option list \<Rightarrow> json option \<Rightarrow> json \<Rightarrow> json rpc"
  and substitute_list :: "jsonpath \<Rightarrow> json option list \<Rightarrow> json option \<Rightarrow> json list \<Rightarrow> json list rpc"
  and substitute_obj :: "jsonpath \<Rightarrow> json option list \<Rightarrow> json option \<Rightarrow> (string \<times> json) list \<Rightarrow>
     (string \<times> json) list rpc" where
  "substitute jp rs item (JObject obj) =
     (case ref_expr obj of
        Some expr \<Rightarrow> resolve_ref jp expr rs item True
      | None \<Rightarrow> res_bind (substitute_obj jp rs item obj) (\<lambda>out. Ok (JObject out)))"
| "substitute jp rs item (JArray arr) =
     res_bind (substitute_list jp rs item arr) (\<lambda>out. Ok (JArray out))"
| "substitute jp rs item JNull = Ok JNull"
| "substitute jp rs item (JBool b) = Ok (JBool b)"
| "substitute jp rs item (JNumber n) = Ok (JNumber n)"
| "substitute jp rs item (JString s) = Ok (JString s)"
| "substitute_list jp rs item [] = Ok []"
| "substitute_list jp rs item (v # vs) =
     res_bind (substitute jp rs item v) (\<lambda>v'.
     res_bind (substitute_list jp rs item vs) (\<lambda>vs'. Ok (v' # vs')))"
| "substitute_obj jp rs item [] = Ok []"
| "substitute_obj jp rs item ((k, v) # kvs) =
     res_bind (substitute jp rs item v) (\<lambda>v'.
     res_bind (substitute_obj jp rs item kvs) (\<lambda>kvs'. Ok ((k, v') # kvs')))"

subsection \<open>Fan-out\<close>

definition FOR_EACH_DEFAULT_CONCURRENCY :: nat where "FOR_EACH_DEFAULT_CONCURRENCY = 8"
definition FOR_EACH_MAX_CONCURRENCY :: nat where "FOR_EACH_MAX_CONCURRENCY = 64"

text \<open>The number of permits of the semaphore; it bounds how many tasks run at once and does not
  enter the results.\<close>

definition for_each_concurrency :: "PipeStep \<Rightarrow> nat" where
  "for_each_concurrency step =
     (let c = (case ps_concurrency step of Some c \<Rightarrow> c | None \<Rightarrow> FOR_EACH_DEFAULT_CONCURRENCY)
      in max 1 (min FOR_EACH_MAX_CONCURRENCY c))"

type_synonym 's dispatcher = "string \<Rightarrow> json \<Rightarrow> 's \<Rightarrow> json rpc \<times> 's"
type_synonym schedule = "nat \<Rightarrow> nat list \<times> nat list"

text \<open>Running the tasks in the given order; a task whose parameters did not resolve only carries
  its error.\<close>

fun run_tasks ::
  "'s dispatcher \<Rightarrow> string \<Rightarrow> json rpc list \<Rightarrow> nat list \<Rightarrow> 's \<Rightarrow> (nat \<times> json rpc) list \<times> 's" where
  "run_tasks disp method resolved [] s = ([], s)"
| "run_tasks disp method resolved (i # is) s =
     (case (case resolved ! i of
              Ok params \<Rightarrow> disp method params s
            | Err e \<Rightarrow> (Err e, s)
            | Panic m \<Rightarrow> (Panic m, s)) of
        (r, s1) \<Rightarrow>
          (case run_tasks disp method resolved is s1 of (rs, s2) \<Rightarrow> ((i, r) # rs, s2)))"

definition item_ok :: "json \<Rightarrow> PipeItemResult" where
  "item_ok v = \<lparr>pir_result = Some v, pir_error = None\<rparr>"

definition item_err :: "RpcError \<Rightarrow> PipeItemResult" where
  "item_err e = \<lparr>pir_result = None, pir_error = Some e\<rparr>"

text \<open>Joining one task: its result goes to its slot; a panic goes to the first empty slot.\<close>

fun fill_first :: "'a \<Rightarrow> 'a option list \<Rightarrow> 'a option list" where
  "fill_first x [] = []"
| "fill_first x (None # ss) = Some x # ss"
| "fill_first x (Some y # ss) = Some y # fill_first x ss"

definition join_one ::
  "nat \<times> json rpc \<Rightarrow> PipeItemResult option list \<Rightarrow> PipeItemResult option list" where
  "join_one ir slots =
     (case ir of
        (i, Ok v) \<Rightarrow> slots[i := Some (item_ok v)]
      | (i, Err e) \<Rightarrow> slots[i := Some (item_err e)]
      | (i, Panic m) \<Rightarrow>
          fill_first (item_err (rpc_error (-32603) (''for_each task panicked: '' @ m))) slots)"

definition run_for_each ::
  "'s dispatcher \<Rightarrow> jsonpath \<Rightarrow> schedule \<Rightarrow> PipeStep \<Rightarrow> json list \<Rightarrow> 's \<Rightarrow>
     PipeItemResult list \<times> 's" where
  "run_for_each disp jp sched step items s =
     (let n = length items;
          resolved = map (\<lambda>item. substitute jp [] (Some item) (ps_params step)) items;
          (results, s') = run_tasks disp (ps_method step) resolved (fst (sched n)) s;
          joined = List.map_filter (\<lambda>i. map_option (Pair i) (map_of results i)) (snd (sched n));
          slots = fold join_one joined (replicate n None)
      in (map (\<lambda>sl. case sl of
                 Some x \<Rightarrow> x
               | None \<Rightarrow> item_err (rpc_error (-32603) ''for_each item dropped without result'')) slots,
          s'))"

subsection \<open>The pipe\<close>

definition step_response :: "PipeStep \<Rightarrow> PipeStepResult" where
  "step_response step =
     \<lparr>psr_method = ps_method step, psr_result = None, psr_error = None, psr_items = None\<rparr>"

text \<open>One step that is not a nested pipe: its response, its result slot and whether it failed.\<close>

definition run_step ::
  "'s dispatcher \<Rightarrow> jsonpath \<Rightarrow> schedule \<Rightarrow> PipeStep \<Rightarrow> json option list \<Rightarrow> 's \<Rightarrow>
     (PipeStepResult \<times> json option \<times> bool) rpc \<times> 's" where
  "run_step disp jp sched step rs s =
     (case ps_for_each step of
        Some expr \<Rightarrow>
          (case resolve_ref jp expr rs None False of
             Ok (JArray items) \<Rightarrow>
               (case run_for_each disp jp sched step items s of
                  (item_results, s') \<Rightarrow>
                    (let any_err = list_ex (\<lambda>r. pir_error r \<noteq> None) item_results;
                         aggregate = List.map_filter pir_result item_results;
                         resp = (step_response step)\<lparr>psr_items := Some item_results\<rparr>
                     in if any_err \<and> \<not> ps_continue_on_error step
                        then (Ok (resp, None, True), s')
                        else (Ok (resp, Some (JArray aggregate), any_err), s')))
           | Ok _ \<Rightarrow> (Panic ''resolve_ref(single=false) always returns Array'', s)
           | Err e \<Rightarrow> (Ok ((step_response step)\<lparr>psr_error := Some e\<rparr>, None, True), s)
           | Panic m \<Rightarrow> (Panic m, s))
      | None \<Rightarrow>
          (case substitute jp rs None (ps_params step) of
             Err e \<Rightarrow> (Ok ((step_response step)\<lparr>psr_error := Some e\<rparr>, None, True), s)
           | Panic m \<Rightarrow> (Panic m, s)
           | Ok resolved \<Rightarrow>
               (case disp (ps_method step) resolved s of
                  (Ok v, s') \<Rightarrow> (Ok ((step_response step)\<lparr>psr_result := Some v\<rparr>, Some v, False), s')
                | (Err e, s') \<Rightarrow> (Ok ((step_response step)\<lparr>psr_error := Some e\<rparr>, None, True), s')
                | (Panic m, s') \<Rightarrow> (Panic m, s'))))"

definition nested_pipe :: RpcError where
  "nested_pipe = pipe_err ''nested pipe not supported; flatten composition at the caller''"

fun pipe_loop ::
  "'s dispatcher \<Rightarrow> jsonpath \<Rightarrow> schedule \<Rightarrow> PipeStep list \<Rightarrow> json option list \<Rightarrow>
     PipeStepResult list \<Rightarrow> 's \<Rightarrow> PipeResult rpc \<times> 's" where
  "pipe_loop disp jp sched [] rs resp s = (Ok \<lparr>pr_steps = resp\<rparr>, s)"
| "pipe_loop disp jp sched (step # steps) rs resp s =
     (if ps_method step = PIPE then (Err nested_pipe, s)
      else and_then (run_step disp jp sched step rs s) (\<lambda>(r, slot, failed) s.
        if failed \<and> \<not> ps_continue_on_error step then (Ok \<lparr>pr_steps = resp @ [r]\<rparr>, s)
        else pipe_loop disp jp sched steps (rs @ [slot]) (resp @ [r]) s))"

definition pipe ::
  "(json \<Rightarrow> (PipeParams, string) res) \<Rightarrow> (PipeResult \<Rightarrow> json) \<Rightarrow> 's dispatcher \<Rightarrow> jsonpath \<Rightarrow>
     schedule \<Rightarrow> json \<Rightarrow> 's \<Rightarrow> json rpc \<times> 's" where
  "pipe dec enc disp jp sched params s =
     and_then (map_err (-32602) ''invalid pipe params: '' (dec params), s) (\<lambda>p s.
       if pp_steps p = [] then (Err (pipe_err ''pipe requires at least one step''), s)
       else and_then (pipe_loop disp jp sched (pp_steps p) [] [] s) (\<lambda>r s. (Ok (enc r), s)))"

subsection \<open>Specification\<close>

definition step_failed :: "PipeStepResult \<Rightarrow> bool" where
  "step_failed r \<longleftrightarrow>
     psr_error r \<noteq> None \<or>
     (case psr_items r of Some items \<Rightarrow> list_ex (\<lambda>i. pir_error i \<noteq> None) items | None \<Rightarrow> False)"

text \<open>Each step is answered in order; after the first failing step that does not continue on
  error there is nothing more.\<close>

fun pipe_ran :: "PipeStep list \<Rightarrow> PipeStepResult list \<Rightarrow> bool" where
  "pipe_ran [] rs \<longleftrightarrow> rs = []"
| "pipe_ran (st # sts) [] \<longleftrightarrow> False"
| "pipe_ran (st # sts) (r # rs) \<longleftrightarrow>
     psr_method r = ps_method st \<and>
     (if step_failed r \<and> \<not> ps_continue_on_error st then rs = [] else pipe_ran sts rs)"

definition valid_schedule :: "schedule \<Rightarrow> bool" where
  "valid_schedule sched \<longleftrightarrow>
     (\<forall>n. mset (fst (sched n)) = mset [0..<n] \<and> mset (snd (sched n)) = mset [0..<n])"

definition item_of :: "json rpc \<Rightarrow> PipeItemResult" where
  "item_of r = (case r of Ok v \<Rightarrow> item_ok v | Err e \<Rightarrow> item_err e | Panic m \<Rightarrow> item_err (rpc_error 0 m))"

fun ref_free :: "json \<Rightarrow> bool" where
  "ref_free (JObject obj) \<longleftrightarrow> ref_expr obj = None \<and> list_all (\<lambda>kv. ref_free (snd kv)) obj"
| "ref_free (JArray arr) \<longleftrightarrow> list_all ref_free arr"
| "ref_free _ \<longleftrightarrow> True"

subsection \<open>Lemmas: steps\<close>

lemma run_step_response:
  assumes "run_step disp jp sched step rs s = (Ok (r, slot, failed), s')"
  shows "psr_method r = ps_method step \<and> (failed \<longleftrightarrow> step_failed r)"
proof (cases "ps_for_each step")
  case None
  then show ?thesis using assms
    by (auto simp: run_step_def step_response_def step_failed_def
        split: res.splits prod.splits)
next
  case (Some expr)
  then show ?thesis using assms
    by (auto simp: run_step_def step_response_def step_failed_def Let_def
        split: res.splits prod.splits json.splits if_splits)
qed

lemma pipe_loop_ran:
  assumes "pipe_loop disp jp sched steps rs resp s = (Ok res, s')"
  shows "\<exists>new. pr_steps res = resp @ new \<and> pipe_ran steps new \<and>
     pipe_loop disp jp sched (take (length new) steps) rs resp s = (Ok res, s')"
  using assms
proof (induction steps arbitrary: rs resp s)
  case (Cons st sts)
  obtain r slot failed s1 where run: "run_step disp jp sched st rs s = (Ok (r, slot, failed), s1)"
    and np: "ps_method st \<noteq> PIPE"
    using Cons.prems by (auto simp: and_then_Ok_iff split: if_splits)
  note rr = run_step_response [OF run]
  show ?case
  proof (cases "failed \<and> \<not> ps_continue_on_error st")
    case True
    then show ?thesis using Cons.prems run np rr by (intro exI [of _ "[r]"]) auto
  next
    case False
    then have "pipe_loop disp jp sched sts (rs @ [slot]) (resp @ [r]) s1 = (Ok res, s')"
      using Cons.prems run np by (auto split: if_splits)
    from Cons.IH [OF this] obtain new where new: "pr_steps res = (resp @ [r]) @ new"
      "pipe_ran sts new"
      "pipe_loop disp jp sched (take (length new) sts) (rs @ [slot]) (resp @ [r]) s1 = (Ok res, s')"
      by blast
    then show ?thesis using False run np rr by (intro exI [of _ "r # new"]) auto
  qed
qed auto

lemma pipe_loop_nested:
  assumes "pipe_loop disp jp sched pre rs resp s = (Ok res, s')" "length (pr_steps res) = length resp + length pre"
    and "\<forall>st \<in> set pre. ps_method st \<noteq> PIPE" "ps_method st = PIPE"
    and "\<not> (pre \<noteq> [] \<and> step_failed (last (pr_steps res)) \<and> \<not> ps_continue_on_error (last pre))"
  shows "pipe_loop disp jp sched (pre @ st # post) rs resp s = (Err nested_pipe, s')"
  using assms
proof (induction pre arbitrary: rs resp s)
  case (Cons p pre)
  obtain r slot failed s1 where run: "run_step disp jp sched p rs s = (Ok (r, slot, failed), s1)"
    and np: "ps_method p \<noteq> PIPE"
    using Cons.prems by (auto simp: and_then_Ok_iff split: if_splits)
  note rr = run_step_response [OF run]
  show ?case
  proof (cases "failed \<and> \<not> ps_continue_on_error p")
    case True
    then show ?thesis using Cons.prems(1,2,5) run np rr by auto
  next
    case False
    then have loop: "pipe_loop disp jp sched pre (rs @ [slot]) (resp @ [r]) s1 = (Ok res, s')"
      using Cons.prems(1) run np by (auto split: if_splits)
    have "pipe_loop disp jp sched (pre @ st # post) (rs @ [slot]) (resp @ [r]) s1 = (Err nested_pipe, s')"
      by (rule Cons.IH [OF loop]) (use Cons.prems in \<open>auto split: if_splits\<close>)
    then show ?thesis using run np False by simp
  qed
qed simp

subsection \<open>Lemmas: fan-out\<close>

lemma run_tasks_keys: "map fst (fst (run_tasks disp m resolved is s)) = is"
proof (induction "is" arbitrary: s)
  case (Cons i "is")
  obtain r s1 where rs: "(case resolved ! i of Ok params \<Rightarrow> disp m params s | Err e \<Rightarrow> (Err e, s)
      | Panic m \<Rightarrow> (Panic m, s)) = (r, s1)" by fastforce
  show ?case using Cons.IH [of s1] by (cases "run_tasks disp m resolved is s1") (simp add: rs)
qed simp

lemma join_no_panic:
  assumes "\<forall>(i, r) \<in> set joins. i < length slots \<and> (\<forall>m. r \<noteq> Panic m)" "distinct (map fst joins)"
  shows "length (fold join_one joins slots) = length slots \<and>
    (\<forall>i < length slots. fold join_one joins slots ! i =
       (case map_of joins i of Some r \<Rightarrow> Some (item_of r) | None \<Rightarrow> slots ! i))"
  using assms
proof (induction joins arbitrary: slots)
  case (Cons ir joins)
  obtain i r where ir: "ir = (i, r)" by (cases ir)
  have one: "join_one (i, r) slots = slots[i := Some (item_of r)]"
    using Cons.prems(1) ir by (cases r) (auto simp: join_one_def item_of_def)
  have "map_of joins i = None" using Cons.prems(2) ir by (simp add: map_of_eq_None_iff)
  moreover have "length (fold join_one joins (slots[i := Some (item_of r)])) = length slots \<and>
    (\<forall>j < length slots. fold join_one joins (slots[i := Some (item_of r)]) ! j =
       (case map_of joins j of Some r \<Rightarrow> Some (item_of r) | None \<Rightarrow> slots[i := Some (item_of r)] ! j))"
    using Cons.IH [of "slots[i := Some (item_of r)]"] Cons.prems ir by simp
  ultimately show ?case using ir one Cons.prems(1)
    by (auto simp: nth_list_update split: option.splits)
qed simp

lemma for_each_slots:
  assumes sched: "valid_schedule sched"
    and run: "run_tasks disp (ps_method step)
      (map (\<lambda>item. substitute jp [] (Some item) (ps_params step)) items) (fst (sched (length items))) s =
        (results, s')"
    and np: "\<forall>(i, r) \<in> set results. \<forall>m. r \<noteq> Panic m"
  shows "run_for_each disp jp sched step items s =
    (map (\<lambda>i. item_of (the (map_of results i))) [0..<length items], s')"
proof -
  let ?n = "length items"
  have keys: "map fst results = fst (sched ?n)"
    using run_tasks_keys run by (metis fst_conv)
  then have dom: "fst ` set results = {0..<?n}" and dist: "distinct (map fst results)"
    using sched unfolding valid_schedule_def
    by (metis atLeastLessThan_upt mset_eq_setD set_map, metis distinct_upt mset_eq_imp_distinct_iff)
  let ?j = "List.map_filter (\<lambda>i. map_option (Pair i) (map_of results i)) (snd (sched ?n))"
  have jset: "set (snd (sched ?n)) = {0..<?n}" and jd: "distinct (snd (sched ?n))"
    using sched unfolding valid_schedule_def
    by (metis atLeastLessThan_upt mset_eq_setD, metis distinct_upt mset_eq_imp_distinct_iff)
  have some: "map_of results i \<noteq> None" if "i < ?n" for i
    using dom that by (simp add: map_of_eq_None_iff)
  have jmap: "?j = map (\<lambda>i. (i, the (map_of results i))) (snd (sched ?n))"
    using some jset unfolding List.map_filter_def by (fastforce intro!: map_cong filter_True)
  have "\<forall>(i, r) \<in> set ?j. i < length (replicate ?n (None :: PipeItemResult option)) \<and> (\<forall>m. r \<noteq> Panic m)"
  proof -
    have "the (map_of results i) \<noteq> Panic m" if lt: "i < ?n" for i m
    proof -
      obtain y where y: "map_of results i = Some y" using some [OF lt] by blast
      then have "(i, y) \<in> set results" by (rule map_of_SomeD)
      then show ?thesis using np y by auto
    qed
    then show ?thesis using jset by (auto simp: jmap)
  qed
  moreover have "distinct (map fst ?j)" unfolding jmap using jd by (simp add: comp_def)
  ultimately have J: "length (fold join_one ?j (replicate ?n None)) = ?n"
    "\<forall>i < ?n. fold join_one ?j (replicate ?n None) ! i =
       (case map_of ?j i of Some r \<Rightarrow> Some (item_of r) | None \<Rightarrow> None)"
    using join_no_panic [of ?j "replicate ?n None"] by (simp_all split: option.split)
  have "map_of ?j i = Some (the (map_of results i))" if "i < ?n" for i
    unfolding jmap using that jset by (auto simp: map_of_map_restrict)
  then have "fold join_one ?j (replicate ?n None) =
      map (\<lambda>i. Some (item_of (the (map_of results i)))) [0..<?n]"
    using J by (intro nth_equalityI) simp_all
  then show ?thesis using run by (simp add: run_for_each_def Let_def)
qed

lemma substitute_ref_free:
  "ref_free v \<Longrightarrow> substitute jp rs item v = Ok v"
  "list_all ref_free vs \<Longrightarrow> substitute_list jp rs item vs = Ok vs"
  "list_all (\<lambda>kv. ref_free (snd kv)) kvs \<Longrightarrow> substitute_obj jp rs item kvs = Ok kvs"
  by (induction jp rs item v and jp rs item vs and jp rs item kvs
      rule: substitute_substitute_list_substitute_obj.induct) auto

subsection \<open>Properties\<close>

text \<open>C31. A pipe that answers has answered its steps in order, one response per step with the
  step's method, up to and including the first failing step that does not continue on error;
  what comes after it was not run: the answer and the state are those of the pipe cut there.\<close>

theorem pipe_runs_until_failure:
  assumes "pipe_loop disp jp sched steps [] [] s = (Ok res, s')"
  shows "pipe_ran steps (pr_steps res) \<and>
         pipe_loop disp jp sched (take (length (pr_steps res)) steps) [] [] s = (Ok res, s')"
  using pipe_loop_ran [OF assms] by auto

theorem pipe_runs_until_failure_witness:
  "let st = \<lparr>ps_method = ''ping'', ps_params = JNull, ps_for_each = None,
             ps_continue_on_error = False, ps_concurrency = None\<rparr>;
       disp = (\<lambda>m p n. (Err (pipe_err ''no''), Suc n))
   in pipe_loop disp (\<lambda>_. Err []) (\<lambda>n. ([0..<n], [0..<n])) (take 1 [st, st]) [] [] 0 =
      pipe_loop disp (\<lambda>_. Err []) (\<lambda>n. ([0..<n], [0..<n])) [st, st] [] [] (0::nat)"
proof -
  let ?st = "\<lparr>ps_method = ''ping'', ps_params = JNull, ps_for_each = None,
             ps_continue_on_error = False, ps_concurrency = None\<rparr>"
  let ?disp = "\<lambda>m p n. (Err (pipe_err ''no''), Suc n)"
  let ?r = "\<lparr>psr_method = ''ping'', psr_result = None, psr_error = Some (pipe_err ''no''), psr_items = None\<rparr>"
  have e: "pipe_loop ?disp (\<lambda>_. Err []) (\<lambda>n. ([0..<n], [0..<n])) [?st, ?st] [] [] (0::nat) =
      (Ok \<lparr>pr_steps = [?r]\<rparr>, 1)"
    by (simp add: run_step_def step_response_def PIPE_def)
  show ?thesis using pipe_runs_until_failure [OF e] e by (simp add: Let_def)
qed

text \<open>C32. A fan-out answers by position: whatever order the tasks run in and are joined in,
  as long as no task panics the list of results has, at each position, the outcome of that
  position's task.\<close>

theorem for_each_results_by_position:
  assumes "valid_schedule sched"
    and "run_tasks disp (ps_method step)
      (map (\<lambda>item. substitute jp [] (Some item) (ps_params step)) items) (fst (sched (length items))) s =
        (results, s')"
    and "\<forall>(i, r) \<in> set results. \<forall>m. r \<noteq> Panic m"
  shows "run_for_each disp jp sched step items s =
    (map (\<lambda>i. item_of (the (map_of results i))) [0..<length items], s')"
  using for_each_slots [OF assms] .

theorem for_each_results_by_position_witness:
  "let st = \<lparr>ps_method = ''m'', ps_params = JNull, ps_for_each = Some ''$0'',
             ps_continue_on_error = False, ps_concurrency = None\<rparr>
   in run_for_each (\<lambda>m p n. (Ok (JNumber (PosInt n)), Suc n)) (\<lambda>_. Err [])
        (\<lambda>n. (rev [0..<n], [0..<n])) st [JNull, JNull] 5 =
      ([item_ok (JNumber (PosInt 6)), item_ok (JNumber (PosInt 5))], 7)"
proof -
  let ?st = "\<lparr>ps_method = ''m'', ps_params = JNull, ps_for_each = Some ''$0'',
             ps_continue_on_error = False, ps_concurrency = None\<rparr>"
  let ?sched = "\<lambda>n. (rev [0..<n], [0..<n])"
  have v: "valid_schedule ?sched" by (simp add: valid_schedule_def)
  have r: "run_tasks (\<lambda>m p n. (Ok (JNumber (PosInt n)), Suc n)) (ps_method ?st)
      (map (\<lambda>item. substitute (\<lambda>_. Err []) [] (Some item) (ps_params ?st)) [JNull, JNull])
      (fst (?sched (length [JNull, JNull]))) 5 =
      ([(1, Ok (JNumber (PosInt 5))), (0, Ok (JNumber (PosInt 6)))], 7)"
    by (simp add: upt_rec)
  have "run_for_each (\<lambda>m p n. (Ok (JNumber (PosInt n)), Suc n)) (\<lambda>_. Err []) ?sched ?st [JNull, JNull] 5 =
      (map (\<lambda>i. item_of (the (map_of [(1, Ok (JNumber (PosInt 5))), (0, Ok (JNumber (PosInt 6)))] i)))
         [0..<length [JNull, JNull]], 7)"
    by (rule for_each_results_by_position [OF v r]) simp
  then show ?thesis unfolding Let_def by (simp add: item_of_def upt_rec [of _ "Suc (Suc 0)"])
qed

text \<open>Parameters without references are passed on unchanged, whatever the earlier results
  are: composition adds no rewriting of its own.\<close>

theorem substitute_identity:
  "ref_free v \<Longrightarrow> substitute jp rs item v = Ok v"
  by (rule substitute_ref_free(1))

theorem substitute_identity_witness:
  "substitute (\<lambda>_. Err []) [None] None (JObject [(''path'', JString ''$0''), (''n'', JArray [JNull])]) =
     Ok (JObject [(''path'', JString ''$0''), (''n'', JArray [JNull])])"
  by (rule substitute_identity) simp

text \<open>A nested pipe is not rejected outright: when it is reached, the steps before it have
  run and their effects stay, but the answer is only the error.\<close>

theorem nested_pipe_after_effects:
  assumes "pipe_loop disp jp sched pre [] [] s = (Ok res, s')"
    and "length (pr_steps res) = length pre" "\<forall>p \<in> set pre. ps_method p \<noteq> PIPE"
    and "pre \<noteq> [] \<Longrightarrow> \<not> step_failed (last (pr_steps res))" "ps_method st = PIPE"
  shows "pipe_loop disp jp sched (pre @ st # post) [] [] s = (Err nested_pipe, s')"
  by (rule pipe_loop_nested [OF assms(1) _ assms(3,5)]) (use assms(2,4) in auto)

theorem nested_pipe_after_effects_witness:
  "let st = \<lparr>ps_method = ''ping'', ps_params = JNull, ps_for_each = None,
             ps_continue_on_error = False, ps_concurrency = None\<rparr>
   in pipe_loop (\<lambda>m p n. (Ok JNull, Suc n)) (\<lambda>_. Err []) (\<lambda>n. ([0..<n], [0..<n]))
        ([st] @ st\<lparr>ps_method := PIPE\<rparr> # []) [] [] (0::nat) = (Err nested_pipe, 1)"
proof -
  let ?st = "\<lparr>ps_method = ''ping'', ps_params = JNull, ps_for_each = None,
             ps_continue_on_error = False, ps_concurrency = None\<rparr>"
  let ?r = "\<lparr>psr_method = ''ping'', psr_result = Some JNull, psr_error = None, psr_items = None\<rparr>"
  have e: "pipe_loop (\<lambda>m p n. (Ok JNull, Suc n)) (\<lambda>_. Err []) (\<lambda>n. ([0..<n], [0..<n])) [?st] [] [] (0::nat) =
      (Ok \<lparr>pr_steps = [?r]\<rparr>, 1)"
    by (simp add: run_step_def step_response_def PIPE_def)
  show ?thesis unfolding Let_def
    by (rule nested_pipe_after_effects [OF e]) (simp_all add: PIPE_def step_failed_def)
qed

end
