(* ===== verification/Server.thy ===== *)
theory Server
  imports Buffer_Pool Pipe Metrics
begin

text \<open>
  The server loop, \<^verbatim>\<open>src/crates/daemon/src/server.rs\<close>: the idle tracker, a connection and the dispatch of a
  request.

  \<open>handle_conn\<close> works on what the peer will send (a \<open>Reader\<close>) and what has been written (a
  \<open>Writer\<close>), with the pools the connections share. Decoding a request and encoding a response
  are parameters, and so is the state the handlers work on (\<open>Daemon\<close> supplies it).
\<close>

subsection \<open>Idle tracking\<close>

text \<open>\<open>on_connect\<close> and \<open>on_disconnect\<close> are two atomic operations each; connections end on other
  tasks than the one that accepts, so they interleave. Times are in any fixed unit.\<close>

record IdleTracker =
  it_active :: nat
  it_last_idle_at :: "nat option"
  it_timeout :: "nat option"

definition idle_new :: "nat option \<Rightarrow> nat \<Rightarrow> IdleTracker" where
  "idle_new timeout now = \<lparr>it_active = 0, it_last_idle_at = Some now, it_timeout = timeout\<rparr>"

definition connect_count :: "IdleTracker \<Rightarrow> IdleTracker" where
  "connect_count t = t\<lparr>it_active := it_active t + 1\<rparr>"

definition connect_clear :: "IdleTracker \<Rightarrow> IdleTracker" where
  "connect_clear t = t\<lparr>it_last_idle_at := None\<rparr>"

definition disconnect_count :: "IdleTracker \<Rightarrow> nat \<times> IdleTracker" where
  "disconnect_count t = (it_active t, t\<lparr>it_active := it_active t - 1\<rparr>)"

definition disconnect_stamp :: "nat \<Rightarrow> nat \<Rightarrow> IdleTracker \<Rightarrow> IdleTracker" where
  "disconnect_stamp prev now t = (if prev = 1 then t\<lparr>it_last_idle_at := Some now\<rparr> else t)"

definition on_connect :: "IdleTracker \<Rightarrow> IdleTracker" where
  "on_connect t = connect_clear (connect_count t)"

definition on_disconnect :: "nat \<Rightarrow> IdleTracker \<Rightarrow> IdleTracker" where
  "on_disconnect now t = (case disconnect_count t of (prev, t') \<Rightarrow> disconnect_stamp prev now t')"

text \<open>One round of \<open>wait_for_timeout\<close>: return, sleep for some time, or wait to be notified.\<close>

datatype poll = Fire | Sleep nat | Wait_Notify

definition idle_poll :: "nat \<Rightarrow> IdleTracker \<Rightarrow> poll" where
  "idle_poll now t =
     (case it_timeout t of
        None \<Rightarrow> Fire
      | Some timeout \<Rightarrow>
          (case it_last_idle_at t of
             None \<Rightarrow> Wait_Notify
           | Some since \<Rightarrow>
               if timeout \<le> now - since then Fire else Sleep (timeout - (now - since))))"

text \<open>The tracker, the open connections, and the operations that are half done.\<close>

record idle_world =
  iw_tracker :: IdleTracker
  iw_open :: nat
  iw_connecting :: nat
  iw_stamping :: "nat list"
  iw_now :: nat

inductive idle_step :: "idle_world \<Rightarrow> idle_world \<Rightarrow> bool" where
  accept: "idle_step w (w\<lparr>iw_tracker := connect_count (iw_tracker w), iw_open := iw_open w + 1,
     iw_connecting := iw_connecting w + 1\<rparr>)"
| clear: "0 < iw_connecting w \<Longrightarrow>
     idle_step w (w\<lparr>iw_tracker := connect_clear (iw_tracker w), iw_connecting := iw_connecting w - 1\<rparr>)"
| close: "0 < iw_open w \<Longrightarrow> disconnect_count (iw_tracker w) = (prev, t) \<Longrightarrow>
     idle_step w (w\<lparr>iw_tracker := t, iw_open := iw_open w - 1, iw_stamping := prev # iw_stamping w\<rparr>)"
| stamp: "iw_stamping w = ps @ prev # qs \<Longrightarrow>
     idle_step w (w\<lparr>iw_tracker := disconnect_stamp prev (iw_now w) (iw_tracker w),
                    iw_stamping := ps @ qs\<rparr>)"
| tick: "idle_step w (w\<lparr>iw_now := iw_now w + 1\<rparr>)"

inductive idle_reachable :: "nat option \<Rightarrow> idle_world \<Rightarrow> bool" for timeout where
  start: "idle_reachable timeout
     \<lparr>iw_tracker = idle_new timeout 0, iw_open = 0, iw_connecting = 0, iw_stamping = [], iw_now = 0\<rparr>"
| step: "idle_reachable timeout w \<Longrightarrow> idle_step w w' \<Longrightarrow> idle_reachable timeout w'"

text \<open>The same without interference: whole operations only.\<close>

inductive idle_atomic_step :: "idle_world \<Rightarrow> idle_world \<Rightarrow> bool" where
  connect: "idle_atomic_step w (w\<lparr>iw_tracker := on_connect (iw_tracker w), iw_open := iw_open w + 1\<rparr>)"
| disconnect: "0 < iw_open w \<Longrightarrow>
     idle_atomic_step w (w\<lparr>iw_tracker := on_disconnect (iw_now w) (iw_tracker w), iw_open := iw_open w - 1\<rparr>)"
| pass: "idle_atomic_step w (w\<lparr>iw_now := iw_now w + 1\<rparr>)"

inductive idle_atomic_reachable :: "nat option \<Rightarrow> idle_world \<Rightarrow> bool" for timeout where
  start: "idle_atomic_reachable timeout
     \<lparr>iw_tracker = idle_new timeout 0, iw_open = 0, iw_connecting = 0, iw_stamping = [], iw_now = 0\<rparr>"
| step: "idle_atomic_reachable timeout w \<Longrightarrow> idle_atomic_step w w' \<Longrightarrow> idle_atomic_reachable timeout w'"

subsection \<open>Dispatch\<close>

text \<open>\<open>disp\<close> is \<open>dispatch_method\<close>, \<open>pipe_h\<close> the pipe handler, \<open>rec\<close> records an event in the metrics
  of the daemon's state, \<open>elapsed\<close> is the measured time of the call in microseconds.\<close>

definition dispatch ::
  "'s dispatcher \<Rightarrow> (json \<Rightarrow> 's \<Rightarrow> json rpc \<times> 's) \<Rightarrow> (metric_event \<Rightarrow> 's \<Rightarrow> 's) \<Rightarrow> nat \<Rightarrow> Request \<Rightarrow> 's \<Rightarrow>
     (Response, string) res \<times> 's" where
  "dispatch disp pipe_h rec elapsed req s =
     (case (if req_method req = PIPE then pipe_h (req_params req) s
            else disp (req_method req) (req_params req) s) of
        (result, s1) \<Rightarrow>
          (let s2 = rec (Latency (req_method req) (elapsed mod 2 ^ 64)) s1
           in case result of
                Ok value \<Rightarrow> (Ok \<lparr>resp_id = req_id req, resp_result = Some value, resp_error = None\<rparr>, s2)
              | Err err \<Rightarrow> (Ok \<lparr>resp_id = req_id req, resp_result = None, resp_error = Some err\<rparr>, s2)
              | Panic p \<Rightarrow> (Panic p, s1)))"

subsection \<open>Connections\<close>

record pools =
  pl_frame :: BufferPool
  pl_arena :: nat

definition fill :: "(nat \<Rightarrow> nat) \<Rightarrow> string \<Rightarrow> Buf \<Rightarrow> Buf" where
  "fill alloc data b =
     b\<lparr>buf_data := data,
       buf_capacity := (if length data \<le> buf_capacity b then buf_capacity b else alloc (length data))\<rparr>"

text \<open>Reading one frame into a pooled buffer, which is back in the pool before the request is
  dispatched.\<close>

definition read_pooled ::
  "(nat \<Rightarrow> nat) \<Rightarrow> Reader \<Rightarrow> pools \<Rightarrow> (string option, any_error) res \<times> Reader \<times> pools" where
  "read_pooled alloc reader pl =
     (case acquire (pl_frame pl) of
        (b, p1) \<Rightarrow>
          (case read_frame_into reader (buf_data b) of
             (r, reader', data) \<Rightarrow>
               (case r of
                  Ok None \<Rightarrow> Ok None
                | Ok (Some _) \<Rightarrow> Ok (Some data)
                | Err e \<Rightarrow> Err e
                | Panic m \<Rightarrow> Panic m,
                reader', pl\<lparr>pl_frame := drop_pooled (fill alloc data b) p1\<rparr>)))"

definition write_response_pooled ::
  "(nat \<Rightarrow> nat) \<Rightarrow> (Response \<Rightarrow> string) \<Rightarrow> Response \<Rightarrow> Writer \<Rightarrow> pools \<Rightarrow>
     (unit, any_error) res \<times> Writer \<times> pools" where
  "write_response_pooled alloc enc resp w pl =
     (let arenas = pl_arena pl - 1;
          (b, p1) = acquire_with_capacity alloc 1024 (pl_frame pl);
          b' = fill alloc (enc resp) b;
          (result, w') = write_frame w (buf_data b')
      in (result, w',
          \<lparr>pl_frame = drop_pooled b' p1, pl_arena = (if arenas < 32 then arenas + 1 else arenas)\<rparr>))"

definition parse_error :: "string \<Rightarrow> Response" where
  "parse_error e = \<lparr>resp_id = 0, resp_result = None, resp_error = Some (rpc_error (-32700) e)\<rparr>"

text \<open>What a payload is answered with.\<close>

definition answer ::
  "(string \<Rightarrow> (Request, string) res) \<Rightarrow> (Request \<Rightarrow> 'd \<Rightarrow> (Response, string) res \<times> 'd) \<Rightarrow>
     string \<Rightarrow> 'd \<Rightarrow> (Response, string) res \<times> 'd" where
  "answer dec disp payload d =
     (case dec payload of
        Err e \<Rightarrow> (Ok (parse_error e), d)
      | Panic m \<Rightarrow> (Panic m, d)
      | Ok req \<Rightarrow> disp req d)"

lemma read_exact_length:
  "read_exact n r = (Ok b, r') \<Longrightarrow> length (rd_bytes r') + n = length (rd_bytes r)"
  by (auto simp: read_exact_def split: if_splits)

lemma read_frame_into_shorter:
  "read_frame_into r buf = (Ok (Some u), r', data) \<Longrightarrow> length (rd_bytes r') < length (rd_bytes r)"
  by (auto simp: read_frame_into_def Let_def split: prod.splits res.splits if_splits
      dest!: read_exact_length)

lemma read_pooled_shorter:
  "read_pooled alloc r pl = (Ok (Some data), r', pl') \<Longrightarrow> length (rd_bytes r') < length (rd_bytes r)"
  by (auto simp: read_pooled_def dest: read_frame_into_shorter split: prod.splits res.splits option.splits)

function handle_conn ::
  "(nat \<Rightarrow> nat) \<Rightarrow> (string \<Rightarrow> (Request, string) res) \<Rightarrow> (Response \<Rightarrow> string) \<Rightarrow>
     (Request \<Rightarrow> 'd \<Rightarrow> (Response, string) res \<times> 'd) \<Rightarrow> Reader \<Rightarrow> Writer \<Rightarrow> pools \<Rightarrow> 'd \<Rightarrow>
     (unit, any_error) res \<times> Writer \<times> pools \<times> 'd" where
  "handle_conn alloc dec enc disp reader w pl d =
     (case read_pooled alloc reader pl of
        (Err e, _, pl1) \<Rightarrow> (Err e, w, pl1, d)
      | (Panic m, _, pl1) \<Rightarrow> (Panic m, w, pl1, d)
      | (Ok None, _, pl1) \<Rightarrow> (Ok (), w, pl1, d)
      | (Ok (Some data), reader1, pl1) \<Rightarrow>
          (case answer dec disp data d of
             (Err e, d1) \<Rightarrow> (Panic e, w, pl1, d1)
           | (Panic m, d1) \<Rightarrow> (Panic m, w, pl1, d1)
           | (Ok resp, d1) \<Rightarrow>
               (case write_response_pooled alloc enc resp w pl1 of
                  (Ok _, w1, pl2) \<Rightarrow> handle_conn alloc dec enc disp reader1 w1 pl2 d1
                | (Err e, w1, pl2) \<Rightarrow> (Err e, w1, pl2, d1)
                | (Panic m, w1, pl2) \<Rightarrow> (Panic m, w1, pl2, d1))))"
  by pat_completeness auto
termination
  by (relation "measure (\<lambda>(_, _, _, _, reader, _). length (rd_bytes reader))")
    (auto dest!: read_pooled_shorter [OF sym])

declare handle_conn.simps [simp del]

subsection \<open>Specification of a connection\<close>

text \<open>The responses to a sequence of payloads, one after another.\<close>

fun answers ::
  "(string \<Rightarrow> (Request, string) res) \<Rightarrow> (Request \<Rightarrow> 'd \<Rightarrow> (Response, string) res \<times> 'd) \<Rightarrow>
     string list \<Rightarrow> 'd \<Rightarrow> Response list option \<times> 'd" where
  "answers dec disp [] d = (Some [], d)"
| "answers dec disp (p # ps) d =
     (case answer dec disp p d of
        (Ok r, d1) \<Rightarrow> (case answers dec disp ps d1 of (rs, d2) \<Rightarrow> (map_option (Cons r) rs, d2))
      | (_, d1) \<Rightarrow> (None, d1))"

subsection \<open>Lemmas: idle tracking\<close>

definition idle_inv :: "nat option \<Rightarrow> idle_world \<Rightarrow> bool" where
  "idle_inv timeout w \<longleftrightarrow>
     it_active (iw_tracker w) = iw_open w \<and> it_timeout (iw_tracker w) = timeout \<and>
     (it_last_idle_at (iw_tracker w) = None \<longleftrightarrow> 0 < iw_open w)"

lemma idle_atomic_inv: "idle_atomic_reachable timeout w \<Longrightarrow> idle_inv timeout w"
proof (induction rule: idle_atomic_reachable.induct)
  case start
  then show ?case by (simp add: idle_inv_def idle_new_def)
next
  case (step w w')
  from step.hyps(2) step.IH show ?case
    by (cases rule: idle_atomic_step.cases)
      (auto simp: idle_inv_def on_connect_def connect_clear_def connect_count_def on_disconnect_def
        disconnect_count_def disconnect_stamp_def)
qed

lemma idle_ticks:
  "idle_reachable timeout w \<Longrightarrow> idle_reachable timeout (w\<lparr>iw_now := iw_now w + n\<rparr>)"
proof (induction n)
  case (Suc n)
  then have r: "idle_reachable timeout (w\<lparr>iw_now := iw_now w + n\<rparr>)" by simp
  have "idle_step (w\<lparr>iw_now := iw_now w + n\<rparr>)
      ((w\<lparr>iw_now := iw_now w + n\<rparr>)\<lparr>iw_now := iw_now (w\<lparr>iw_now := iw_now w + n\<rparr>) + 1\<rparr>)"
    by (rule idle_step.tick)
  from idle_reachable.step [OF r this] show ?case by simp
qed simp

text \<open>The last connection ends and, before it has stamped the time, a new one is accepted.\<close>

definition race_world :: "nat option \<Rightarrow> idle_world" where
  "race_world timeout =
     \<lparr>iw_tracker = \<lparr>it_active = 1, it_last_idle_at = Some 0, it_timeout = timeout\<rparr>,
      iw_open = 1, iw_connecting = 0, iw_stamping = [], iw_now = 0\<rparr>"

lemma race_reachable: "idle_reachable timeout (race_world timeout)"
proof -
  let ?w = "\<lambda>a l op c st. \<lparr>iw_tracker = \<lparr>it_active = a, it_last_idle_at = l, it_timeout = timeout\<rparr>,
      iw_open = op, iw_connecting = c, iw_stamping = st, iw_now = 0\<rparr>"
  have 0: "idle_reachable timeout (?w 0 (Some 0) 0 0 [])"
    using idle_reachable.start [of timeout] by (simp add: idle_new_def)
  have 1: "idle_step (?w 0 (Some 0) 0 0 []) (?w 1 (Some 0) 1 1 [])"
    using idle_step.accept [of "?w 0 (Some 0) 0 0 []"] by (simp add: connect_count_def)
  have 2: "idle_step (?w 1 (Some 0) 1 1 []) (?w 1 None 1 0 [])"
    using idle_step.clear [of "?w 1 (Some 0) 1 1 []"] by (simp add: connect_clear_def)
  have 3: "idle_step (?w 1 None 1 0 []) (?w 0 None 0 0 [1])"
    using idle_step.close [of "?w 1 None 1 0 []"] by (simp add: disconnect_count_def)
  have 4: "idle_step (?w 0 None 0 0 [1]) (?w 1 None 1 1 [1])"
    using idle_step.accept [of "?w 0 None 0 0 [1]"] by (simp add: connect_count_def)
  have 5: "idle_step (?w 1 None 1 1 [1]) (?w 1 None 1 0 [1])"
    using idle_step.clear [of "?w 1 None 1 1 [1]"] by (simp add: connect_clear_def)
  have 6: "idle_step (?w 1 None 1 0 [1]) (?w 1 (Some 0) 1 0 [])"
    using idle_step.stamp [of "?w 1 None 1 0 [1]" "[]" 1 "[]"] by (simp add: disconnect_stamp_def)
  show ?thesis
    unfolding race_world_def
    using idle_reachable.step [OF idle_reachable.step [OF idle_reachable.step [OF idle_reachable.step
          [OF idle_reachable.step [OF idle_reachable.step [OF 0 1] 2] 3] 4] 5] 6] .
qed

subsection \<open>Lemmas: connections\<close>

definition frame_of :: "string \<Rightarrow> string" where
  "frame_of p = to_be_bytes (word_of_nat (length p)) @ p"

lemma write_frame_unlimited:
  assumes "wr_room w = None" "length p < 2 ^ 32"
  shows "write_frame w p = (Ok (), w\<lparr>wr_bytes := wr_bytes w @ frame_of p\<rparr>)"
  using assms by (simp add: write_frame_def u32_try_from_def write_two_unlimited frame_of_def)

lemma read_pooled_frame:
  assumes "length p \<le> unat MAX_FRAME"
  shows "\<exists>pl'. read_pooled alloc (bytes_reader (frame_of p @ rest)) pl =
           (Ok (Some p), bytes_reader rest, pl')"
  using read_frame_into_frame [OF assms]
  by (cases "acquire (pl_frame pl)") (simp add: read_pooled_def bytes_reader_def frame_of_def)

lemma read_pooled_end:
  "\<exists>pl'. read_pooled alloc (bytes_reader []) pl = (Ok None, bytes_reader [], pl')"
  by (cases "acquire (pl_frame pl)")
    (simp add: read_pooled_def bytes_reader_def read_frame_into_def read_exact_def)

lemma write_pooled_unlimited:
  assumes "wr_room w = None" "length (enc r) < 2 ^ 32"
  shows "\<exists>pl'. write_response_pooled alloc enc r w pl =
           (Ok (), w\<lparr>wr_bytes := wr_bytes w @ frame_of (enc r)\<rparr>, pl')"
  using write_frame_unlimited [OF assms]
  by (cases "acquire_with_capacity alloc 1024 (pl_frame pl)")
    (simp add: write_response_pooled_def Let_def fill_def)

lemma handle_conn_answers:
  assumes "\<forall>p \<in> set ps. length p \<le> unat MAX_FRAME" "answers dec disp ps d = (Some rs, d')"
    and "\<forall>r \<in> set rs. length (enc r) < 2 ^ 32" "wr_room w = None"
  shows "\<exists>pl'. handle_conn alloc dec enc disp (bytes_reader (concat (map frame_of ps))) w pl d =
    (Ok (), w\<lparr>wr_bytes := wr_bytes w @ concat (map (\<lambda>r. frame_of (enc r)) rs)\<rparr>, pl', d')"
  using assms
proof (induction ps arbitrary: rs w pl d)
  case Nil
  obtain pl' where "read_pooled alloc (bytes_reader []) pl = (Ok None, bytes_reader [], pl')"
    using read_pooled_end by blast
  then show ?case using Nil by (simp add: handle_conn.simps)
next
  case (Cons p ps)
  obtain r d1 rs' where a: "answer dec disp p d = (Ok r, d1)"
    and rest: "answers dec disp ps d1 = (Some rs', d')" and rs: "rs = r # rs'"
    using Cons.prems(2) by (auto split: prod.splits res.splits)
  obtain pl1 where rd: "read_pooled alloc
      (bytes_reader (frame_of p @ concat (map frame_of ps))) pl =
      (Ok (Some p), bytes_reader (concat (map frame_of ps)), pl1)"
    using read_pooled_frame [of p alloc "concat (map frame_of ps)" pl] Cons.prems(1) by auto
  let ?w1 = "w\<lparr>wr_bytes := wr_bytes w @ frame_of (enc r)\<rparr>"
  obtain pl2 where wr: "write_response_pooled alloc enc r w pl1 = (Ok (), ?w1, pl2)"
    using write_pooled_unlimited [of w enc r alloc pl1] Cons.prems(3,4) rs by auto
  have "\<exists>pl'. handle_conn alloc dec enc disp (bytes_reader (concat (map frame_of ps))) ?w1 pl2 d1 =
      (Ok (), ?w1\<lparr>wr_bytes := wr_bytes ?w1 @ concat (map (\<lambda>r. frame_of (enc r)) rs')\<rparr>, pl', d')"
    by (rule Cons.IH) (use Cons.prems rest rs in auto)
  then show ?case using rd a wr rs by (simp add: handle_conn.simps [of _ _ _ _ "bytes_reader _" w])
qed

lemma wire_bridge_frames:
  "\<forall>p \<in> set ps. length p \<le> unat MAX_FRAME \<Longrightarrow>
     wire_all bridge_write ps = Some (concat (map frame_of ps))"
  by (induction ps) (simp_all add: wire_frames frame_of_def)

subsection \<open>Properties\<close>

text \<open>C19. Over one connection every frame is answered exactly once and in order: whatever the
  bridge writes, the daemon reads it all, writes back one frame per request (a frame that does
  not parse gets an error with id 0 and the connection goes on), the frames decode to the
  responses of the sequential semantics, and the connection ends cleanly with the state of that
  semantics. Requests are within the frame limit, responses below four gigabytes.\<close>

theorem connection_answers_in_order:
  assumes "\<forall>p \<in> set ps. length p \<le> unat MAX_FRAME" "wire_all bridge_write ps = Some stream"
    and "answers dec disp ps d = (Some rs, d')" "\<forall>r \<in> set rs. length (enc r) < 2 ^ 32"
  shows "\<exists>w pl'. handle_conn alloc dec enc disp (bytes_reader stream) empty_writer pl d =
             (Ok (), w, pl', d') \<and>
           length rs = length ps \<and> wr_bytes w = concat (map (\<lambda>r. frame_of (enc r)) rs)"
proof -
  have "stream = concat (map frame_of ps)" using wire_bridge_frames [OF assms(1)] assms(2) by simp
  moreover have "length rs = length ps"
    using assms(3)
  proof (induction ps arbitrary: d rs)
    case (Cons p ps)
    then show ?case by (auto split: prod.splits res.splits)
  qed simp
  ultimately show ?thesis
    using handle_conn_answers [OF assms(1,3,4), of empty_writer alloc pl]
    by (auto simp: empty_writer_def)
qed

theorem connection_answers_in_order_witness:
  "\<exists>w pl'. handle_conn (\<lambda>n. n) (\<lambda>_. Err ''bad'') (\<lambda>r. ''x'') (\<lambda>_ d. (Panic [], d))
      (bytes_reader (frame_of ''q'')) empty_writer
      \<lparr>pl_frame = buffer_pool_new 32 4096, pl_arena = 0\<rparr> () = (Ok (), w, pl', ()) \<and>
     wr_bytes w = frame_of ''x''"
proof -
  have p: "\<forall>p \<in> set [''q'']. length p \<le> unat MAX_FRAME" by (simp add: unat_MAX_FRAME)
  have w: "wire_all bridge_write [''q''] = Some (frame_of ''q'')"
    using wire_bridge_frames [OF p] by simp
  have a: "answers (\<lambda>_. Err ''bad'') (\<lambda>_ d. (Panic [], d)) [''q''] () = (Some [parse_error ''bad''], ())"
    by (simp add: answer_def)
  from connection_answers_in_order [OF p w a, of "\<lambda>r. ''x''" "\<lambda>n. n"
      "\<lparr>pl_frame = buffer_pool_new 32 4096, pl_arena = 0\<rparr>"] show ?thesis by simp
qed

text \<open>A response carries the id of its request and either a result or an error, never both
  and never neither, for every method, \<open>pipe\<close> included; the call's latency is recorded under
  the method's name, also for errors and unknown methods.\<close>

theorem dispatch_response_shape:
  assumes "dispatch disp pipe_h rec us req s = (Ok resp, s')"
  shows "resp_id resp = req_id req \<and> (resp_result resp = None \<longleftrightarrow> resp_error resp \<noteq> None) \<and>
         (\<exists>s1. s' = rec (Latency (req_method req) (us mod 2 ^ 64)) s1)"
  using assms by (auto simp: dispatch_def Let_def split: prod.splits res.splits)

theorem dispatch_response_shape_witness:
  "\<exists>resp m. dispatch (\<lambda>_ _ m. (Ok JNull, m)) (\<lambda>_ m. (Ok JNull, m)) metrics_record 3
      \<lparr>req_id = 9, req_method = ''ping'', req_params = JNull\<rparr> [] = (Ok resp, m) \<and> resp_id resp = 9"
proof -
  have "dispatch (\<lambda>_ _ m. (Ok JNull, m)) (\<lambda>_ m. (Ok JNull, m)) metrics_record 3
      \<lparr>req_id = 9, req_method = ''ping'', req_params = JNull\<rparr> [] =
      (Ok \<lparr>resp_id = 9, resp_result = Some JNull, resp_error = None\<rparr>, metrics_record (Latency ''ping'' 3) [])"
    by (simp add: dispatch_def PIPE_def)
  from dispatch_response_shape [OF this] this show ?thesis by auto
qed

text \<open>With undisturbed connect and disconnect operations the daemon never shuts down under a
  client: the timeout fires only when no connection is open and the last one ended at least
  the timeout ago.\<close>

theorem idle_timeout_only_when_idle:
  assumes "idle_atomic_reachable (Some timeout) w" "idle_poll now (iw_tracker w) = Fire"
  shows "iw_open w = 0 \<and>
         (\<exists>since. it_last_idle_at (iw_tracker w) = Some since \<and> timeout \<le> now - since)"
  using idle_atomic_inv [OF assms(1)] assms(2)
  by (auto simp: idle_inv_def idle_poll_def split: option.splits if_splits)

theorem idle_timeout_only_when_idle_witness:
  "\<exists>w. idle_atomic_reachable (Some 0) w \<and> iw_open w = 0 \<and> it_last_idle_at (iw_tracker w) \<noteq> None"
proof -
  let ?w = "\<lparr>iw_tracker = idle_new (Some 0) 0, iw_open = 0, iw_connecting = 0, iw_stamping = [], iw_now = 0\<rparr>"
  have "idle_poll 0 (iw_tracker ?w) = Fire" by (simp add: idle_poll_def idle_new_def)
  from idle_timeout_only_when_idle [OF idle_atomic_reachable.start this] show ?thesis
    using idle_atomic_reachable.start by blast
qed

text \<open>C36. The two halves of connect and disconnect do interleave, and then the guarantee is lost:
  for every timeout there is an execution that ends with one connection open, no operation
  half done, and the timeout firing.\<close>

theorem idle_race_shuts_down_busy_daemon:
  "\<exists>w. idle_reachable (Some timeout) w \<and> iw_open w = 1 \<and> iw_connecting w = 0 \<and>
       iw_stamping w = [] \<and> idle_poll (iw_now w) (iw_tracker w) = Fire"
  using idle_ticks [OF race_reachable, of "Some timeout" timeout]
  by (intro exI [of _ "(race_world (Some timeout))\<lparr>iw_now := timeout\<rparr>"])
    (simp add: race_world_def idle_poll_def)

end
