(* ===== verification/Tool_Run.thy ===== *)
theory Tool_Run
  imports Files Metrics Cache_Interface
begin

text \<open>
  Running a command to completion: \<open>tool_run\<close>, its result cache, and \<open>tool_gh\<close>, of
  \<^verbatim>\<open>src/crates/daemon/src/handlers.rs\<close>.

  The operating system's \<open>Command::output\<close> is a parameter: given the command line, the
  working directory, the environment and the state of the world it gives the collected output
  or an error, and a new world. JSON rendering (\<open>to_string\<close>, \<open>to_vec().len()\<close>) is a parameter
  too. The cache is a hash map that is never emptied; its key is the rendering of a JSON
  object, so what a hit means depends on the rendering being injective.
\<close>

subsection \<open>Commands\<close>

datatype exit_status = Exited int | Signaled nat

fun status_code :: "exit_status \<Rightarrow> int option" where
  "status_code (Exited c) = Some c"
| "status_code (Signaled n) = None"

definition status_success :: "exit_status \<Rightarrow> bool" where
  "status_success s \<longleftrightarrow> s = Exited 0"

record Output =
  out_status :: exit_status
  out_stdout :: string
  out_stderr :: string

record Command =
  cmd_program :: string
  cmd_args :: "string list"
  cmd_dir :: path
  cmd_envs :: "(string \<times> string) list"

type_synonym 'w exec = "Command \<Rightarrow> 'w \<Rightarrow> (Output, string) res \<times> 'w"

definition TOOL_RUN_DEFAULT_OUTPUT_LIMIT :: nat where
  "TOOL_RUN_DEFAULT_OUTPUT_LIMIT = 64 * 1024"

definition TOOL_RUN_FAILURE_TAIL_LIMIT :: nat where
  "TOOL_RUN_FAILURE_TAIL_LIMIT = 16 * 1024"

definition truncation_notice :: "nat \<Rightarrow> string" where
  "truncation_notice mx =
     ''[[mcp-cli: output truncated to last '' @ dec_of_nat mx @ '' bytes]]'' @ [nl]"

definition truncate_bytes :: "string \<Rightarrow> nat \<Rightarrow> string \<times> bool" where
  "truncate_bytes bytes mx =
     (if length bytes \<le> mx then (from_utf8_lossy bytes, False)
      else (let start = length bytes - mx
            in (truncation_notice mx @ from_utf8_lossy (drop start bytes), True)))"

definition failure_tail :: "string \<Rightarrow> string \<Rightarrow> string" where
  "failure_tail stdout stderr =
     (let c1 = (if stdout \<noteq> [] then ''$ stdout'' @ [nl] @ stdout else []);
          c2 = (if stderr \<noteq> []
                then (if c1 \<noteq> [] \<and> \<not> ends_with [nl] c1 then c1 @ [nl] else c1) @
                     ''$ stderr'' @ [nl] @ stderr
                else c1)
      in fst (truncate_bytes c2 TOOL_RUN_FAILURE_TAIL_LIMIT))"

subsection \<open>tool.run\<close>

text \<open>The part of the daemon the handlers use, and the rendering of JSON.\<close>

record ToolState =
  ts_root :: path
  ts_changelog :: ChangeLog
  ts_tool_run_cache :: "string \<rightharpoonup> ToolRunResult"
  ts_metrics :: ToolMetrics

record Render =
  rd_to_string :: "json \<Rightarrow> string"
  rd_run_size :: "ToolRunResult \<Rightarrow> nat"
  rd_gh_size :: "ToolGhResult \<Rightarrow> nat"
  rd_from_slice :: "string \<Rightarrow> json option"

definition env_json :: "ToolRunEnv \<Rightarrow> json" where
  "env_json e = JObject [(''name'', JString (tre_name e)), (''value'', JString (tre_value e))]"

definition tool_run_cache_json :: "nat \<Rightarrow> string \<Rightarrow> ToolRunParams \<Rightarrow> json" where
  "tool_run_cache_json version cwd params =
     JObject [(''version'', JNumber (PosInt version)),
              (''cwd'', JString cwd),
              (''command'', JString (trp_command params)),
              (''args'', JArray (map JString (trp_args params))),
              (''env'', JArray (map env_json (trp_env params))),
              (''max_output_bytes'',
               case trp_max_output_bytes params of None \<Rightarrow> JNull | Some n \<Rightarrow> JNumber (PosInt n))]"

definition tool_run_cache_key :: "Render \<Rightarrow> nat \<Rightarrow> string \<Rightarrow> ToolRunParams \<Rightarrow> string" where
  "tool_run_cache_key rd version cwd params = rd_to_string rd (tool_run_cache_json version cwd params)"

definition run_cache_get ::
  "unit \<Rightarrow> string \<Rightarrow> (string \<rightharpoonup> ToolRunResult) \<Rightarrow> ToolRunResult option \<times> (string \<rightharpoonup> ToolRunResult)" where
  "run_cache_get u key c = (c key, c)"

definition run_cache_insert ::
  "unit \<Rightarrow> string \<Rightarrow> ToolRunResult \<Rightarrow> (string \<rightharpoonup> ToolRunResult) \<Rightarrow> (string \<rightharpoonup> ToolRunResult)" where
  "run_cache_insert u key r c = c(key \<mapsto> r)"

definition run_result :: "ToolRunParams \<Rightarrow> string \<Rightarrow> Output \<Rightarrow> ToolRunResult" where
  "run_result params cwd_display output =
     (let limit = max (case trp_max_output_bytes params of
                         Some n \<Rightarrow> n | None \<Rightarrow> TOOL_RUN_DEFAULT_OUTPUT_LIMIT) 1;
          (stdout, stdout_truncated) = truncate_bytes (out_stdout output) limit;
          (stderr, stderr_truncated) = truncate_bytes (out_stderr output) limit;
          success = status_success (out_status output);
          failure_output = (if success then []
                            else failure_tail (out_stdout output) (out_stderr output))
      in \<lparr>trr_command = trp_command params, trr_args = trp_args params, trr_cwd = cwd_display,
          trr_exit_code = status_code (out_status output), trr_success = success,
          trr_stdout = stdout, trr_stderr = stderr, trr_stdout_truncated = stdout_truncated,
          trr_stderr_truncated = stderr_truncated, trr_failure_output = failure_output,
          trr_cached = False\<rparr>)"

definition run_cwd :: "Os \<Rightarrow> path \<Rightarrow> string option \<Rightarrow> path rpc" where
  "run_cwd os root cwd =
     (case cwd of Some c \<Rightarrow> resolve_within os root c | None \<Rightarrow> Ok root)"

definition tool_run_inner ::
  "Os \<Rightarrow> Render \<Rightarrow> 'w exec \<Rightarrow> ToolRunParams \<Rightarrow> ToolState \<times> 'w \<Rightarrow> ToolRunResult rpc \<times> ToolState \<times> 'w" where
  "tool_run_inner os rd exec params st_w =
     (case st_w of (st, w) \<Rightarrow>
      case run_cwd os (ts_root st) (trp_cwd params) of
        Err e \<Rightarrow> (Err e, st, w)
      | Panic m \<Rightarrow> (Panic m, st, w)
      | Ok cwd \<Rightarrow>
          let cwd_display = relative_str (ts_root st) cwd;
              version = fst (changelog_snapshot (ts_changelog st));
              cache_key = (if trp_cache params
                           then Some (tool_run_cache_key rd version cwd_display params) else None);
              hit = (case cache_key of
                       Some key \<Rightarrow> fst (run_cache_get () key (ts_tool_run_cache st))
                     | None \<Rightarrow> None)
          in case hit of
               Some cached \<Rightarrow> (Ok (cached\<lparr>trr_cached := True\<rparr>), st, w)
             | None \<Rightarrow>
                 (case exec \<lparr>cmd_program = trp_command params, cmd_args = trp_args params, cmd_dir = cwd,
                            cmd_envs = map (\<lambda>e. (tre_name e, tre_value e)) (trp_env params)\<rparr> w of
                    (Err e, w') \<Rightarrow>
                      (Err (rpc_error (-32070) (''spawn '' @ trp_command params @ '': '' @ e)), st, w')
                  | (Panic m, w') \<Rightarrow> (Panic m, st, w')
                  | (Ok output, w') \<Rightarrow>
                      let result = run_result params cwd_display output;
                          raw_bytes = rd_run_size rd result;
                          st1 = st\<lparr>ts_metrics :=
                                     metrics_record (Bytes TOOL_RUN raw_bytes raw_bytes) (ts_metrics st)\<rparr>;
                          st2 = (case cache_key of
                                   Some key \<Rightarrow>
                                     if trr_success result
                                     then st1\<lparr>ts_tool_run_cache :=
                                            run_cache_insert () key result (ts_tool_run_cache st1)\<rparr>
                                     else st1
                                 | None \<Rightarrow> st1)
                      in (Ok result, st2, w')))"

definition tool_run ::
  "Os \<Rightarrow> Render \<Rightarrow> 'w exec \<Rightarrow> ToolRunParams \<Rightarrow> ToolState \<times> 'w \<Rightarrow> ToolRunResult rpc \<times> ToolState \<times> 'w" where
  "tool_run os rd exec params st_w =
     (if trim (trp_command params) = []
      then (Err (rpc_error (-32602) ''command must not be empty''), st_w)
      else tool_run_inner os rd exec params st_w)"

subsection \<open>tool.gh\<close>

definition gh_default_fields :: "string \<Rightarrow> string" where
  "gh_default_fields kind =
     (if kind = ''pr''
      then ''number,title,state,isDraft,author,headRefName,baseRefName,url,statusCheckRollup''
      else ''number,title,state,author,assignees,labels,url,comments'')"

definition gh_args :: "ToolGhParams \<Rightarrow> string list" where
  "gh_args params =
     [tgp_kind params, ''view''] @
     (case tgp_selector params of Some s \<Rightarrow> [s] | None \<Rightarrow> []) @
     (case tgp_repo params of Some r \<Rightarrow> [''--repo'', r] | None \<Rightarrow> []) @
     [''--json'', if tgp_fields params = [] then gh_default_fields (tgp_kind params)
                else join '','' (tgp_fields params)]"

definition tool_gh ::
  "Render \<Rightarrow> 'w exec \<Rightarrow> ToolGhParams \<Rightarrow> ToolState \<times> 'w \<Rightarrow> ToolGhResult rpc \<times> ToolState \<times> 'w" where
  "tool_gh rd exec params st_w =
     (case st_w of (st, w) \<Rightarrow>
        if tgp_kind params \<noteq> ''pr'' \<and> tgp_kind params \<noteq> ''issue''
        then (Err (rpc_error (-32602) ''kind must be `pr` or `issue`''), st, w)
        else
          (case exec \<lparr>cmd_program = ''gh'', cmd_args = gh_args params, cmd_dir = ts_root st,
                      cmd_envs = []\<rparr> w of
             (Err e, w') \<Rightarrow> (Err (rpc_error (-32071) (''spawn gh: '' @ e)), st, w')
           | (Panic m, w') \<Rightarrow> (Panic m, st, w')
           | (Ok output, w') \<Rightarrow>
               let stdout = fst (truncate_bytes (out_stdout output) TOOL_RUN_DEFAULT_OUTPUT_LIMIT);
                   stderr = fst (truncate_bytes (out_stderr output) TOOL_RUN_DEFAULT_OUTPUT_LIMIT);
                   value = (if status_success (out_status output)
                            then rd_from_slice rd (out_stdout output) else None);
                   result = \<lparr>tgr_kind = tgp_kind params, tgr_selector = tgp_selector params,
                             tgr_exit_code = status_code (out_status output),
                             tgr_success = status_success (out_status output), tgr_value = value,
                             tgr_stdout = stdout, tgr_stderr = stderr\<rparr>;
                   raw_bytes = rd_gh_size rd result
               in (Ok result,
                   st\<lparr>ts_metrics := metrics_record (Bytes TOOL_GH raw_bytes raw_bytes) (ts_metrics st)\<rparr>,
                   w')))"

subsection \<open>Traces\<close>

text \<open>Requests, and file-system events between them. The trace lists, for every request, the
  version it was served at, its parameters and its answer.\<close>

datatype run_event = Run ToolRunParams | Fs_Event string ChangeKind

type_synonym run_answer = "nat \<times> ToolRunParams \<times> ToolRunResult rpc"

fun run_trace ::
  "Os \<Rightarrow> Render \<Rightarrow> 'w exec \<Rightarrow> run_event list \<Rightarrow> ToolState \<times> 'w \<Rightarrow> run_answer list \<times> ToolState \<times> 'w" where
  "run_trace os rd exec [] s = ([], s)"
| "run_trace os rd exec (Fs_Event p k # evs) (st, w) =
     run_trace os rd exec evs
       (st\<lparr>ts_changelog := changelog_record p k (ts_changelog st)\<rparr>, w)"
| "run_trace os rd exec (Run ps # evs) (st, w) =
     (case tool_run os rd exec ps (st, w) of
        (r, s') \<Rightarrow>
          (case run_trace os rd exec evs s' of
             (rs, s'') \<Rightarrow> ((cl_version (ts_changelog st), ps, r) # rs, s'')))"

definition same_command :: "ToolRunParams \<Rightarrow> ToolRunParams \<Rightarrow> bool" where
  "same_command p q \<longleftrightarrow>
     trp_command p = trp_command q \<and> trp_args p = trp_args q \<and> trp_env p = trp_env q \<and>
     trp_max_output_bytes p = trp_max_output_bytes q"

definition same_dir :: "Os \<Rightarrow> path \<Rightarrow> ToolRunParams \<Rightarrow> ToolRunParams \<Rightarrow> bool" where
  "same_dir os root p q \<longleftrightarrow>
     (case (run_cwd os root (trp_cwd p), run_cwd os root (trp_cwd q)) of
        (Ok d, Ok d') \<Rightarrow> relative_str root d = relative_str root d'
      | _ \<Rightarrow> False)"

text \<open>What a cache entry stands for: an earlier, successful, uncached answer with that key.\<close>

definition origin ::
  "Os \<Rightarrow> Render \<Rightarrow> path \<Rightarrow> run_answer list \<Rightarrow> unit \<Rightarrow> string \<Rightarrow> ToolRunResult \<Rightarrow> bool" where
  "origin os rd root H u key r \<longleftrightarrow>
     (\<exists>v ps d. (v, ps, Ok r) \<in> set H \<and> run_cwd os root (trp_cwd ps) = Ok d \<and>
        key = tool_run_cache_key rd v (relative_str root d) ps \<and> \<not> trr_cached r \<and> trr_success r)"

subsection \<open>The cache\<close>

definition run_cache_holds ::
  "(string \<rightharpoonup> ToolRunResult) \<Rightarrow> unit \<Rightarrow> string \<Rightarrow> ToolRunResult \<Rightarrow> bool" where
  "run_cache_holds c u key r \<longleftrightarrow> c key = Some r"

interpretation trc: versioned_cache run_cache_get run_cache_insert run_cache_holds
  by unfold_locales
    (auto simp: run_cache_get_def run_cache_insert_def run_cache_holds_def split: if_splits)

lemma env_json_inj: "inj env_json"
  by (rule injI) (simp add: env_json_def)

lemma cache_key_inj:
  assumes "inj (rd_to_string rd)"
    and "tool_run_cache_key rd v cwd p = tool_run_cache_key rd v' cwd' q"
  shows "v = v' \<and> cwd = cwd' \<and> same_command p q"
proof -
  have "tool_run_cache_json v cwd p = tool_run_cache_json v' cwd' q"
    using assms by (simp add: tool_run_cache_key_def inj_eq)
  moreover have "inj JString" by (rule injI) simp
  ultimately show ?thesis
    by (auto simp: tool_run_cache_json_def same_command_def inj_map_eq_map env_json_inj
        split: option.splits)
qed

lemma origin_mono: "set H \<subseteq> set H' \<Longrightarrow> origin os rd root H u key r \<Longrightarrow> origin os rd root H' u key r"
  unfolding origin_def by blast

lemma consistent_mono:
  "set H \<subseteq> set H' \<Longrightarrow> trc.consistent (origin os rd root H) c \<Longrightarrow> trc.consistent (origin os rd root H') c"
  unfolding trc.consistent_def using origin_mono by blast

lemma run_result_fields [simp]:
  "trr_success (run_result ps cwd out) = status_success (out_status out)"
  "\<not> trr_cached (run_result ps cwd out)"
  by (simp_all add: run_result_def Let_def split_beta)

text \<open>One request: its effect on the rest of the state, and on the cache.\<close>

lemma tool_run_state:
  assumes "tool_run os rd exec ps (st, w) = (r, st', w')"
  shows "ts_root st' = ts_root st" "ts_changelog st' = ts_changelog st"
  using assms
  by (auto simp: tool_run_def tool_run_inner_def Let_def split: if_splits res.splits option.splits prod.splits)

lemma tool_run_cases:
  assumes "tool_run os rd exec ps (st, w) = (r, st', w')"
  obtains (hit) d c where "run_cwd os (ts_root st) (trp_cwd ps) = Ok d"
      "ts_tool_run_cache st
         (tool_run_cache_key rd (cl_version (ts_changelog st)) (relative_str (ts_root st) d) ps) = Some c"
      "r = Ok (c\<lparr>trr_cached := True\<rparr>)" "st' = st"
  | (stored) d c where "run_cwd os (ts_root st) (trp_cwd ps) = Ok d" "r = Ok c" "\<not> trr_cached c"
      "trr_success c"
      "ts_tool_run_cache st' = run_cache_insert ()
         (tool_run_cache_key rd (cl_version (ts_changelog st)) (relative_str (ts_root st) d) ps) c
         (ts_tool_run_cache st)"
  | (other) "\<And>c. r = Ok c \<Longrightarrow> \<not> trr_cached c" "ts_tool_run_cache st' = ts_tool_run_cache st"
proof -
  note run = assms [unfolded tool_run_def tool_run_inner_def Let_def]
  show thesis
  proof (cases "trim (trp_command ps) = []")
    case True
    then show thesis using run by (intro other) auto
  next
    case ne: False
    show thesis
    proof (cases "run_cwd os (ts_root st) (trp_cwd ps)")
      case (Ok d)
      let ?k = "tool_run_cache_key rd (cl_version (ts_changelog st)) (relative_str (ts_root st) d) ps"
      obtain x w1 where ex: "exec \<lparr>cmd_program = trp_command ps, cmd_args = trp_args ps, cmd_dir = d,
          cmd_envs = map (\<lambda>e. (tre_name e, tre_value e)) (trp_env ps)\<rparr> w = (x, w1)" by (rule prod.exhaust)
      note run' = run [simplified ne Ok if_False res.case prod.case changelog_snapshot_def fst_conv ex]
      show thesis
      proof (cases "trp_cache ps \<and> ts_tool_run_cache st ?k \<noteq> None")
        case True
        then show thesis using run' Ok by (auto simp: run_cache_get_def intro: hit)
      next
        case miss: False
        show thesis
        proof (cases "\<exists>out. x = Ok out \<and> status_success (out_status out) \<and> trp_cache ps")
          case True
          then obtain out where out: "x = Ok out" "status_success (out_status out)" "trp_cache ps" by blast
          show thesis
            using run' miss out by (intro stored [OF Ok]) (auto simp: run_cache_get_def)
        next
          case False
          then show thesis
            using run' miss
            by (intro other) (auto simp: run_cache_get_def split: res.splits if_splits)
        qed
      qed
    qed (use run ne in \<open>auto intro: other\<close>)
  qed
qed

lemma tool_run_consistent:
  assumes "trc.consistent (origin os rd (ts_root st) H) (ts_tool_run_cache st)"
    and "tool_run os rd exec ps (st, w) = (r, st', w')"
  shows "trc.consistent (origin os rd (ts_root st) (H @ [(cl_version (ts_changelog st), ps, r)]))
           (ts_tool_run_cache st')"
proof -
  let ?H = "H @ [(cl_version (ts_changelog st), ps, r)]"
  have m: "trc.consistent (origin os rd (ts_root st) ?H) (ts_tool_run_cache st)"
    using assms(1) by (rule consistent_mono [rotated]) auto
  from assms(2) show ?thesis
  proof (cases rule: tool_run_cases)
    case (stored d c)
    have "origin os rd (ts_root st) ?H ()
        (tool_run_cache_key rd (cl_version (ts_changelog st)) (relative_str (ts_root st) d) ps) c"
      using stored unfolding origin_def by auto
    then show ?thesis using trc.consistent_ins [OF m] stored(5) by simp
  qed (use m in simp_all)
qed

lemma run_trace_origin:
  assumes "trc.consistent (origin os rd (ts_root st) H) (ts_tool_run_cache st)"
    and "run_trace os rd exec evs (st, w) = (rs, s')"
    and "i < length rs" "rs ! i = (v, ps, Ok r)" "trr_cached r"
  shows "\<exists>d c. run_cwd os (ts_root st) (trp_cwd ps) = Ok d \<and> r = c\<lparr>trr_cached := True\<rparr> \<and>
           origin os rd (ts_root st) (H @ take i rs) ()
             (tool_run_cache_key rd v (relative_str (ts_root st) d) ps) c"
  using assms
proof (induction evs arbitrary: st w H rs i s')
  case Nil
  then show ?case by simp
next
  case (Cons ev evs)
  show ?case
  proof (cases ev)
    case (Fs_Event p k)
    then show ?thesis
      using Cons.IH [of "st\<lparr>ts_changelog := changelog_record p k (ts_changelog st)\<rparr>" H w rs s' i]
        Cons.prems by simp
  next
    case (Run q)
    obtain a st1 w1 where t: "tool_run os rd exec q (st, w) = (a, st1, w1)" by (metis prod_cases3)
    obtain rs1 s1 where rr: "run_trace os rd exec evs (st1, w1) = (rs1, s1)"
      by (cases "run_trace os rd exec evs (st1, w1)")
    let ?e = "(cl_version (ts_changelog st), q, a)"
    have rs: "rs = ?e # rs1" using Cons.prems(2) Run t rr by simp
    note con = tool_run_consistent [OF Cons.prems(1) t]
    show ?thesis
    proof (cases i)
      case 0
      then have e: "v = cl_version (ts_changelog st)" "ps = q" "a = Ok r" using Cons.prems(4) rs by simp_all
      from t show ?thesis
      proof (cases rule: tool_run_cases)
        case (hit d c)
        then have "trc.consistent (origin os rd (ts_root st) H) (ts_tool_run_cache st) \<Longrightarrow>
            origin os rd (ts_root st) H () (tool_run_cache_key rd v (relative_str (ts_root st) d) ps) c"
          using e trc.consistent_hit by (fastforce simp: run_cache_get_def)
        then show ?thesis using hit e 0 Cons.prems(1) by auto
      qed (use e Cons.prems(5) in auto)
    next
      case (Suc j)
      have "trc.consistent (origin os rd (ts_root st1) (H @ [?e])) (ts_tool_run_cache st1)"
        using con tool_run_state(1) [OF t] by simp
      from Cons.IH [OF this rr, of j] show ?thesis
        using Cons.prems(3-5) Suc rs tool_run_state(1) [OF t] by simp
    qed
  qed
qed

subsection \<open>Truncation\<close>

definition ascii :: "string \<Rightarrow> bool" where
  "ascii s \<longleftrightarrow> list_all (\<lambda>c. byte c < 128) s"

lemma ascii_lossy: "ascii s \<Longrightarrow> from_utf8_lossy s = s"
  by (intro from_utf8_lossy_valid valid_utf8_ascii) (simp add: ascii_def list_all_iff)

lemma ascii_append [simp]: "ascii (a @ b) \<longleftrightarrow> ascii a \<and> ascii b"
  by (simp add: ascii_def)

lemma ascii_drop: "ascii s \<Longrightarrow> ascii (drop n s)"
  by (auto simp: ascii_def list_all_iff dest: in_set_dropD)

lemma dec_of_nat_length: "n < 10 ^ Suc k \<Longrightarrow> length (dec_of_nat n) \<le> Suc k"
proof (induction k arbitrary: n)
  case 0
  then show ?case by (subst dec_of_nat.simps) simp
next
  case (Suc k)
  have "n div 10 < 10 ^ Suc k" using Suc.prems by (simp add: less_mult_imp_div_less)
  then show ?case using Suc.IH by (subst dec_of_nat.simps) simp
qed

text \<open>Truncation keeps exactly the last bytes.\<close>

lemma truncate_bytes_suffix:
  "ascii bytes \<Longrightarrow> suffix (drop (length bytes - mx) bytes) (fst (truncate_bytes bytes mx))"
  by (auto simp: truncate_bytes_def Let_def ascii_lossy ascii_drop suffix_def)

lemma truncate_bytes_length:
  assumes "ascii bytes" "mx < 10 ^ Suc k"
  shows "length (fst (truncate_bytes bytes mx)) \<le> mx + 45 + Suc k"
  using assms dec_of_nat_length [OF assms(2)]
  by (auto simp: truncate_bytes_def Let_def ascii_lossy ascii_drop truncation_notice_def)

lemma failure_tail_parts:
  assumes "stderr \<noteq> []"
  obtains pre where "failure_tail stdout stderr =
      fst (truncate_bytes (pre @ stderr) TOOL_RUN_FAILURE_TAIL_LIMIT)"
    "ascii stdout \<Longrightarrow> ascii pre"
proof -
  let ?c1 = "if stdout \<noteq> [] then ''$ stdout'' @ [nl] @ stdout else []"
  let ?pre = "(if ?c1 \<noteq> [] \<and> \<not> ends_with [nl] ?c1 then ?c1 @ [nl] else ?c1) @ ''$ stderr'' @ [nl]"
  show thesis
  proof (rule that [of ?pre])
    show "failure_tail stdout stderr = fst (truncate_bytes (?pre @ stderr) TOOL_RUN_FAILURE_TAIL_LIMIT)"
      using assms by (simp add: failure_tail_def Let_def)
    show "ascii ?pre" if "ascii stdout"
      using that by (simp add: ascii_def byte_def)
  qed
qed

lemma suffix_drop_append: "suffix (drop (length s - n) s) (drop (length (p @ s) - n) (p @ s))"
proof -
  have "drop (length (p @ s) - n) (p @ s) =
      drop (length p + length s - n) p @ drop (length s - n) s" by simp
  then show ?thesis by (metis suffixI)
qed

text \<open>A self-delimiting encoding of JSON values, an instance of an injective rendering.\<close>

definition enc_nat :: "nat \<Rightarrow> string" where
  "enc_nat n = replicate n CHR ''1'' @ ''0''"

definition enc_str :: "string \<Rightarrow> string" where
  "enc_str s = enc_nat (length s) @ s"

fun enc_number :: "json_number \<Rightarrow> string" where
  "enc_number (PosInt n) = ''p'' @ enc_nat n"
| "enc_number (NegInt i) = (if i < 0 then ''m'' else ''z'') @ enc_nat (nat \<bar>i\<bar>)"
| "enc_number (Float x) = ''d'' @ enc_nat (unat x)"

fun enc_json :: "json \<Rightarrow> string" and enc_list :: "json list \<Rightarrow> string"
  and enc_obj :: "(string \<times> json) list \<Rightarrow> string" where
  "enc_json JNull = ''n''"
| "enc_json (JBool b) = (if b then ''t'' else ''f'')"
| "enc_json (JNumber x) = ''#'' @ enc_number x"
| "enc_json (JString s) = ''s'' @ enc_str s"
| "enc_json (JArray xs) = ''['' @ enc_list xs"
| "enc_json (JObject kvs) = ''{'' @ enc_obj kvs"
| "enc_list [] = '']''"
| "enc_list (x # xs) = '','' @ enc_json x @ enc_list xs"
| "enc_obj [] = ''}''"
| "enc_obj ((k, v) # kvs) = '','' @ enc_str k @ enc_json v @ enc_obj kvs"

lemma enc_nat_prefix: "enc_nat n @ x = enc_nat m @ y \<longleftrightarrow> n = m \<and> x = y"
proof (induction n arbitrary: m)
  case 0
  then show ?case by (cases m) (auto simp: enc_nat_def)
next
  case (Suc n)
  then show ?case by (cases m) (auto simp: enc_nat_def)
qed

lemma enc_str_prefix: "enc_str s @ x = enc_str t @ y \<longleftrightarrow> s = t \<and> x = y"
  by (auto simp: enc_str_def enc_nat_prefix)

lemma enc_number_prefix: "enc_number a @ x = enc_number b @ y \<longleftrightarrow> a = b \<and> x = y"
  by (cases a; cases b) (auto simp: enc_nat_prefix unsigned_word_eqI)

lemma enc_prefix:
  "enc_json a @ x = enc_json b @ y \<longleftrightarrow> a = b \<and> x = y"
  "enc_list as @ x = enc_list bs @ y \<longleftrightarrow> as = bs \<and> x = y"
  "enc_obj kvs @ x = enc_obj lvs @ y \<longleftrightarrow> kvs = lvs \<and> x = y"
proof (induction a and as and kvs arbitrary: b x y and bs x y and lvs x y rule: enc_json_enc_list_enc_obj.induct)
  case 1
  show ?case by (cases b) (auto simp: enc_str_prefix enc_number_prefix)
next
  case (2 c)
  show ?case by (cases b) (auto simp: enc_str_prefix enc_number_prefix)
next
  case (3 n)
  show ?case by (cases b) (auto simp: enc_str_prefix enc_number_prefix)
next
  case (4 t)
  show ?case by (cases b) (auto simp: enc_str_prefix enc_number_prefix)
next
  case (5 xs)
  show ?case by (cases b) (auto simp: enc_str_prefix enc_number_prefix "5.IH")
next
  case (6 kvs)
  show ?case by (cases b) (auto simp: enc_str_prefix enc_number_prefix "6.IH")
next
  case 7
  show ?case by (cases bs) (auto simp: enc_str_prefix enc_number_prefix)
next
  case (8 z zs)
  show ?case by (cases bs) (auto simp: enc_str_prefix enc_number_prefix "8.IH")
next
  case 9
  show ?case by (cases lvs) (auto simp: enc_str_prefix enc_number_prefix)
next
  case (10 k v kvs)
  show ?case by (cases lvs) (auto simp: enc_str_prefix "10.IH")
qed

lemma enc_json_inj: "inj enc_json"
  by (rule injI) (metis append_Nil2 enc_prefix(1))

subsection \<open>Properties\<close>

text \<open>C28. A cached answer of \<open>tool.run\<close> is the answer of an earlier request of the same daemon that
  really ran and succeeded: at the same change-log version, with the same command, arguments,
  environment, output limit and working directory. Only the \<open>cached\<close> flag differs. This holds
  for every sequence of requests and file-system events, whatever the commands do.\<close>

theorem tool_run_hits_are_replays:
  assumes "inj (rd_to_string rd)" "ts_tool_run_cache st = Map.empty"
    and "run_trace os rd exec evs (st, w) = (rs, s')"
    and "i < length rs" "rs ! i = (v, ps, Ok r)" "trr_cached r"
  shows "\<exists>j < i. \<exists>ps' r'. rs ! j = (v, ps', Ok r') \<and> \<not> trr_cached r' \<and> trr_success r' \<and>
           r = r'\<lparr>trr_cached := True\<rparr> \<and> same_command ps' ps \<and> same_dir os (ts_root st) ps' ps"
proof -
  have "trc.consistent (origin os rd (ts_root st) []) (ts_tool_run_cache st)"
    using assms(2) by (simp add: trc.consistent_def run_cache_holds_def)
  from run_trace_origin [OF this assms(3-6)] obtain d c where
    d: "run_cwd os (ts_root st) (trp_cwd ps) = Ok d" "r = c\<lparr>trr_cached := True\<rparr>" and
    o: "origin os rd (ts_root st) (take i rs) () (tool_run_cache_key rd v (relative_str (ts_root st) d) ps) c"
    by auto
  from o obtain v' ps' d' where h: "(v', ps', Ok c) \<in> set (take i rs)"
    "run_cwd os (ts_root st) (trp_cwd ps') = Ok d'" "\<not> trr_cached c" "trr_success c"
    "tool_run_cache_key rd v (relative_str (ts_root st) d) ps =
       tool_run_cache_key rd v' (relative_str (ts_root st) d') ps'"
    unfolding origin_def by blast
  note k = cache_key_inj [OF assms(1) h(5)]
  from h(1) obtain j where "j < i" "rs ! j = (v', ps', Ok c)"
    by (auto simp: in_set_conv_nth)
  then show ?thesis using h k d by (auto simp: same_command_def same_dir_def)
qed

definition demo_render :: Render where
  "demo_render = \<lparr>rd_to_string = enc_json, rd_run_size = (\<lambda>_. 7), rd_gh_size = (\<lambda>_. 7),
     rd_from_slice = (\<lambda>_. None)\<rparr>"

definition demo_run :: ToolRunParams where
  "demo_run = \<lparr>trp_command = ''x'', trp_args = [''y''], trp_cwd = None, trp_env = [],
     trp_max_output_bytes = None, trp_cache = True\<rparr>"

definition demo_tools :: ToolState where
  "demo_tools = \<lparr>ts_root = [''r''], ts_changelog = changelog_with_capacity 4,
     ts_tool_run_cache = Map.empty, ts_metrics = []\<rparr>"

definition demo_exec :: "nat exec" where
  "demo_exec c n = (Ok \<lparr>out_status = Exited 0, out_stdout = replicate n CHR ''o'', out_stderr = []\<rparr>, Suc n)"

lemma demo_trim: "trim ''x'' = ''x''"
  by code_simp

lemma demo_display: "relative_str [''r''] [''r''] = []"
  by code_simp

lemma demo_lossy: "from_utf8_lossy [] = []" "from_utf8_lossy ''o'' = ''o''"
  by code_simp+

lemma demo_trace:
  "run_trace demo_os demo_render demo_exec [Run demo_run, Run demo_run] (demo_tools, 0) =
     ([(0, demo_run, Ok (run_result demo_run [] (\<lparr>out_status = Exited 0, out_stdout = [], out_stderr = []\<rparr>))),
       (0, demo_run, Ok ((run_result demo_run [] \<lparr>out_status = Exited 0, out_stdout = [], out_stderr = []\<rparr>)
          \<lparr>trr_cached := True\<rparr>))],
      snd (run_trace demo_os demo_render demo_exec [Run demo_run] (demo_tools, 0)))"
  by (simp add: tool_run_def tool_run_inner_def demo_run_def demo_trim run_cwd_def demo_tools_def
      demo_display changelog_snapshot_def changelog_with_capacity_def run_cache_get_def
      run_cache_insert_def demo_exec_def demo_render_def status_success_def Let_def)

theorem tool_run_hits_are_replays_witness:
  "\<exists>rs s. run_trace demo_os demo_render demo_exec [Run demo_run, Run demo_run] (demo_tools, 0) = (rs, s) \<and>
     snd s = 1 \<and> (\<exists>j < 1. \<exists>ps' r'. rs ! j = (0, ps', Ok r') \<and> same_command ps' demo_run)"
proof -
  have inj: "inj (rd_to_string demo_render)" by (simp add: demo_render_def enc_json_inj)
  have em: "ts_tool_run_cache demo_tools = Map.empty" by (simp add: demo_tools_def)
  have s: "snd (snd (run_trace demo_os demo_render demo_exec [Run demo_run] (demo_tools, 0))) = 1"
    by (simp add: tool_run_def tool_run_inner_def demo_run_def demo_trim run_cwd_def demo_tools_def
      demo_display changelog_snapshot_def changelog_with_capacity_def run_cache_get_def
      run_cache_insert_def demo_exec_def demo_render_def status_success_def Let_def)
  from tool_run_hits_are_replays [OF inj em demo_trace, of 1] show ?thesis
    unfolding demo_trace using s by fastforce
qed

text \<open>The failure summary of a failed command: for ASCII output it ends with the last
  16 KiB of the standard error, whatever the standard output was, and is itself bounded.\<close>

theorem failure_output_ends_with_stderr:
  assumes "\<not> status_success (out_status out)" "out_stderr out \<noteq> []"
    and "ascii (out_stdout out)" "ascii (out_stderr out)"
  shows "suffix (drop (length (out_stderr out) - TOOL_RUN_FAILURE_TAIL_LIMIT) (out_stderr out))
           (trr_failure_output (run_result ps cwd out)) \<and>
         length (trr_failure_output (run_result ps cwd out)) \<le> TOOL_RUN_FAILURE_TAIL_LIMIT + 50"
proof -
  obtain pre where pre: "failure_tail (out_stdout out) (out_stderr out) =
      fst (truncate_bytes (pre @ out_stderr out) TOOL_RUN_FAILURE_TAIL_LIMIT)" "ascii pre"
    using failure_tail_parts [OF assms(2), of "out_stdout out"] assms(3) by metis
  then have a: "ascii (pre @ out_stderr out)" using assms(4) by simp
  have "trr_failure_output (run_result ps cwd out) = failure_tail (out_stdout out) (out_stderr out)"
    using assms(1) by (simp add: run_result_def Let_def split_beta)
  moreover have "length (fst (truncate_bytes (pre @ out_stderr out) TOOL_RUN_FAILURE_TAIL_LIMIT))
      \<le> TOOL_RUN_FAILURE_TAIL_LIMIT + 50"
    using truncate_bytes_length [OF a, of TOOL_RUN_FAILURE_TAIL_LIMIT 4]
    by (simp add: TOOL_RUN_FAILURE_TAIL_LIMIT_def)
  moreover note suffix_order.trans [OF suffix_drop_append truncate_bytes_suffix [OF a]]
  ultimately show ?thesis using pre(1) by simp
qed

theorem failure_output_ends_with_stderr_witness:
  "suffix ''boom'' (trr_failure_output
     (run_result \<lparr>trp_command = ''make'', trp_args = [], trp_cwd = None, trp_env = [],
                 trp_max_output_bytes = Some 2, trp_cache = False\<rparr> []
        \<lparr>out_status = Exited 2, out_stdout = ''cc'', out_stderr = ''boom''\<rparr>))"
  using failure_output_ends_with_stderr
      [of "\<lparr>out_status = Exited 2, out_stdout = ''cc'', out_stderr = ''boom''\<rparr>"
        "\<lparr>trp_command = ''make'', trp_args = [], trp_cwd = None, trp_env = [],
          trp_max_output_bytes = Some 2, trp_cache = False\<rparr>" "[]"]
  by (simp add: status_success_def ascii_def byte_def TOOL_RUN_FAILURE_TAIL_LIMIT_def)

end
