(* ===== verification/Jobs.thy ===== *)
theory Jobs
  imports Tool_Run
begin

text \<open>
  Background jobs: \<open>tool_spawn\<close>, \<open>tool_read_logs\<close>, \<open>tool_kill\<close> and the log reader threads of
  \<^verbatim>\<open>src/crates/daemon/src/handlers.rs\<close>, with the job table of \<^verbatim>\<open>src/crates/daemon/src/server.rs\<close>.

  A child process is what the operating system would answer about it: its status once it
  has ended, the status a \<open>wait\<close> after \<open>kill\<close> reports, and the errors of the three system
  calls. \<open>job_step\<close> interleaves the handlers with the reader threads and with children
  ending on their own; each step is one critical section of the code. A panic is the
  answer \<open>Panic\<close>, with the state it leaves.
\<close>

subsection \<open>State\<close>

record Child =
  ch_id :: nat
  ch_status :: "exit_status option"
  ch_after_kill :: exit_status
  ch_try_wait_fault :: "string option"
  ch_kill_fault :: "string option"
  ch_wait_fault :: "string option"

record BackgroundJob =
  bj_child :: Child
  bj_output :: string
  bj_killed :: bool
  bj_exit_code :: "int option"

record JobTable =
  jt_next_id :: nat
  jt_jobs :: "nat \<rightharpoonup> BackgroundJob"

definition job_table_new :: JobTable where
  "job_table_new = \<lparr>jt_next_id = 1, jt_jobs = Map.empty\<rparr>"

definition child_try_wait :: "Child \<Rightarrow> (exit_status option, string) res" where
  "child_try_wait c = (case ch_try_wait_fault c of Some e \<Rightarrow> Err e | None \<Rightarrow> Ok (ch_status c))"

subsection \<open>tool.spawn\<close>

definition tool_spawn ::
  "Os \<Rightarrow> path \<Rightarrow> (Command \<Rightarrow> (Child, string) res) \<Rightarrow> ToolSpawnParams \<Rightarrow> JobTable \<Rightarrow>
     ToolSpawnResult rpc \<times> JobTable" where
  "tool_spawn os root spawn params t =
     (if trim (tsp_command params) = []
      then (Err (rpc_error (-32602) ''command must not be empty''), t)
      else
        (case run_cwd os root (tsp_cwd params) of
           Err e \<Rightarrow> (Err e, t)
         | Panic m \<Rightarrow> (Panic m, t)
         | Ok cwd \<Rightarrow>
             (case spawn \<lparr>cmd_program = tsp_command params, cmd_args = tsp_args params, cmd_dir = cwd,
                          cmd_envs = map (\<lambda>e. (tre_name e, tre_value e)) (tsp_env params)\<rparr> of
                Err e \<Rightarrow> (Err (rpc_error (-32072) (''spawn '' @ tsp_command params @ '': '' @ e)), t)
              | Panic m \<Rightarrow> (Panic m, t)
              | Ok child \<Rightarrow>
                  let job_id = jt_next_id t;
                      pid = Some (ch_id child)
                  in (Ok \<lparr>tsr_job_id = job_id, tsr_pid = pid, tsr_command = tsp_command params,
                          tsr_args = tsp_args params\<rparr>,
                      \<lparr>jt_next_id = u64_add (jt_next_id t) 1,
                       jt_jobs = (jt_jobs t)(job_id \<mapsto>
                         \<lparr>bj_child = child, bj_output = [], bj_killed = False, bj_exit_code = None\<rparr>)\<rparr>))))"

subsection \<open>Log readers\<close>

record LogReader =
  lr_prefix :: string
  lr_wrote :: bool
  lr_done :: bool

definition log_reader :: "string \<Rightarrow> LogReader" where
  "log_reader pre = \<lparr>lr_prefix = pre, lr_wrote = False, lr_done = False\<rparr>"

definition stdout_reader :: LogReader where
  "stdout_reader = log_reader (''$ stdout'' @ [nl])"

definition stderr_reader :: LogReader where
  "stderr_reader = log_reader (''$ stderr'' @ [nl])"

text \<open>One iteration of the loop, for a chunk of at most 4096 bytes, and the end of the loop.\<close>

definition LOG_BUF :: nat where "LOG_BUF = 4096"

definition log_chunk :: "string \<Rightarrow> LogReader \<Rightarrow> string \<Rightarrow> LogReader \<times> string" where
  "log_chunk chunk r out =
     (r\<lparr>lr_wrote := True\<rparr>,
      (if lr_wrote r then out else out @ lr_prefix r) @ from_utf8_lossy chunk)"

definition log_end :: "LogReader \<Rightarrow> string \<Rightarrow> LogReader \<times> string" where
  "log_end r out =
     (r\<lparr>lr_done := True\<rparr>,
      if lr_wrote r \<and> \<not> ends_with [nl] out then out @ [nl] else out)"

subsection \<open>tool.read_logs\<close>

definition unknown_job :: "nat \<Rightarrow> RpcError" where
  "unknown_job job = rpc_error (-32073) (''unknown job: '' @ dec_of_nat job)"

definition wait_error :: "nat \<Rightarrow> string \<Rightarrow> RpcError" where
  "wait_error job e = rpc_error (-32074) (''wait job '' @ dec_of_nat job @ '': '' @ e)"

definition refresh_exit_code :: "nat \<Rightarrow> BackgroundJob \<Rightarrow> BackgroundJob rpc" where
  "refresh_exit_code job_id job =
     (if bj_exit_code job = None
      then (case child_try_wait (bj_child job) of
              Err e \<Rightarrow> Err (wait_error job_id e)
            | Panic m \<Rightarrow> Panic m
            | Ok (Some status) \<Rightarrow> Ok (job\<lparr>bj_exit_code := status_code status\<rparr>)
            | Ok None \<Rightarrow> Ok job)
      else Ok job)"

definition log_window :: "ToolReadLogsParams \<Rightarrow> string \<Rightarrow> nat \<times> nat" where
  "log_window params output =
     (let start = min (trlp_offset params) (length output)
      in (start, case trlp_max_bytes params of
                   Some mx \<Rightarrow> min (min (start + mx) usize_max) (length output)
                 | None \<Rightarrow> length output))"

definition tool_read_logs ::
  "ToolReadLogsParams \<Rightarrow> JobTable \<Rightarrow> ToolReadLogsResult rpc \<times> JobTable" where
  "tool_read_logs params t =
     (case jt_jobs t (trlp_job_id params) of
        None \<Rightarrow> (Err (unknown_job (trlp_job_id params)), t)
      | Some job0 \<Rightarrow>
          (case refresh_exit_code (trlp_job_id params) job0 of
             Err e \<Rightarrow> (Err e, t)
           | Panic m \<Rightarrow> (Panic m, t)
           | Ok job \<Rightarrow>
               let t' = t\<lparr>jt_jobs := (jt_jobs t)(trlp_job_id params \<mapsto> job)\<rparr>;
                   (start, fin) = log_window params (bj_output job)
               in (case str_slice start fin (bj_output job) of
                     None \<Rightarrow> (Panic ''byte index is not a char boundary'', t')
                   | Some output \<Rightarrow>
                       (Ok \<lparr>trlr_job_id = trlp_job_id params, trlr_output = output, trlr_next_offset = fin,
                            trlr_exit_code = bj_exit_code job,
                            trlr_running = (bj_exit_code job = None \<and> \<not> bj_killed job),
                            trlr_killed = bj_killed job\<rparr>, t'))))"

subsection \<open>tool.kill\<close>

text \<open>The job after the handler's \<open>match\<close>, together with its error if it ends there.\<close>

definition kill_job :: "nat \<Rightarrow> BackgroundJob \<Rightarrow> RpcError option \<times> BackgroundJob" where
  "kill_job job_id job =
     (if bj_exit_code job = None
      then (case child_try_wait (bj_child job) of
              Ok (Some status) \<Rightarrow> (None, job\<lparr>bj_exit_code := status_code status\<rparr>)
            | Ok None \<Rightarrow>
                (case ch_kill_fault (bj_child job) of
                   Some e \<Rightarrow>
                     (Some (rpc_error (-32075) (''kill job '' @ dec_of_nat job_id @ '': '' @ e)), job)
                 | None \<Rightarrow>
                     let status = ch_after_kill (bj_child job);
                         job1 = job\<lparr>bj_child := (bj_child job)\<lparr>ch_status := Some status\<rparr>\<rparr>
                     in (case ch_wait_fault (bj_child job) of
                           Some e \<Rightarrow> (Some (wait_error job_id e), job1)
                         | None \<Rightarrow> (None, job1\<lparr>bj_exit_code := status_code status, bj_killed := True\<rparr>)))
            | Err e \<Rightarrow> (Some (wait_error job_id e), job)
            | Panic m \<Rightarrow> (None, job))
      else (None, job))"

definition tool_kill :: "ToolKillParams \<Rightarrow> JobTable \<Rightarrow> ToolKillResult rpc \<times> JobTable" where
  "tool_kill params t =
     (case jt_jobs t (tkp_job_id params) of
        None \<Rightarrow> (Err (unknown_job (tkp_job_id params)), t)
      | Some job0 \<Rightarrow>
          (case kill_job (tkp_job_id params) job0 of
             (e, job) \<Rightarrow>
               let t' = t\<lparr>jt_jobs := (jt_jobs t)(tkp_job_id params \<mapsto> job)\<rparr>
               in (case e of
                     Some err \<Rightarrow> (Err err, t')
                   | None \<Rightarrow> (Ok \<lparr>tkr_job_id = tkp_job_id params, tkr_killed = bj_killed job,
                                 tkr_exit_code = bj_exit_code job\<rparr>, t'))))"

subsection \<open>Executions\<close>

text \<open>The table and the reader threads: two per job, for the standard output and, with
  \<open>True\<close>, the standard error.\<close>

record job_world =
  jw_table :: JobTable
  jw_readers :: "nat \<Rightarrow> bool \<Rightarrow> LogReader"

definition job_world_new :: job_world where
  "job_world_new = \<lparr>jw_table = job_table_new, jw_readers = (\<lambda>_ _. stdout_reader)\<rparr>"

definition new_readers :: "nat \<Rightarrow> (nat \<Rightarrow> bool \<Rightarrow> LogReader) \<Rightarrow> nat \<Rightarrow> bool \<Rightarrow> LogReader" where
  "new_readers i rs = rs(i := (\<lambda>err. if err then stderr_reader else stdout_reader))"

definition put_output :: "nat \<Rightarrow> bool \<Rightarrow> BackgroundJob \<Rightarrow> LogReader \<times> string \<Rightarrow> job_world \<Rightarrow> job_world" where
  "put_output i err job ro w =
     w\<lparr>jw_table := (jw_table w)\<lparr>jt_jobs := (jt_jobs (jw_table w))(i \<mapsto> job\<lparr>bj_output := snd ro\<rparr>)\<rparr>,
       jw_readers := (jw_readers w)(i := (jw_readers w i)(err := fst ro))\<rparr>"

inductive job_step :: "Os \<Rightarrow> path \<Rightarrow> job_world \<Rightarrow> job_world \<Rightarrow> bool" for os root where
  spawned: "tool_spawn os root spawn params (jw_table w) = (Ok res, t') \<Longrightarrow>
     job_step os root w \<lparr>jw_table = t', jw_readers = new_readers (tsr_job_id res) (jw_readers w)\<rparr>"
| chunk: "jt_jobs (jw_table w) i = Some job \<Longrightarrow> \<not> lr_done (jw_readers w i err) \<Longrightarrow>
     0 < length bytes \<Longrightarrow> length bytes \<le> LOG_BUF \<Longrightarrow>
     job_step os root w (put_output i err job (log_chunk bytes (jw_readers w i err) (bj_output job)) w)"
| eof: "jt_jobs (jw_table w) i = Some job \<Longrightarrow> \<not> lr_done (jw_readers w i err) \<Longrightarrow>
     job_step os root w (put_output i err job (log_end (jw_readers w i err) (bj_output job)) w)"
| ends: "jt_jobs (jw_table w) i = Some job \<Longrightarrow> ch_status (bj_child job) = None \<Longrightarrow>
     job_step os root w (w\<lparr>jw_table := (jw_table w)\<lparr>jt_jobs := (jt_jobs (jw_table w))
       (i \<mapsto> job\<lparr>bj_child := (bj_child job)\<lparr>ch_status := Some status\<rparr>\<rparr>)\<rparr>\<rparr>)"
| reads: "tool_read_logs params (jw_table w) = (r, t') \<Longrightarrow> job_step os root w (w\<lparr>jw_table := t'\<rparr>)"
| kills: "tool_kill kparams (jw_table w) = (k, t') \<Longrightarrow> job_step os root w (w\<lparr>jw_table := t'\<rparr>)"

inductive_cases job_stepE: "job_step os root w w'"

text \<open>Executions, counting their steps.\<close>

inductive job_reachable :: "Os \<Rightarrow> path \<Rightarrow> nat \<Rightarrow> job_world \<Rightarrow> bool" for os root where
  start: "job_reachable os root 0 job_world_new"
| step: "job_reachable os root n w \<Longrightarrow> job_step os root w w' \<Longrightarrow> job_reachable os root (Suc n) w'"

text \<open>A client that follows the log of job \<open>i\<close>, asking each time from where it stopped: \<open>off\<close>
  is the offset it has reached, \<open>pages\<close> what it has been given.\<close>

inductive polling :: "Os \<Rightarrow> path \<Rightarrow> nat \<Rightarrow> nat \<Rightarrow> nat \<Rightarrow> string list \<Rightarrow> job_world \<Rightarrow> bool"
  for os root i where
  start: "job_reachable os root n w \<Longrightarrow> jt_jobs (jw_table w) i = Some job \<Longrightarrow>
     polling os root i n 0 [] w"
| other: "polling os root i n off pages w \<Longrightarrow> job_step os root w w' \<Longrightarrow>
     polling os root i (Suc n) off pages w'"
| poll: "polling os root i n off pages w \<Longrightarrow>
     tool_read_logs \<lparr>trlp_job_id = i, trlp_offset = off, trlp_max_bytes = mx\<rparr> (jw_table w) = (Ok res, t') \<Longrightarrow>
     polling os root i (Suc n) (trlr_next_offset res) (pages @ [trlr_output res]) (w\<lparr>jw_table := t'\<rparr>)"

subsection \<open>What a step keeps\<close>

definition job_inv :: "BackgroundJob \<Rightarrow> bool" where
  "job_inv job \<longleftrightarrow>
     (\<forall>c. bj_exit_code job = Some c \<longrightarrow> ch_status (bj_child job) = Some (Exited c)) \<and>
     (bj_killed job \<longrightarrow> ch_status (bj_child job) \<noteq> None)"

definition reader_ok :: "LogReader \<Rightarrow> bool" where
  "reader_ok r \<longleftrightarrow> lr_prefix r \<noteq> [] \<and> \<not> is_cont (byte (hd (lr_prefix r)))"

definition world_inv :: "job_world \<Rightarrow> bool" where
  "world_inv w \<longleftrightarrow>
     (\<forall>i err. reader_ok (jw_readers w i err)) \<and>
     (\<forall>i job. jt_jobs (jw_table w) i = Some job \<longrightarrow> job_inv job)"

text \<open>A log only grows, and at character boundaries.\<close>

definition grows :: "string \<Rightarrow> string \<Rightarrow> bool" where
  "grows a b \<longleftrightarrow> (\<exists>x. b = a @ x \<and> (x \<noteq> [] \<longrightarrow> \<not> is_cont (byte (hd x))))"

definition evolves :: "BackgroundJob \<Rightarrow> BackgroundJob \<Rightarrow> bool" where
  "evolves job job' \<longleftrightarrow>
     grows (bj_output job) (bj_output job') \<and>
     ch_try_wait_fault (bj_child job') = ch_try_wait_fault (bj_child job) \<and>
     (ch_status (bj_child job) \<noteq> None \<longrightarrow> ch_status (bj_child job') = ch_status (bj_child job)) \<and>
     (bj_exit_code job \<noteq> None \<longrightarrow> bj_exit_code job' = bj_exit_code job) \<and>
     (bj_killed job \<longrightarrow> bj_killed job') \<and>
     (bj_killed job' \<longrightarrow> bj_killed job \<or> ch_status (bj_child job) = None)"

lemma grows_refl [simp]: "grows a a"
  by (simp add: grows_def)

lemma grows_append: "(x \<noteq> [] \<longrightarrow> \<not> is_cont (byte (hd x))) \<Longrightarrow> grows a (a @ x)"
  by (auto simp: grows_def)

lemma grows_trans:
  assumes "grows a b" "grows b c"
  shows "grows a c"
proof -
  obtain x where x: "b = a @ x" "x \<noteq> [] \<longrightarrow> \<not> is_cont (byte (hd x))" using assms(1) by (auto simp: grows_def)
  obtain y where y: "c = b @ y" "y \<noteq> [] \<longrightarrow> \<not> is_cont (byte (hd y))" using assms(2) by (auto simp: grows_def)
  show ?thesis
    using x y by (cases "x = []") (auto simp: grows_def)
qed

lemma grows_boundary:
  assumes "grows a b" "is_char_boundary a i"
  shows "is_char_boundary b i"
proof -
  obtain x where x: "b = a @ x" "x \<noteq> [] \<longrightarrow> \<not> is_cont (byte (hd x))" using assms(1) by (auto simp: grows_def)
  show ?thesis
    using assms(2) x by (cases x) (auto simp: is_char_boundary_def nth_append)
qed

lemma grows_take: "grows a b \<Longrightarrow> n \<le> length a \<Longrightarrow> take n b = take n a"
  by (auto simp: grows_def)

lemma grows_length: "grows a b \<Longrightarrow> length a \<le> length b"
  by (auto simp: grows_def)

lemma lossy_hd: "from_utf8_lossy s \<noteq> [] \<Longrightarrow> \<not> is_cont (byte (hd (from_utf8_lossy s)))"
proof -
  assume ne: "from_utf8_lossy s \<noteq> []"
  have "from_utf8_lossy [] = []" by (subst from_utf8_lossy.simps) simp
  then have s: "s \<noteq> []" using ne by metis
  show ?thesis
  proof (cases "fst (utf8_scan s)")
    case True
    have "hd (from_utf8_lossy s) = hd s"
      using s True utf8_scan_pos [of s] by (subst from_utf8_lossy.simps) (cases s, auto simp: take_Cons')
    moreover have "\<not> is_cont (byte_at s 0)"
      using True by (auto simp: utf8_scan_def Let_def is_cont_def split: if_splits)
    ultimately show ?thesis using s by (simp add: byte_at_def hd_conv_nth)
  next
    case False
    then show ?thesis
      using s by (subst from_utf8_lossy.simps) (simp add: replacement_char_def byte_def is_cont_def)
  qed
qed

lemma log_chunk_grows: "reader_ok r \<Longrightarrow> grows out (snd (log_chunk bytes r out))"
  unfolding log_chunk_def using lossy_hd [of bytes]
  by (auto simp: reader_ok_def intro!: grows_append)

lemma log_end_grows: "grows out (snd (log_end r out))"
  by (auto simp: log_end_def byte_def is_cont_def intro!: grows_append)

lemma log_reader_prefix [simp]:
  "reader_ok (fst (log_chunk bytes r out)) \<longleftrightarrow> reader_ok r"
  "reader_ok (fst (log_end r out)) \<longleftrightarrow> reader_ok r"
  by (simp_all add: reader_ok_def log_chunk_def log_end_def)

lemma fresh_readers_ok [simp]: "reader_ok stdout_reader" "reader_ok stderr_reader"
  by (simp_all add: reader_ok_def stdout_reader_def stderr_reader_def log_reader_def byte_def is_cont_def)

lemma evolves_refl [simp]: "evolves job job"
  by (simp add: evolves_def)

lemma refresh_evolves: "refresh_exit_code i job = Ok job' \<Longrightarrow> evolves job job'"
  by (auto simp: refresh_exit_code_def child_try_wait_def evolves_def split: if_splits res.splits option.splits)

lemma refresh_inv: "refresh_exit_code i job = Ok job' \<Longrightarrow> job_inv job \<Longrightarrow> job_inv job'"
proof -
  have "status_code st = Some c \<Longrightarrow> st = Exited c" for st c by (cases st) simp_all
  then show "refresh_exit_code i job = Ok job' \<Longrightarrow> job_inv job \<Longrightarrow> job_inv job'"
    by (auto simp: refresh_exit_code_def child_try_wait_def job_inv_def split: if_splits res.splits option.splits)
qed

lemma kill_evolves: "kill_job i job = (e, job') \<Longrightarrow> evolves job job'"
  by (auto simp: kill_job_def child_try_wait_def evolves_def Let_def
      split: if_splits res.splits option.splits)

lemma kill_inv: "kill_job i job = (e, job') \<Longrightarrow> job_inv job \<Longrightarrow> job_inv job'"
proof -
  have "status_code st = Some c \<Longrightarrow> st = Exited c" for st c by (cases st) simp_all
  then show "kill_job i job = (e, job') \<Longrightarrow> job_inv job \<Longrightarrow> job_inv job'"
    by (auto simp: kill_job_def child_try_wait_def job_inv_def Let_def split: if_splits res.splits option.splits)
qed

text \<open>The handlers change at most the job they name.\<close>

lemma tool_read_logs_table:
  assumes "tool_read_logs params t = (r, t')"
  obtains "t' = t"
  | job job' where "jt_jobs t (trlp_job_id params) = Some job"
      "refresh_exit_code (trlp_job_id params) job = Ok job'"
      "t' = t\<lparr>jt_jobs := (jt_jobs t)(trlp_job_id params \<mapsto> job')\<rparr>"
  using assms by (auto simp: tool_read_logs_def Let_def split_beta split: option.splits res.splits)

lemma tool_kill_table:
  assumes "tool_kill params t = (r, t')"
  obtains "t' = t"
  | job e job' where "jt_jobs t (tkp_job_id params) = Some job"
      "kill_job (tkp_job_id params) job = (e, job')"
      "t' = t\<lparr>jt_jobs := (jt_jobs t)(tkp_job_id params \<mapsto> job')\<rparr>"
  using assms by (auto simp: tool_kill_def Let_def split: option.splits prod.splits)

lemma tool_spawn_table:
  assumes "tool_spawn os root spawn params t = (Ok res, t')"
  obtains child where "tsr_job_id res = jt_next_id t"
    "t' = \<lparr>jt_next_id = u64_add (jt_next_id t) 1, jt_jobs = (jt_jobs t)(jt_next_id t \<mapsto>
       \<lparr>bj_child = child, bj_output = [], bj_killed = False, bj_exit_code = None\<rparr>)\<rparr>"
  using assms by (auto simp: tool_spawn_def Let_def split: if_splits res.splits)

lemma job_step_evolves:
  assumes "job_step os root w w'" "world_inv w" "jt_jobs (jw_table w) i = Some job"
    and "i \<noteq> jt_next_id (jw_table w)"
  shows "\<exists>job'. jt_jobs (jw_table w') i = Some job' \<and> evolves job job'"
  using assms(1)
proof cases
  case (spawned spawn params res t')
  then show ?thesis using assms(3,4) by (elim tool_spawn_table) auto
next
  case (chunk k job1 err bytes)
  have "reader_ok (jw_readers w k err)" using assms(2) by (simp add: world_inv_def)
  then have "evolves job1 (job1\<lparr>bj_output := snd (log_chunk bytes (jw_readers w k err) (bj_output job1))\<rparr>)"
    by (simp add: evolves_def log_chunk_grows)
  then show ?thesis using chunk assms(3) by (auto simp: put_output_def)
next
  case (eof k job1 err)
  have "evolves job1 (job1\<lparr>bj_output := snd (log_end (jw_readers w k err) (bj_output job1))\<rparr>)"
    by (simp add: evolves_def log_end_grows)
  then show ?thesis using eof assms(3) by (auto simp: put_output_def)
next
  case (ends k job1 status)
  then show ?thesis using assms(3) by (auto simp: evolves_def)
next
  case (reads params r t')
  then show ?thesis using assms(3) by (elim tool_read_logs_table) (auto dest: refresh_evolves)
next
  case (kills kparams k t')
  then show ?thesis using assms(3) by (elim tool_kill_table) (auto dest: kill_evolves)
qed

lemma job_step_inv:
  assumes "job_step os root w w'" "world_inv w"
  shows "world_inv w'"
  using assms(1)
proof cases
  case (spawned spawn params res t')
  then show ?thesis
    using assms(2) by (elim tool_spawn_table) (auto simp: world_inv_def job_inv_def new_readers_def)
next
  case (chunk k job1 err bytes)
  then show ?thesis using assms(2) by (auto simp: put_output_def world_inv_def job_inv_def)
next
  case (eof k job1 err)
  then show ?thesis using assms(2) by (auto simp: put_output_def world_inv_def job_inv_def)
next
  case (ends k job1 status)
  then have "job_inv job1" using assms(2) by (simp add: world_inv_def)
  then show ?thesis using ends assms(2) by (auto simp: world_inv_def job_inv_def)
next
  case (reads params r t')
  then show ?thesis
    using assms(2) by (elim tool_read_logs_table) (auto simp: world_inv_def dest: refresh_inv)
next
  case (kills kparams k t')
  then show ?thesis
    using assms(2) by (elim tool_kill_table) (auto simp: world_inv_def dest: kill_inv)
qed

text \<open>Job numbers are handed out in order, as long as the 64-bit counter does not wrap.\<close>

definition ids_ok :: "nat \<Rightarrow> JobTable \<Rightarrow> bool" where
  "ids_ok n t \<longleftrightarrow> 0 < jt_next_id t \<and> jt_next_id t \<le> Suc n \<and> dom (jt_jobs t) = {1..<jt_next_id t}"

lemma job_step_ids:
  assumes "job_step os root w w'" "ids_ok n (jw_table w)" "Suc (Suc n) < 2 ^ 64"
  shows "ids_ok (Suc n) (jw_table w')"
  using assms(1)
proof cases
  case (spawned spawn params res t')
  from spawned(2) obtain child where t': "t' = \<lparr>jt_next_id = u64_add (jt_next_id (jw_table w)) 1,
      jt_jobs = (jt_jobs (jw_table w))(jt_next_id (jw_table w) \<mapsto>
       \<lparr>bj_child = child, bj_output = [], bj_killed = False, bj_exit_code = None\<rparr>)\<rparr>"
    by (rule tool_spawn_table)
  have "u64_add (jt_next_id (jw_table w)) 1 = Suc (jt_next_id (jw_table w))"
    using assms(2,3) by (subst u64_add_small) (auto simp: ids_ok_def)
  then show ?thesis using spawned(1) t' assms(2) by (auto simp: ids_ok_def)
next
  case (reads params r t')
  then show ?thesis using assms(2) by (elim tool_read_logs_table) (auto simp: ids_ok_def)
next
  case (kills kparams k t')
  then show ?thesis using assms(2) by (elim tool_kill_table) (auto simp: ids_ok_def)
qed (use assms(2) in \<open>auto simp: ids_ok_def put_output_def\<close>)

lemma job_reachable_inv:
  "job_reachable os root n w \<Longrightarrow> Suc n < 2 ^ 64 \<Longrightarrow> world_inv w \<and> ids_ok n (jw_table w)"
proof (induction rule: job_reachable.induct)
  case start
  then show ?case
    by (simp add: world_inv_def job_world_new_def job_table_new_def ids_ok_def)
next
  case (step n w w')
  then show ?case using job_step_inv [of os root w w'] job_step_ids [of os root w w' n] by simp
qed

lemma job_reachable_evolves:
  assumes "job_reachable os root n w" "Suc n < 2 ^ 64" "job_step os root w w'"
    and "jt_jobs (jw_table w) i = Some job"
  obtains job' where "jt_jobs (jw_table w') i = Some job'" "evolves job job'"
proof -
  have "world_inv w" "ids_ok n (jw_table w)" using job_reachable_inv [OF assms(1,2)] by simp_all
  moreover from this(2) have "i \<noteq> jt_next_id (jw_table w)" using assms(4) by (force simp: ids_ok_def)
  ultimately show thesis using job_step_evolves [OF assms(3)] assms(4) that by blast
qed

subsection \<open>Following a log\<close>

lemma read_logs_step:
  "tool_read_logs params (jw_table w) = (r, t') \<Longrightarrow> job_step os root w (w\<lparr>jw_table := t'\<rparr>)"
  by (rule job_step.reads)

lemma polling_reachable: "polling os root i n off pages w \<Longrightarrow> job_reachable os root n w"
  by (induction rule: polling.induct) (blast intro: job_reachable.step read_logs_step)+

text \<open>The answer of \<open>tool.read_logs\<close>, when the job is known and its refresh succeeds.\<close>

lemma tool_read_logs_known:
  assumes "jt_jobs t i = Some job" "refresh_exit_code i job = Ok job'"
  shows "tool_read_logs \<lparr>trlp_job_id = i, trlp_offset = off, trlp_max_bytes = mx\<rparr> t =
    (let t' = t\<lparr>jt_jobs := (jt_jobs t)(i \<mapsto> job')\<rparr>;
         out = bj_output job';
         start = min off (length out);
         fin = snd (log_window \<lparr>trlp_job_id = i, trlp_offset = off, trlp_max_bytes = mx\<rparr> out)
     in case str_slice start fin out of
          None \<Rightarrow> (Panic ''byte index is not a char boundary'', t')
        | Some page \<Rightarrow>
            (Ok \<lparr>trlr_job_id = i, trlr_output = page, trlr_next_offset = fin,
                 trlr_exit_code = bj_exit_code job',
                 trlr_running = (bj_exit_code job' = None \<and> \<not> bj_killed job'),
                 trlr_killed = bj_killed job'\<rparr>, t'))"
  using assms by (simp add: tool_read_logs_def log_window_def Let_def split_beta split: option.split)

lemma refresh_output: "refresh_exit_code i job = Ok job' \<Longrightarrow> bj_output job' = bj_output job"
  by (auto simp: refresh_exit_code_def split: if_splits res.splits option.splits)

lemma tool_read_logs_okE:
  assumes "tool_read_logs \<lparr>trlp_job_id = i, trlp_offset = off, trlp_max_bytes = mx\<rparr> t = (Ok res, t')"
  obtains job job' where "jt_jobs t i = Some job" "refresh_exit_code i job = Ok job'"
    "t' = t\<lparr>jt_jobs := (jt_jobs t)(i \<mapsto> job')\<rparr>" "bj_output job' = bj_output job"
    "str_slice (min off (length (bj_output job))) (trlr_next_offset res) (bj_output job) =
       Some (trlr_output res)"
    "trlr_running res \<longleftrightarrow> bj_exit_code job' = None \<and> \<not> bj_killed job'"
    "trlr_killed res = bj_killed job'" "trlr_exit_code res = bj_exit_code job'"
proof -
  obtain job where job: "jt_jobs t i = Some job"
    using assms by (auto simp: tool_read_logs_def split: option.splits)
  obtain job' where r: "refresh_exit_code i job = Ok job'"
    using assms job by (auto simp: tool_read_logs_def split: res.splits)
  show thesis
    using assms refresh_output [OF r] unfolding tool_read_logs_known [OF job r] Let_def
    by (intro that [OF job r]) (auto split: option.splits)
qed

text \<open>What the client has is the beginning of the log, up to a character boundary.\<close>

definition followed :: "nat \<Rightarrow> string list \<Rightarrow> string \<Rightarrow> bool" where
  "followed off pages out \<longleftrightarrow>
     off \<le> length out \<and> concat pages = take off out \<and> is_char_boundary out off"

lemma followed_grows: "followed off pages a \<Longrightarrow> grows a b \<Longrightarrow> followed off pages b"
  unfolding followed_def
  by (metis grows_boundary grows_length grows_take order.trans)

lemma followed_slice:
  assumes "followed off pages out" "str_slice off fin out = Some page"
  shows "followed fin (pages @ [page]) out"
proof -
  have *: "off \<le> fin" "fin \<le> length out" "is_char_boundary out fin" "page = take (fin - off) (drop off out)"
    using assms(2) by (auto simp: str_slice_def split: if_splits)
  then have "take off out @ page = take fin out" by (metis le_add_diff_inverse take_add)
  then show ?thesis using * assms(1) by (simp add: followed_def)
qed

lemma polling_followed:
  assumes "polling os root i n off pages w" "Suc n < 2 ^ 64"
  obtains job where "jt_jobs (jw_table w) i = Some job" "followed off pages (bj_output job)"
proof -
  have "\<exists>job. jt_jobs (jw_table w) i = Some job \<and> followed off pages (bj_output job)"
    using assms
  proof (induction rule: polling.induct)
    case (start n w job)
    then show ?case by (simp add: followed_def is_char_boundary_def)
  next
    case (other n off pages w w')
    then obtain job where job: "jt_jobs (jw_table w) i = Some job" "followed off pages (bj_output job)"
      by auto
    have "Suc n < 2 ^ 64" using other.prems by simp
    from job_reachable_evolves [OF polling_reachable [OF other.hyps(1)] this other.hyps(2) job(1)]
    obtain job' where "jt_jobs (jw_table w') i = Some job'" "evolves job job'" .
    then show ?case using followed_grows [OF job(2)] by (auto simp: evolves_def)
  next
    case (poll n off pages w mx res t')
    then obtain job where job: "jt_jobs (jw_table w) i = Some job" "followed off pages (bj_output job)"
      by auto
    from poll.hyps(2) show ?case
    proof (cases rule: tool_read_logs_okE)
      case (1 job1 job')
      then have "job1 = job" using job(1) by simp
      moreover have "min off (length (bj_output job)) = off" using job(2) by (simp add: followed_def)
      ultimately show ?thesis using 1 followed_slice [OF job(2)] by auto
    qed
  qed
  then show thesis using that by blast
qed

text \<open>A child that ended by a signal while nobody had asked to kill it.\<close>

definition signalled :: "nat \<Rightarrow> job_world \<Rightarrow> bool" where
  "signalled i w \<longleftrightarrow>
     (case jt_jobs (jw_table w) i of
        None \<Rightarrow> False
      | Some job \<Rightarrow>
          (case ch_status (bj_child job) of Some (Signaled _) \<Rightarrow> True | _ \<Rightarrow> False) \<and>
          \<not> bj_killed job \<and> ch_try_wait_fault (bj_child job) = None)"

lemma signalled_step:
  assumes "job_reachable os root n w" "Suc n < 2 ^ 64" "job_step os root w w'" "signalled i w"
  shows "signalled i w'"
proof -
  obtain job where job: "jt_jobs (jw_table w) i = Some job" using assms(4)
    by (auto simp: signalled_def split: option.splits)
  from job_reachable_evolves [OF assms(1-3) job] obtain job' where
    "jt_jobs (jw_table w') i = Some job'" "evolves job job'" .
  then show ?thesis using assms(4) job by (auto simp: signalled_def evolves_def split: option.splits)
qed

inductive job_later :: "Os \<Rightarrow> path \<Rightarrow> nat \<Rightarrow> job_world \<Rightarrow> nat \<Rightarrow> job_world \<Rightarrow> bool" for os root n w where
  now: "job_reachable os root n w \<Longrightarrow> job_later os root n w n w"
| later: "job_later os root n w m u \<Longrightarrow> job_step os root u u' \<Longrightarrow> job_later os root n w (Suc m) u'"

lemma job_later_reachable: "job_later os root n w m u \<Longrightarrow> job_reachable os root m u"
  by (induction rule: job_later.induct) (auto intro: job_reachable.step)

lemma job_later_keeps:
  assumes "job_later os root n w m u" "Suc m < 2 ^ 64" "P w"
    and "\<And>k v v'. job_reachable os root k v \<Longrightarrow> Suc k < 2 ^ 64 \<Longrightarrow> job_step os root v v' \<Longrightarrow> P v \<Longrightarrow> P v'"
  shows "P u"
  using assms(1-3)
proof (induction rule: job_later.induct)
  case (later m u u')
  then show ?case using assms(4) [OF job_later_reachable [OF later.hyps(1)] _ later.hyps(2)] by simp
qed

lemma signalled_job_inv:
  assumes "signalled i w" "world_inv w"
  obtains job k where "jt_jobs (jw_table w) i = Some job" "ch_status (bj_child job) = Some (Signaled k)"
    "bj_exit_code job = None" "\<not> bj_killed job" "ch_try_wait_fault (bj_child job) = None"
proof -
  obtain job where job: "jt_jobs (jw_table w) i = Some job" using assms(1)
    by (auto simp: signalled_def split: option.splits)
  moreover obtain k where k: "ch_status (bj_child job) = Some (Signaled k)" "\<not> bj_killed job"
      "ch_try_wait_fault (bj_child job) = None"
    using assms(1) job by (auto simp: signalled_def split: option.splits exit_status.splits)
  moreover have "bj_exit_code job = None"
    using assms(2) job k(1) by (cases "bj_exit_code job") (auto simp: world_inv_def job_inv_def)
  ultimately show thesis using that by blast
qed

lemma signalled_refresh:
  assumes "ch_status (bj_child job) = Some (Signaled k)" "bj_exit_code job = None"
    "ch_try_wait_fault (bj_child job) = None"
  shows "refresh_exit_code i job = Ok job" "kill_job i job = (None, job)"
  using assms by (simp_all add: refresh_exit_code_def kill_job_def child_try_wait_def)

definition stopped :: "nat \<Rightarrow> job_world \<Rightarrow> bool" where
  "stopped i w \<longleftrightarrow> (case jt_jobs (jw_table w) i of None \<Rightarrow> False | Some job \<Rightarrow> bj_killed job)"

lemma stopped_step:
  assumes "job_reachable os root n w" "Suc n < 2 ^ 64" "job_step os root w w'" "stopped i w"
  shows "stopped i w'"
proof -
  obtain job where job: "jt_jobs (jw_table w) i = Some job" using assms(4)
    by (auto simp: stopped_def split: option.splits)
  from job_reachable_evolves [OF assms(1-3) job] obtain job' where
    "jt_jobs (jw_table w') i = Some job'" "evolves job job'" .
  then show ?thesis using assms(4) job by (auto simp: stopped_def evolves_def)
qed

subsection \<open>A job to look at\<close>

definition demo_child :: Child where
  "demo_child = \<lparr>ch_id = 7, ch_status = None, ch_after_kill = Signaled 9, ch_try_wait_fault = None,
     ch_kill_fault = None, ch_wait_fault = None\<rparr>"

definition demo_spawn :: ToolSpawnParams where
  "demo_spawn = \<lparr>tsp_command = ''x'', tsp_args = [], tsp_cwd = None, tsp_env = []\<rparr>"

definition demo_job :: BackgroundJob where
  "demo_job = \<lparr>bj_child = demo_child, bj_output = [], bj_killed = False, bj_exit_code = None\<rparr>"

definition demo_world :: "BackgroundJob \<Rightarrow> bool \<Rightarrow> job_world" where
  "demo_world job wrote =
     \<lparr>jw_table = \<lparr>jt_next_id = 2, jt_jobs = [1 \<mapsto> job]\<rparr>,
      jw_readers = (\<lambda>_ _. stdout_reader)(1 := (\<lambda>err. if err then stderr_reader
                      else stdout_reader\<lparr>lr_wrote := wrote\<rparr>))\<rparr>"

lemma demo_spawns:
  "tool_spawn demo_os [''r''] (\<lambda>_. Ok demo_child) demo_spawn (jw_table job_world_new) =
     (Ok \<lparr>tsr_job_id = 1, tsr_pid = Some 7, tsr_command = ''x'', tsr_args = []\<rparr>,
      \<lparr>jt_next_id = 2, jt_jobs = [1 \<mapsto> demo_job]\<rparr>)"
  by (simp add: tool_spawn_def demo_spawn_def demo_trim run_cwd_def job_world_new_def job_table_new_def
      demo_job_def demo_child_def Let_def)

lemma demo_reach: "job_reachable demo_os [''r''] 1 (demo_world demo_job False)"
proof -
  have "job_step demo_os [''r''] job_world_new
      \<lparr>jw_table = \<lparr>jt_next_id = 2, jt_jobs = [1 \<mapsto> demo_job]\<rparr>,
       jw_readers = new_readers 1 (jw_readers job_world_new)\<rparr>"
    using job_step.spawned [OF demo_spawns] by simp
  moreover have "\<lparr>jw_table = \<lparr>jt_next_id = 2, jt_jobs = [1 \<mapsto> demo_job]\<rparr>,
       jw_readers = new_readers 1 (jw_readers job_world_new)\<rparr> = demo_world demo_job False"
    by (auto simp: demo_world_def new_readers_def job_world_new_def stdout_reader_def log_reader_def fun_eq_iff)
  ultimately show ?thesis using job_reachable.step [OF job_reachable.start] by simp
qed

lemma demo_ends:
  "job_reachable demo_os [''r''] 2
     (demo_world (demo_job\<lparr>bj_child := demo_child\<lparr>ch_status := Some status\<rparr>\<rparr>) False)"
proof -
  have "job_step demo_os [''r''] (demo_world demo_job False)
     (demo_world (demo_job\<lparr>bj_child := demo_child\<lparr>ch_status := Some status\<rparr>\<rparr>) False)"
    using job_step.ends [of "demo_world demo_job False" 1 demo_job demo_os "[''r'']" status]
    by (simp add: demo_world_def demo_job_def demo_child_def)
  from job_reachable.step [OF demo_reach this] show ?thesis by (simp add: numeral_2_eq_2)
qed

text \<open>An e with an acute accent: two bytes.\<close>

definition e_acute :: string where "e_acute = [char_of (0xC3::nat), char_of (0xA9::nat)]"

definition demo_log :: string where "demo_log = ''$ stdout'' @ [nl] @ e_acute"

lemma demo_lossy_e: "from_utf8_lossy e_acute = e_acute"
  unfolding e_acute_def by code_simp

lemma demo_chunk:
  "job_reachable demo_os [''r''] 2 (demo_world (demo_job\<lparr>bj_output := demo_log\<rparr>) True)"
proof -
  have "job_step demo_os [''r''] (demo_world demo_job False)
     (put_output 1 False demo_job (log_chunk e_acute (jw_readers (demo_world demo_job False) 1 False) (bj_output demo_job))
        (demo_world demo_job False))"
    by (rule job_step.chunk)
      (simp_all add: demo_world_def e_acute_def LOG_BUF_def stdout_reader_def log_reader_def)
  moreover have "put_output 1 False demo_job (log_chunk e_acute (jw_readers (demo_world demo_job False) 1 False) (bj_output demo_job))
        (demo_world demo_job False) = demo_world (demo_job\<lparr>bj_output := demo_log\<rparr>) True"
    by (auto simp: put_output_def demo_world_def log_chunk_def demo_lossy_e demo_log_def demo_job_def
        stdout_reader_def log_reader_def fun_eq_iff)
  ultimately show ?thesis using job_reachable.step [OF demo_reach] by (simp add: numeral_2_eq_2)
qed

subsection \<open>Properties\<close>

text \<open>Job numbers: after any execution with fewer than 2^64 - 1 steps the jobs in the table are
  exactly 1, 2, ..., so that a new job gets a number no job has had, and no job is ever
  overwritten.\<close>

theorem job_ids_never_reused:
  assumes "job_reachable os root n w" "Suc n < 2 ^ 64"
    and "tool_spawn os root spawn params (jw_table w) = (Ok res, t')"
  shows "dom (jt_jobs (jw_table w)) = {1..<tsr_job_id res} \<and>
         (\<forall>i < tsr_job_id res. jt_jobs t' i = jt_jobs (jw_table w) i)"
proof -
  have "ids_ok n (jw_table w)" using job_reachable_inv [OF assms(1,2)] by simp
  then show ?thesis using assms(3) by (elim tool_spawn_table) (auto simp: ids_ok_def)
qed

theorem job_ids_never_reused_witness:
  "dom (jt_jobs (jw_table job_world_new)) = {}"
  using job_ids_never_reused [OF job_reachable.start _ demo_spawns] by simp

text \<open>C29. Following a log: a client that polls a job from the offset the last answer gave, with any
  page sizes and any activity of the daemon in between, holds exactly the first \<open>off\<close> bytes of
  the log; its next poll panics only if the page would end inside a character, and otherwise
  extends what it has; a poll without a page limit never panics and brings it to the end of
  the log.\<close>

theorem polled_log_is_gapless:
  assumes "polling os root i n off pages w" "Suc n < 2 ^ 64"
    and "jt_jobs (jw_table w) i = Some job" "refresh_exit_code i job = Ok job'"
    and "length (bj_output job) \<le> usize_max"
    and "fin = snd (log_window \<lparr>trlp_job_id = i, trlp_offset = off, trlp_max_bytes = mx\<rparr> (bj_output job))"
    and "fst (tool_read_logs \<lparr>trlp_job_id = i, trlp_offset = off, trlp_max_bytes = mx\<rparr> (jw_table w)) = r"
  shows "concat pages = take off (bj_output job) \<and>
         (is_char_boundary (bj_output job) fin \<longleftrightarrow>
            (\<exists>res. r = Ok res \<and> concat (pages @ [trlr_output res]) = take fin (bj_output job))) \<and>
         (\<not> is_char_boundary (bj_output job) fin \<longleftrightarrow> r = Panic ''byte index is not a char boundary'') \<and>
         (mx = None \<longrightarrow> fin = length (bj_output job) \<and> is_char_boundary (bj_output job) fin)"
proof -
  from assms(1,2) have f: "followed off pages (bj_output job)"
    using assms(3) by (auto elim: polling_followed)
  then have off: "min off (length (bj_output job)) = off" "off \<le> length (bj_output job)"
    "is_char_boundary (bj_output job) off" by (simp_all add: followed_def)
  have fin: "off \<le> fin" "fin \<le> length (bj_output job)"
    "mx = None \<Longrightarrow> fin = length (bj_output job)"
    using assms(5,6) off(1,2) by (auto simp: log_window_def Let_def usize_max_def split: option.splits)
  let ?page = "take (fin - off) (drop off (bj_output job))"
  have sl: "str_slice off fin (bj_output job) =
      (if is_char_boundary (bj_output job) fin then Some ?page else None)"
    using fin off by (simp add: str_slice_def)
  have page: "take off (bj_output job) @ ?page = take fin (bj_output job)"
    using fin(1) by (metis le_add_diff_inverse take_add)
  have c: "concat pages = take off (bj_output job)" using f by (simp add: followed_def)
  have full: "mx = None \<Longrightarrow> is_char_boundary (bj_output job) fin"
    using fin(3) by (simp add: is_char_boundary_def)
  note r = assms(7) [unfolded tool_read_logs_known [OF assms(3,4)] Let_def refresh_output [OF assms(4)]
      off(1) assms(6) [symmetric] sl]
  show ?thesis
  proof (cases "is_char_boundary (bj_output job) fin")
    case True
    then have "\<exists>res. r = Ok res \<and> trlr_output res = ?page" using r by auto
    then show ?thesis using True c page fin(3) by auto
  next
    case False
    then show ?thesis using r c fin(3) full by auto
  qed
qed

theorem polled_log_is_gapless_witness:
  "fst (tool_read_logs \<lparr>trlp_job_id = 1, trlp_offset = 0, trlp_max_bytes = Some 10\<rparr>
     (jw_table (demo_world (demo_job\<lparr>bj_output := demo_log\<rparr>) True))) =
     Panic ''byte index is not a char boundary''"
proof -
  let ?w = "demo_world (demo_job\<lparr>bj_output := demo_log\<rparr>) True"
  have j: "jt_jobs (jw_table ?w) 1 = Some (demo_job\<lparr>bj_output := demo_log\<rparr>)" by (simp add: demo_world_def)
  have r: "refresh_exit_code 1 (demo_job\<lparr>bj_output := demo_log\<rparr>) = Ok (demo_job\<lparr>bj_output := demo_log\<rparr>)"
    by (simp add: refresh_exit_code_def demo_job_def demo_child_def child_try_wait_def)
  have f: "snd (log_window \<lparr>trlp_job_id = 1, trlp_offset = 0, trlp_max_bytes = Some 10\<rparr>
      (bj_output (demo_job\<lparr>bj_output := demo_log\<rparr>))) = 10"
    by (simp add: log_window_def demo_log_def e_acute_def usize_max_def)
  have "\<not> is_char_boundary (bj_output (demo_job\<lparr>bj_output := demo_log\<rparr>)) 10"
    by (simp add: demo_log_def e_acute_def is_char_boundary_def is_cont_def byte_def)
  then show ?thesis
    using polled_log_is_gapless [OF polling.start [OF demo_chunk j] _ j r _ f [symmetric] refl]
    by (simp add: demo_log_def e_acute_def usize_max_def)
qed

text \<open>A job that is reported as not running has ended.\<close>

theorem job_reported_stopped_has_ended:
  assumes "job_reachable os root n w" "Suc n < 2 ^ 64"
    and "tool_read_logs \<lparr>trlp_job_id = i, trlp_offset = off, trlp_max_bytes = mx\<rparr> (jw_table w) = (Ok res, t')"
    and "\<not> trlr_running res" "jt_jobs (jw_table w) i = Some job"
  shows "ch_status (bj_child job) \<noteq> None \<and>
         (\<forall>c. trlr_exit_code res = Some c \<longrightarrow> ch_status (bj_child job) = Some (Exited c))"
  using assms(3)
proof (cases rule: tool_read_logs_okE)
  case (1 job1 job')
  have "job_inv job" using job_reachable_inv [OF assms(1,2)] assms(5) by (simp add: world_inv_def)
  moreover have "job1 = job" using 1(1) assms(5) by simp
  ultimately have "job_inv job'" "bj_child job' = bj_child job"
    using 1(2) refresh_inv [OF 1(2)]
    by (auto simp: refresh_exit_code_def split: if_splits res.splits option.splits)
  then show ?thesis using 1(6,8) assms(4) by (auto simp: job_inv_def)
qed

theorem job_reported_stopped_has_ended_witness:
  "\<exists>res t'. tool_read_logs \<lparr>trlp_job_id = 1, trlp_offset = 0, trlp_max_bytes = None\<rparr>
      (jw_table (demo_world (demo_job\<lparr>bj_child := demo_child\<lparr>ch_status := Some (Exited 3)\<rparr>\<rparr>) False)) = (Ok res, t') \<and>
     \<not> trlr_running res \<and> trlr_exit_code res = Some 3"
proof -
  let ?job = "demo_job\<lparr>bj_child := demo_child\<lparr>ch_status := Some (Exited 3)\<rparr>\<rparr>"
  let ?w = "demo_world ?job False"
  let ?res = "\<lparr>trlr_job_id = 1, trlr_output = [], trlr_next_offset = 0, trlr_exit_code = Some 3,
      trlr_running = False, trlr_killed = False\<rparr>"
  have r: "\<exists>t'. tool_read_logs \<lparr>trlp_job_id = 1, trlp_offset = 0, trlp_max_bytes = None\<rparr> (jw_table ?w) = (Ok ?res, t')"
    by (simp add: tool_read_logs_def demo_world_def refresh_exit_code_def demo_job_def demo_child_def
        child_try_wait_def log_window_def str_slice_def is_char_boundary_def Let_def)
  then obtain t' where t': "tool_read_logs \<lparr>trlp_job_id = 1, trlp_offset = 0, trlp_max_bytes = None\<rparr>
      (jw_table ?w) = (Ok ?res, t')" by blast
  have "ch_status (bj_child ?job) \<noteq> None"
    using job_reported_stopped_has_ended [OF demo_ends [of "Exited 3"] _ t', of ?job]
    by (simp add: demo_world_def)
  then show ?thesis using t' by (intro exI [of _ ?res] exI [of _ t']) simp
qed

text \<open>C37. A child that ended by a signal on its own is reported as running for ever: whatever
  happens afterwards, every answer of \<open>tool.read_logs\<close> says \<open>running\<close> and has no exit code, and
  \<open>tool.kill\<close> neither marks it killed nor changes that.\<close>

theorem signalled_job_runs_forever:
  assumes "job_later os root n w m u" "Suc m < 2 ^ 64" "signalled i w"
  shows "(\<forall>off mx res t'. tool_read_logs \<lparr>trlp_job_id = i, trlp_offset = off, trlp_max_bytes = mx\<rparr>
            (jw_table u) = (Ok res, t') \<longrightarrow> trlr_running res \<and> trlr_exit_code res = None) \<and>
         fst (tool_kill \<lparr>tkp_job_id = i\<rparr> (jw_table u)) =
           Ok \<lparr>tkr_job_id = i, tkr_killed = False, tkr_exit_code = None\<rparr>"
proof -
  have "signalled i u" by (rule job_later_keeps [where P = "signalled i", OF assms]) (rule signalled_step)
  moreover have "world_inv u" using job_reachable_inv [OF job_later_reachable [OF assms(1)] assms(2)] by simp
  ultimately obtain job k where j: "jt_jobs (jw_table u) i = Some job" "ch_status (bj_child job) = Some (Signaled k)"
    "bj_exit_code job = None" "\<not> bj_killed job" "ch_try_wait_fault (bj_child job) = None"
    by (rule signalled_job_inv)
  note r = signalled_refresh [OF j(2,3,5)]
  show ?thesis
    using j r by (auto simp: tool_kill_def Let_def elim!: tool_read_logs_okE)
qed

theorem signalled_job_runs_forever_witness:
  "fst (tool_kill \<lparr>tkp_job_id = 1\<rparr>
     (jw_table (demo_world (demo_job\<lparr>bj_child := demo_child\<lparr>ch_status := Some (Signaled 11)\<rparr>\<rparr>) False))) =
     Ok \<lparr>tkr_job_id = 1, tkr_killed = False, tkr_exit_code = None\<rparr>"
proof -
  have "signalled 1 (demo_world (demo_job\<lparr>bj_child := demo_child\<lparr>ch_status := Some (Signaled 11)\<rparr>\<rparr>) False)"
    by (simp add: signalled_def demo_world_def demo_job_def demo_child_def)
  from signalled_job_runs_forever [OF job_later.now [OF demo_ends] _ this] show ?thesis by simp
qed

text \<open>C38. Killing: a live child whose kill and wait succeed is reported killed at once, and from then
  on never again as running.\<close>

theorem killed_job_stays_stopped:
  assumes "job_reachable os root n w" "jt_jobs (jw_table w) i = Some job"
    and "bj_exit_code job = None" "ch_status (bj_child job) = None" "ch_try_wait_fault (bj_child job) = None"
    and "ch_kill_fault (bj_child job) = None" "ch_wait_fault (bj_child job) = None"
    and "tool_kill \<lparr>tkp_job_id = i\<rparr> (jw_table w) = (r, t')"
    and "job_later os root (Suc n) (w\<lparr>jw_table := t'\<rparr>) m u" "Suc m < 2 ^ 64"
    and "tool_read_logs \<lparr>trlp_job_id = i, trlp_offset = off, trlp_max_bytes = mx\<rparr> (jw_table u) = (Ok res, t'')"
  shows "(\<exists>k. r = Ok k \<and> tkr_killed k) \<and> trlr_killed res \<and> \<not> trlr_running res"
proof -
  have k: "\<exists>k. r = Ok k \<and> tkr_killed k" "stopped i (w\<lparr>jw_table := t'\<rparr>)"
    using assms(2-8) by (auto simp: tool_kill_def kill_job_def child_try_wait_def Let_def stopped_def)
  have "stopped i u" by (rule job_later_keeps [where P = "stopped i", OF assms(9,10) k(2)]) (rule stopped_step)
  then show ?thesis
    using k(1) assms(11)
    by (auto simp: stopped_def elim!: tool_read_logs_okE dest!: refresh_evolves simp: evolves_def)
qed

theorem killed_job_stays_stopped_witness:
  "\<exists>k. fst (tool_kill \<lparr>tkp_job_id = 1\<rparr> (jw_table (demo_world demo_job False))) = Ok k \<and> tkr_killed k"
proof -
  let ?w = "demo_world demo_job False"
  obtain r t' where k: "tool_kill \<lparr>tkp_job_id = 1\<rparr> (jw_table ?w) = (r, t')" by (rule prod.exhaust)
  have j: "jt_jobs (jw_table ?w) 1 = Some demo_job" by (simp add: demo_world_def)
  have l: "job_later demo_os [''r''] (Suc 1) (?w\<lparr>jw_table := t'\<rparr>) (Suc 1) (?w\<lparr>jw_table := t'\<rparr>)"
    by (rule job_later.now) (rule job_reachable.step [OF demo_reach job_step.kills [OF k]])
  have "t' = \<lparr>jt_next_id = 2, jt_jobs = [1 \<mapsto> demo_job\<lparr>bj_child := demo_child\<lparr>ch_status := Some (Signaled 9)\<rparr>,
      bj_killed := True\<rparr>]\<rparr>"
    using k by (auto simp: tool_kill_def demo_world_def kill_job_def child_try_wait_def demo_job_def
        demo_child_def Let_def)
  then have "\<exists>res t''. tool_read_logs \<lparr>trlp_job_id = 1, trlp_offset = 0, trlp_max_bytes = None\<rparr>
      (jw_table (?w\<lparr>jw_table := t'\<rparr>)) = (Ok res, t'')"
    by (simp add: tool_read_logs_def refresh_exit_code_def demo_job_def demo_child_def
        child_try_wait_def log_window_def str_slice_def is_char_boundary_def Let_def)
  then obtain res t'' where rd: "tool_read_logs \<lparr>trlp_job_id = 1, trlp_offset = 0, trlp_max_bytes = None\<rparr>
      (jw_table (?w\<lparr>jw_table := t'\<rparr>)) = (Ok res, t'')" by blast
  have live: "bj_exit_code demo_job = None" "ch_status (bj_child demo_job) = None"
    "ch_try_wait_fault (bj_child demo_job) = None" "ch_kill_fault (bj_child demo_job) = None"
    "ch_wait_fault (bj_child demo_job) = None" by (simp_all add: demo_job_def demo_child_def)
  from killed_job_stays_stopped [OF demo_reach j live k l _ rd] show ?thesis unfolding k by simp
qed

end
