(* ===== verification/Search.thy ===== *)
theory Search
  imports Search_Cache Compact Files Metrics
begin

text \<open>
  \<open>search_grep\<close>, its sink \<open>ContextSink\<close>, and \<open>fs_scan\<close> of
  \<^verbatim>\<open>src/crates/daemon/src/handlers.rs\<close>.

  The directory walk, the glob overrides, the regular expressions and the line searcher are
  third-party code: a record \<open>Ripgrep\<close> over the tree being searched. The searcher hands the
  sink the matches and context lines of a file in file order, and stops when the sink says
  so. What it would hand over if never stopped is \<open>rg_search\<close>; \<open>sink_run\<close> stops.

  The specification of the sink is \<open>file_matches\<close>: the matches of a file, each with the
  context lines before and after it.
\<close>

subsection \<open>What the libraries deliver\<close>

datatype context_kind = Before | After | Other

datatype sink_event =
  Matched "nat option" string
| Ctx context_kind "nat option" string

datatype walk_entry = Walk_Error | Walk_Entry path "bool option"

record 'f Ripgrep =
  rg_regex :: "bool \<Rightarrow> string \<Rightarrow> (unit, string) res"
  rg_glob_add :: "string \<Rightarrow> (unit, string) res"
  rg_glob_build :: "string \<Rightarrow> (unit, string) res"
  rg_walk :: "'f \<Rightarrow> path \<Rightarrow> bool \<Rightarrow> string option \<Rightarrow> walk_entry list"
  rg_search :: "'f \<Rightarrow> bool \<Rightarrow> string \<Rightarrow> nat \<Rightarrow> path \<Rightarrow> sink_event list"

fun walk_file :: "walk_entry \<Rightarrow> path option" where
  "walk_file Walk_Error = None"
| "walk_file (Walk_Entry p is_file) = (if is_file = Some True then Some p else None)"

subsection \<open>The sink\<close>

definition strip_crlf :: "string \<Rightarrow> string" where
  "strip_crlf bytes =
     (let s = from_utf8_lossy bytes;
          s1 = (if ends_with [nl] s then butlast s else s)
      in if ends_with [cr] s1 then butlast s1 else s1)"

record ContextSink =
  cs_hits :: "SearchHit list"
  cs_last_hit_idx :: "nat option"
  cs_pending_before :: "SearchContextLine list"

definition context_sink_new :: "SearchHit list \<Rightarrow> ContextSink" where
  "context_sink_new hits = \<lparr>cs_hits = hits, cs_last_hit_idx = None, cs_pending_before = []\<rparr>"

definition unwrap_or :: "'a \<Rightarrow> 'a option \<Rightarrow> 'a" where
  "unwrap_or d x = (case x of Some a \<Rightarrow> a | None \<Rightarrow> d)"

definition sink_matched ::
  "string \<Rightarrow> nat \<Rightarrow> nat option \<Rightarrow> string \<Rightarrow> ContextSink \<Rightarrow> bool \<times> ContextSink" where
  "sink_matched path max_hits line_number bytes s =
     (if max_hits \<le> length (cs_hits s) then (False, s)
      else (let hits = cs_hits s @ [\<lparr>hit_path = path, hit_line_number = unwrap_or 0 line_number,
                                     hit_line = strip_crlf bytes, hit_context = cs_pending_before s\<rparr>]
            in (length hits < max_hits,
                \<lparr>cs_hits = hits, cs_last_hit_idx = Some (length (cs_hits s)), cs_pending_before = []\<rparr>)))"

definition add_context :: "SearchContextLine \<Rightarrow> SearchHit \<Rightarrow> SearchHit" where
  "add_context entry h = h\<lparr>hit_context := hit_context h @ [entry]\<rparr>"

definition sink_context ::
  "nat \<Rightarrow> context_kind \<Rightarrow> nat option \<Rightarrow> string \<Rightarrow> ContextSink \<Rightarrow> bool \<times> ContextSink" where
  "sink_context max_hits kind line_number bytes s =
     (if max_hits \<le> length (cs_hits s) then (False, s)
      else (let entry = \<lparr>ctx_line_number = unwrap_or 0 line_number, ctx_line = strip_crlf bytes\<rparr>
            in (True,
                case kind of
                  Before \<Rightarrow> s\<lparr>cs_pending_before := cs_pending_before s @ [entry]\<rparr>
                | _ \<Rightarrow>
                    (case cs_last_hit_idx s of
                       Some idx \<Rightarrow>
                         s\<lparr>cs_hits := (cs_hits s)[idx := add_context entry (cs_hits s ! idx)]\<rparr>
                     | None \<Rightarrow> s))))"

fun sink_step :: "string \<Rightarrow> nat \<Rightarrow> sink_event \<Rightarrow> ContextSink \<Rightarrow> bool \<times> ContextSink" where
  "sink_step path max_hits (Matched ln bytes) s = sink_matched path max_hits ln bytes s"
| "sink_step path max_hits (Ctx kind ln bytes) s = sink_context max_hits kind ln bytes s"

fun sink_run :: "string \<Rightarrow> nat \<Rightarrow> sink_event list \<Rightarrow> ContextSink \<Rightarrow> ContextSink" where
  "sink_run path max_hits [] s = s"
| "sink_run path max_hits (e # es) s =
     (case sink_step path max_hits e s of
        (True, s') \<Rightarrow> sink_run path max_hits es s'
      | (False, s') \<Rightarrow> s')"

subsection \<open>search.grep\<close>

definition SEARCH_DEFAULT_LIMIT :: nat where "SEARCH_DEFAULT_LIMIT = 200"
definition SEARCH_CONTEXT_CAP :: nat where "SEARCH_CONTEXT_CAP = 20"

record SearchState =
  ss_root :: path
  ss_changelog :: ChangeLog
  ss_cache :: SearchCache
  ss_metrics :: ToolMetrics

fun search_files ::
  "'f Ripgrep \<Rightarrow> 'f \<Rightarrow> path \<Rightarrow> bool \<times> string \<Rightarrow> nat \<Rightarrow> nat \<Rightarrow> walk_entry list \<Rightarrow> SearchHit list \<Rightarrow>
     SearchHit list \<times> bool" where
  "search_files rg tree root matcher context_lines max_hits [] hits = (hits, False)"
| "search_files rg tree root matcher context_lines max_hits (e # es) hits =
     (case walk_file e of
        None \<Rightarrow> search_files rg tree root matcher context_lines max_hits es hits
      | Some path \<Rightarrow>
          (let events = rg_search rg tree (fst matcher) (snd matcher) context_lines path;
               hits' = cs_hits (sink_run (relative_str root path) max_hits events (context_sink_new hits))
           in if max_hits \<le> length hits' then (hits', True)
              else search_files rg tree root matcher context_lines max_hits es hits'))"

text \<open>The search itself, for a cache miss.\<close>

definition search_tree ::
  "'f Ripgrep \<Rightarrow> 'f \<Rightarrow> path \<Rightarrow> path \<Rightarrow> SearchGrepParams \<Rightarrow> SearchGrepResult rpc" where
  "search_tree rg tree root search_root params =
     res_bind (map_err (-32030) ''regex: '' (rg_regex rg (sgp_case_insensitive params) (sgp_pattern params))) (\<lambda>_.
     res_bind (case sgp_glob params of
                 None \<Rightarrow> Ok ()
               | Some glob \<Rightarrow>
                   res_bind (map_err (-32031) ''glob: '' (rg_glob_add rg glob)) (\<lambda>_.
                     map_err (-32032) ''glob build: '' (rg_glob_build rg glob))) (\<lambda>_.
       let max_hits = unwrap_or SEARCH_DEFAULT_LIMIT (sgp_max_results params);
           (hits, truncated) =
             search_files rg tree root (sgp_case_insensitive params, sgp_pattern params)
               (min (sgp_context params) SEARCH_CONTEXT_CAP) max_hits
               (rg_walk rg tree search_root False (sgp_glob params)) []
       in Ok \<lparr>sgr_hits = hits, sgr_truncated = truncated, sgr_compact = None\<rparr>))"

definition finalize_search ::
  "(SearchGrepResult \<Rightarrow> nat) \<Rightarrow> SearchGrepResult \<Rightarrow> bool \<Rightarrow> ToolMetrics \<Rightarrow> SearchGrepResult \<times> ToolMetrics" where
  "finalize_search json_size raw compact_requested m =
     (let raw_bytes = json_size raw;
          result = (if compact_requested
                    then \<lparr>sgr_hits = [], sgr_truncated = sgr_truncated raw,
                          sgr_compact = Some (search_grep_compact (sgr_hits raw))\<rparr>
                    else raw);
          compacted_bytes = json_size result
      in (result, metrics_record (Bytes SEARCH_GREP raw_bytes compacted_bytes) m))"

definition search_key :: "SearchGrepParams \<Rightarrow> SearchKey" where
  "search_key params =
     \<lparr>sk_pattern = sgp_pattern params, sk_path = sgp_path params, sk_glob = sgp_glob params,
      sk_max_results = sgp_max_results params, sk_case_insensitive = sgp_case_insensitive params,
      sk_context = min (sgp_context params) SEARCH_CONTEXT_CAP\<rparr>"

definition search_grep ::
  "Os \<Rightarrow> 'f Ripgrep \<Rightarrow> (SearchGrepResult \<Rightarrow> nat) \<Rightarrow> 'f \<Rightarrow> SearchGrepParams \<Rightarrow> SearchState \<Rightarrow>
     SearchGrepResult rpc \<times> SearchState" where
  "search_grep os rg json_size tree params st =
     (case (case sgp_path params of
              Some p \<Rightarrow> resolve_within os (ss_root st) p
            | None \<Rightarrow> Ok (ss_root st)) of
        Err e \<Rightarrow> (Err e, st)
      | Panic m \<Rightarrow> (Panic m, st)
      | Ok search_root \<Rightarrow>
          let version = fst (changelog_snapshot (ss_changelog st));
              key = search_key params
          in case search_cache_get version key (ss_cache st) of
               (Some cached, c) \<Rightarrow>
                 (case finalize_search json_size cached (sgp_compact params) (ss_metrics st) of
                    (r, m) \<Rightarrow> (Ok r, st\<lparr>ss_cache := c, ss_metrics := m\<rparr>))
             | (None, c) \<Rightarrow>
                 (case search_tree rg tree (ss_root st) search_root params of
                    Err e \<Rightarrow> (Err e, st\<lparr>ss_cache := c\<rparr>)
                  | Panic p \<Rightarrow> (Panic p, st\<lparr>ss_cache := c\<rparr>)
                  | Ok raw \<Rightarrow>
                      (case finalize_search json_size raw (sgp_compact params) (ss_metrics st) of
                         (r, m) \<Rightarrow> (Ok r, st\<lparr>ss_cache := search_cache_insert version key raw c,
                                           ss_metrics := m\<rparr>))))"

subsection \<open>fs.scan\<close>

definition FS_SCAN_TOP_DIRS :: nat where "FS_SCAN_TOP_DIRS = 32"

fun scan_files :: "path \<Rightarrow> nat \<Rightarrow> walk_entry list \<Rightarrow> string list \<Rightarrow> string list \<times> bool" where
  "scan_files root mx [] files = (files, False)"
| "scan_files root mx (e # es) files =
     (case walk_file e of
        None \<Rightarrow> scan_files root mx es files
      | Some path \<Rightarrow>
          if mx \<le> length files then (files, True)
          else scan_files root mx es (files @ [relative_str root path]))"

definition fs_scan ::
  "Os \<Rightarrow> 'f Ripgrep \<Rightarrow> 'f \<Rightarrow> FsScanParams \<Rightarrow> path \<Rightarrow> ChangeLog \<Rightarrow> FsScanResult rpc" where
  "fs_scan os rg tree params root log =
     res_bind (case fscp_path params of Some p \<Rightarrow> resolve_within os root p | None \<Rightarrow> Ok root) (\<lambda>scan_root.
       let version = fst (changelog_snapshot log);
           mx = unwrap_or usize_max (fscp_max_results params);
           (files, truncated) = scan_files root mx (rg_walk rg tree scan_root True None) []
       in Ok \<lparr>fscr_version = version,
              fscr_files = (if fscp_compact params then [] else files),
              fscr_truncated = truncated,
              fscr_compact = (if fscp_compact params
                              then Some (fs_scan_compact files FS_SCAN_TOP_DIRS) else None)\<rparr>)"
subsection \<open>Specification\<close>

text \<open>The matches of a file: each with the context lines before it, and those after it up to the
  next match.\<close>

definition ctx_entry :: "nat option \<Rightarrow> string \<Rightarrow> SearchContextLine" where
  "ctx_entry ln bytes = \<lparr>ctx_line_number = unwrap_or 0 ln, ctx_line = strip_crlf bytes\<rparr>"

fun afters :: "sink_event list \<Rightarrow> SearchContextLine list" where
  "afters [] = []"
| "afters (Matched ln bytes # es) = []"
| "afters (Ctx kind ln bytes # es) =
     (if kind = Before then afters es else ctx_entry ln bytes # afters es)"

fun file_matches ::
  "string \<Rightarrow> SearchContextLine list \<Rightarrow> sink_event list \<Rightarrow> (SearchHit \<times> SearchContextLine list) list" where
  "file_matches path pending [] = []"
| "file_matches path pending (Ctx kind ln bytes # es) =
     file_matches path (if kind = Before then pending @ [ctx_entry ln bytes] else pending) es"
| "file_matches path pending (Matched ln bytes # es) =
     (\<lparr>hit_path = path, hit_line_number = unwrap_or 0 ln, hit_line = strip_crlf bytes,
       hit_context = pending\<rparr>, afters es) # file_matches path [] es"

definition full_hit :: "SearchHit \<times> SearchContextLine list \<Rightarrow> SearchHit" where
  "full_hit m = (fst m)\<lparr>hit_context := hit_context (fst m) @ snd m\<rparr>"

text \<open>The first \<open>k\<close> matches; the one that reaches the cap is cut off before its trailing context.\<close>

definition first_hits :: "nat \<Rightarrow> (SearchHit \<times> SearchContextLine list) list \<Rightarrow> SearchHit list" where
  "first_hits k ms =
     (if length ms < k then map full_hit ms
      else map full_hit (take (k - 1) ms) @ map fst (take (min k 1) (drop (k - 1) ms)))"

fun tree_matches ::
  "'f Ripgrep \<Rightarrow> 'f \<Rightarrow> path \<Rightarrow> bool \<times> string \<Rightarrow> nat \<Rightarrow> walk_entry list \<Rightarrow> (SearchHit \<times> SearchContextLine list) list" where
  "tree_matches rg tree root matcher context_lines [] = []"
| "tree_matches rg tree root matcher context_lines (e # es) =
     (case walk_file e of
        None \<Rightarrow> []
      | Some path \<Rightarrow> file_matches (relative_str root path) []
          (rg_search rg tree (fst matcher) (snd matcher) context_lines path)) @
     tree_matches rg tree root matcher context_lines es"

subsection \<open>The sink meets its specification\<close>

lemma first_hits_Nil [simp]: "0 < k \<Longrightarrow> first_hits k [] = []"
  by (simp add: first_hits_def)

lemma first_hits_one: "first_hits (Suc 0) (m # ms) = [fst m]"
  by (simp add: first_hits_def)

lemma first_hits_Cons: "0 < k \<Longrightarrow> first_hits (Suc k) (m # ms) = full_hit m # first_hits k ms"
  by (cases k) (simp_all add: first_hits_def)

lemma first_hits_append:
  "first_hits k (xs @ ys) =
     (if length xs < k then map full_hit xs @ first_hits (k - length xs) ys else first_hits k xs)"
proof (induction xs arbitrary: k)
  case Nil
  then show ?case by (simp add: first_hits_def)
next
  case (Cons x xs)
  show ?case
  proof (cases k)
    case 0
    then show ?thesis by (simp add: first_hits_def)
  next
    case (Suc j)
    show ?thesis
      using Cons.IH [of j] Suc by (cases j) (simp_all add: first_hits_one first_hits_Cons)
  qed
qed

lemma length_first_hits: "length (first_hits k ms) = min k (length ms)"
  by (auto simp: first_hits_def min_def)

text \<open>The hit the sink is still adding context to.\<close>

definition settled :: "ContextSink \<Rightarrow> sink_event list \<Rightarrow> SearchHit list" where
  "settled s es =
     (case cs_last_hit_idx s of
        None \<Rightarrow> cs_hits s
      | Some _ \<Rightarrow> butlast (cs_hits s) @ [full_hit (last (cs_hits s), afters es)])"

definition sink_ok :: "ContextSink \<Rightarrow> bool" where
  "sink_ok s \<longleftrightarrow>
     (case cs_last_hit_idx s of None \<Rightarrow> True | Some idx \<Rightarrow> Suc idx = length (cs_hits s))"

lemma settled_matched: "sink_ok s \<Longrightarrow> settled s (Matched ln b # es) = cs_hits s"
  by (auto simp: settled_def sink_ok_def full_hit_def split: option.splits) (metis append_butlast_last_id length_0_conv nat.distinct(1))

lemma sink_context_step:
  assumes "sink_ok s" "length (cs_hits s) < mx" "sink_context mx kind ln b s = (c, s')"
  shows "c" "sink_ok s'" "length (cs_hits s') = length (cs_hits s)"
    "settled s' es = settled s (Ctx kind ln b # es)"
    "cs_pending_before s' = (if kind = Before then cs_pending_before s @ [ctx_entry ln b] else cs_pending_before s)"
proof -
  have e: "(c, s') = (True, case kind of
                  Before \<Rightarrow> s\<lparr>cs_pending_before := cs_pending_before s @ [ctx_entry ln b]\<rparr>
                | _ \<Rightarrow> (case cs_last_hit_idx s of
                       Some idx \<Rightarrow> s\<lparr>cs_hits := (cs_hits s)[idx := add_context (ctx_entry ln b) (cs_hits s ! idx)]\<rparr>
                     | None \<Rightarrow> s))"
    using assms(2,3) unfolding sink_context_def ctx_entry_def Let_def by auto
  show c using e by simp
  show "sink_ok s'" "length (cs_hits s') = length (cs_hits s)"
    "cs_pending_before s' = (if kind = Before then cs_pending_before s @ [ctx_entry ln b] else cs_pending_before s)"
    using e assms(1) by (auto simp: sink_ok_def split: context_kind.splits option.splits)
  show "settled s' es = settled s (Ctx kind ln b # es)"
  proof (cases "kind \<noteq> Before \<and> cs_last_hit_idx s \<noteq> None")
    case True
    then obtain idx where idx: "cs_last_hit_idx s = Some idx" by blast
    then have l: "length (cs_hits s) = Suc idx" using assms(1) by (simp add: sink_ok_def)
    then obtain H h where H: "cs_hits s = H @ [h]" "length H = idx"
      by (metis append_butlast_last_id diff_Suc_1 length_0_conv length_butlast nat.distinct(1))
    have "s' = s\<lparr>cs_hits := H @ [add_context (ctx_entry ln b) h]\<rparr>"
      using e True idx H by (auto split: context_kind.splits simp: list_update_append)
    then show ?thesis
      using idx H True by (simp add: settled_def full_hit_def add_context_def)
  next
    case False
    then show ?thesis using e by (auto simp: settled_def split: context_kind.splits option.splits)
  qed
qed

lemma sink_run_spec:
  assumes "sink_ok s" "length (cs_hits s) < mx"
  shows "cs_hits (sink_run path mx es s) =
    settled s es @ first_hits (mx - length (cs_hits s)) (file_matches path (cs_pending_before s) es)"
  using assms
proof (induction es arbitrary: s)
  case Nil
  then show ?case
    by (auto simp: settled_def sink_ok_def full_hit_def split: option.splits)
      (metis append_butlast_last_id length_0_conv nat.distinct(1))
next
  case (Cons e es)
  show ?case
  proof (cases e)
    case (Ctx kind ln b)
    obtain c s' where st: "sink_context mx kind ln b s = (c, s')" by (rule prod.exhaust)
    note ctx = sink_context_step [OF Cons.prems st]
    show ?thesis using Cons.IH [of s'] ctx Ctx st Cons.prems(2) by simp
  next
    case (Matched ln b)
    let ?h = "\<lparr>hit_path = path, hit_line_number = unwrap_or 0 ln, hit_line = strip_crlf b,
        hit_context = cs_pending_before s\<rparr>"
    let ?s = "\<lparr>cs_hits = cs_hits s @ [?h], cs_last_hit_idx = Some (length (cs_hits s)), cs_pending_before = []\<rparr>"
    have m: "sink_matched path mx ln b s = (Suc (length (cs_hits s)) < mx, ?s)"
      using Cons.prems(2) by (simp add: sink_matched_def Let_def)
    have b: "settled s (e # es) = cs_hits s" using settled_matched [OF Cons.prems(1)] Matched by simp
    show ?thesis
    proof (cases "Suc (length (cs_hits s)) < mx")
      case True
      have "cs_hits (sink_run path mx es ?s) = settled ?s es @
          first_hits (mx - length (cs_hits ?s)) (file_matches path (cs_pending_before ?s) es)"
        using True by (intro Cons.IH) (simp_all add: sink_ok_def)
      then show ?thesis
        using m b Matched True
        by (simp add: settled_def first_hits_Cons Suc_diff_Suc [symmetric])
    next
      case False
      then have "mx - length (cs_hits s) = Suc 0" using Cons.prems(2) by simp
      then show ?thesis using m b Matched False by (simp add: first_hits_one)
    qed
  qed
qed

lemma sink_run_new:
  "length hits < mx \<Longrightarrow> cs_hits (sink_run path mx es (context_sink_new hits)) =
     hits @ first_hits (mx - length hits) (file_matches path [] es)"
  using sink_run_spec [of "context_sink_new hits" mx path es]
  by (simp add: context_sink_new_def sink_ok_def settled_def)

lemma sink_run_full: "mx \<le> length (cs_hits s) \<Longrightarrow> sink_run path mx es s = s"
proof (induction es)
  case (Cons e es)
  then show ?case by (cases e) (simp_all add: sink_matched_def sink_context_def)
qed simp

lemma search_files_spec:
  assumes "length hits < mx"
  shows "search_files rg tree root matcher context_lines mx es hits =
    (hits @ first_hits (mx - length hits) (tree_matches rg tree root matcher context_lines es),
     mx \<le> length hits + length (tree_matches rg tree root matcher context_lines es))"
  using assms
proof (induction es arbitrary: hits)
  case Nil
  then show ?case by simp
next
  case (Cons e es)
  show ?case
  proof (cases "walk_file e")
    case None
    then show ?thesis using Cons by simp
  next
    case (Some path)
    let ?ms = "file_matches (relative_str root path) []
        (rg_search rg tree (fst matcher) (snd matcher) context_lines path)"
    note r = sink_run_new [OF Cons.prems, of "relative_str root path"
        "rg_search rg tree (fst matcher) (snd matcher) context_lines path"]
    show ?thesis
    proof (cases "length ?ms < mx - length hits")
      case True
      then have "first_hits (mx - length hits) ?ms = map full_hit ?ms" by (simp add: first_hits_def)
      then show ?thesis
        using Cons.IH [of "hits @ map full_hit ?ms"] True Some r
        by (simp add: first_hits_append Let_def add.assoc)
    next
      case False
      then show ?thesis
        using Some r length_first_hits [of "mx - length hits" ?ms] Cons.prems
        by (simp add: first_hits_append Let_def)
    qed
  qed
qed

lemma scan_files_spec:
  "scan_files root mx es files =
     (files @ take (mx - length files) (map (relative_str root) (List.map_filter walk_file es)),
      mx < length files + length (List.map_filter walk_file es) \<and> List.map_filter walk_file es \<noteq> [])"
  if "length files \<le> mx"
  using that
proof (induction es arbitrary: files)
  case Nil
  then show ?case by (simp add: List.map_filter_simps)
next
  case (Cons e es)
  show ?case
  proof (cases "walk_file e")
    case None
    then show ?thesis using Cons by (simp add: List.map_filter_simps)
  next
    case (Some path)
    show ?thesis
    proof (cases "length files < mx")
      case True
      then obtain k where k: "mx - length files = Suc k" by (metis Suc_diff_Suc)
      moreover from this have "mx - length (files @ [relative_str root path]) = k" by simp
      ultimately show ?thesis
        using Cons.IH [of "files @ [relative_str root path]"] Some True
        by (auto simp: List.map_filter_simps)
    qed (use Some Cons.prems in \<open>simp add: List.map_filter_simps\<close>)
  qed
qed

subsection \<open>The cache is invisible\<close>

text \<open>Requests and file-system events; the tree is a function of the change-log version.\<close>

datatype search_event = Query SearchGrepParams | Fs_Change string ChangeKind

fun search_run ::
  "Os \<Rightarrow> 'f Ripgrep \<Rightarrow> (SearchGrepResult \<Rightarrow> nat) \<Rightarrow> (nat \<Rightarrow> 'f) \<Rightarrow> search_event list \<Rightarrow> SearchState \<Rightarrow>
     SearchGrepResult rpc list \<times> SearchState" where
  "search_run os rg sz tree_at [] st = ([], st)"
| "search_run os rg sz tree_at (Fs_Change p k # es) st =
     search_run os rg sz tree_at es (st\<lparr>ss_changelog := changelog_record p k (ss_changelog st)\<rparr>)"
| "search_run os rg sz tree_at (Query q # es) st =
     (case search_grep os rg sz (tree_at (cl_version (ss_changelog st))) q st of
        (a, st') \<Rightarrow> (case search_run os rg sz tree_at es st' of (as, st'') \<Rightarrow> (a # as, st'')))"

definition search_root :: "Os \<Rightarrow> path \<Rightarrow> string option \<Rightarrow> path rpc" where
  "search_root os root p = (case p of Some p \<Rightarrow> resolve_within os root p | None \<Rightarrow> Ok root)"

definition searched ::
  "Os \<Rightarrow> 'f Ripgrep \<Rightarrow> (nat \<Rightarrow> 'f) \<Rightarrow> path \<Rightarrow> nat \<Rightarrow> SearchKey \<Rightarrow> SearchGrepResult \<Rightarrow> bool" where
  "searched os rg tree_at root v key r \<longleftrightarrow>
     (\<forall>q. search_key q = key \<longrightarrow>
        (\<exists>sr. search_root os root (sgp_path q) = Ok sr \<and> search_tree rg (tree_at v) root sr q = Ok r))"

text \<open>The key determines the search.\<close>

lemma search_tree_key:
  assumes "search_key q' = search_key q"
  shows "sgp_path q' = sgp_path q" "search_tree rg tree root sr q' = search_tree rg tree root sr q"
  using assms by (simp_all add: search_key_def search_tree_def)

text \<open>Two states that differ at most in their caches, the second of which is switched off.\<close>

definition uncached :: "SearchState \<Rightarrow> SearchState \<Rightarrow> bool" where
  "uncached st st0 \<longleftrightarrow>
     ss_root st0 = ss_root st \<and> ss_changelog st0 = ss_changelog st \<and> ss_metrics st0 = ss_metrics st \<and>
     sc_capacity (ss_cache st0) = 0"

lemma cache_off [simp]:
  "sc_capacity g = 0 \<Longrightarrow> search_cache_get v k g = (None, g)"
  "sc_capacity g = 0 \<Longrightarrow> search_cache_insert v k r g = g"
  by (simp_all add: search_cache_get_def search_cache_insert_def)

lemma search_grep_uncached:
  assumes "sc.consistent (searched os rg tree_at (ss_root st)) (ss_cache st)" "uncached st st0"
    and "search_grep os rg sz (tree_at (cl_version (ss_changelog st))) q st = (a, st')"
    and "search_grep os rg sz (tree_at (cl_version (ss_changelog st))) q st0 = (a0, st0')"
  shows "a0 = a \<and> uncached st' st0' \<and> ss_root st' = ss_root st \<and>
         sc.consistent (searched os rg tree_at (ss_root st)) (ss_cache st')"
proof (cases "search_root os (ss_root st) (sgp_path q)")
  case (Ok sr)
  let ?v = "cl_version (ss_changelog st)" and ?k = "search_key q"
  let ?t = "search_tree rg (tree_at ?v) (ss_root st) sr q"
  have sr: "(case sgp_path q of None \<Rightarrow> Ok (ss_root st) | Some p \<Rightarrow> resolve_within os (ss_root st) p) = Ok sr"
    using Ok by (simp add: search_root_def)
  obtain x c where g: "search_cache_get ?v ?k (ss_cache st) = (x, c)" by (rule prod.exhaust)
  have c: "sc.consistent (searched os rg tree_at (ss_root st)) c"
    using sc.consistent_get [OF assms(1) g] .
  have run: "(a, st') = (case x of
       Some cached \<Rightarrow> (case finalize_search sz cached (sgp_compact q) (ss_metrics st) of
          (r, m) \<Rightarrow> (Ok r, st\<lparr>ss_cache := c, ss_metrics := m\<rparr>))
     | None \<Rightarrow> (case ?t of Err e \<Rightarrow> (Err e, st\<lparr>ss_cache := c\<rparr>) | Panic p \<Rightarrow> (Panic p, st\<lparr>ss_cache := c\<rparr>)
        | Ok raw \<Rightarrow> (case finalize_search sz raw (sgp_compact q) (ss_metrics st) of
            (r, m) \<Rightarrow> (Ok r, st\<lparr>ss_cache := search_cache_insert ?v ?k raw c, ss_metrics := m\<rparr>))))"
    using assms(3) sr g by (simp add: search_grep_def changelog_snapshot_def Let_def split: option.split)
  have u: "ss_root st0 = ss_root st" "ss_changelog st0 = ss_changelog st" "ss_metrics st0 = ss_metrics st"
    "sc_capacity (ss_cache st0) = 0" using assms(2) by (simp_all add: uncached_def)
  have sr0: "(case sgp_path q of None \<Rightarrow> Ok (ss_root st0) | Some p \<Rightarrow> resolve_within os (ss_root st0) p) = Ok sr"
    using sr unfolding u(1) .
  have run0: "(a0, st0') = (case ?t of Err e \<Rightarrow> (Err e, st0\<lparr>ss_cache := ss_cache st0\<rparr>)
        | Panic p \<Rightarrow> (Panic p, st0\<lparr>ss_cache := ss_cache st0\<rparr>)
        | Ok raw \<Rightarrow> (case finalize_search sz raw (sgp_compact q) (ss_metrics st) of
            (r, m) \<Rightarrow> (Ok r, st0\<lparr>ss_cache := ss_cache st0, ss_metrics := m\<rparr>)))"
    using assms(4) sr0 u
    by (simp add: search_grep_def changelog_snapshot_def Let_def) (auto split: res.splits prod.splits)
  show ?thesis
  proof (cases x)
    case (Some cached)
    have "searched os rg tree_at (ss_root st) ?v ?k cached"
      using sc.consistent_hit [OF assms(1)] g Some by blast
    then have "?t = Ok cached" using Ok by (auto simp: searched_def)
    then show ?thesis using run run0 Some c assms(2) by (auto simp: uncached_def split: prod.splits)
  next
    case None
    have "?t = Ok raw \<Longrightarrow> sc.consistent (searched os rg tree_at (ss_root st)) (search_cache_insert ?v ?k raw c)" for raw
    proof (rule sc.consistent_ins [OF c])
      assume "?t = Ok raw"
      then show "searched os rg tree_at (ss_root st) ?v ?k raw"
        unfolding searched_def using Ok search_tree_key by metis
    qed
    then show ?thesis using run run0 None c assms(2) by (auto simp: uncached_def split: res.splits prod.splits)
  qed
next
  case (Err e)
  then show ?thesis
    using assms by (auto simp: search_grep_def search_root_def uncached_def split: option.splits)
next
  case (Panic m)
  then show ?thesis
    using assms by (auto simp: search_grep_def search_root_def uncached_def split: option.splits)
qed

lemma search_run_uncached:
  assumes "sc.consistent (searched os rg tree_at (ss_root st)) (ss_cache st)" "uncached st st0"
    and "search_run os rg sz tree_at es st = (as, st')" "search_run os rg sz tree_at es st0 = (as0, st0')"
  shows "as = as0 \<and> ss_metrics st' = ss_metrics st0'"
  using assms
proof (induction es arbitrary: st st0 as as0)
  case Nil
  then show ?case by (simp add: uncached_def)
next
  case (Cons e es)
  show ?case
  proof (cases e)
    case (Fs_Change p k)
    then show ?thesis
      using Cons.IH [of "st\<lparr>ss_changelog := changelog_record p k (ss_changelog st)\<rparr>"
          "st0\<lparr>ss_changelog := changelog_record p k (ss_changelog st0)\<rparr>" as as0] Cons.prems
      by (simp add: uncached_def)
  next
    case (Query q)
    obtain a st1 where a: "search_grep os rg sz (tree_at (cl_version (ss_changelog st))) q st = (a, st1)"
      by (rule prod.exhaust)
    obtain a0 st01 where a0: "search_grep os rg sz (tree_at (cl_version (ss_changelog st))) q st0 = (a0, st01)"
      by (rule prod.exhaust)
    obtain bs u where b: "search_run os rg sz tree_at es st1 = (bs, u)" by (rule prod.exhaust)
    obtain bs0 u0 where b0: "search_run os rg sz tree_at es st01 = (bs0, u0)" by (rule prod.exhaust)
    note s = search_grep_uncached [OF Cons.prems(1,2) a a0]
    have l: "ss_changelog st0 = ss_changelog st" using Cons.prems(2) by (simp add: uncached_def)
    have "as = a # bs" "st' = u" "as0 = a0 # bs0" "st0' = u0"
      using Cons.prems(3,4) a a0 b b0 l Query by simp_all
    then show ?thesis using Cons.IH [of st1 st01 bs bs0] s b b0 by simp
  qed
qed

subsection \<open>Properties\<close>


definition demo_rg :: "unit Ripgrep" where
  "demo_rg = \<lparr>rg_regex = (\<lambda>_ _. Ok ()), rg_glob_add = (\<lambda>_. Ok ()), rg_glob_build = (\<lambda>_. Ok ()),
     rg_walk = (\<lambda>_ _ _ _. [Walk_Error, Walk_Entry [''r'', ''a''] (Some True)]),
     rg_search = (\<lambda>_ _ _ _ _. [Ctx Before (Some 1) ''x'', Matched (Some 2) ''y'', Ctx After (Some 3) ''z''])\<rparr>"

definition demo_query :: SearchGrepParams where
  "demo_query = \<lparr>sgp_pattern = ''y'', sgp_path = None, sgp_glob = None, sgp_max_results = Some 1,
     sgp_case_insensitive = False, sgp_compact = True, sgp_context = 1\<rparr>"



definition demo_search :: "nat \<Rightarrow> SearchState" where
  "demo_search cap = \<lparr>ss_root = [''r''], ss_changelog = changelog_with_capacity 4,
     ss_cache = search_cache_new cap, ss_metrics = []\<rparr>"


text \<open>A directory scan lists the first \<open>max_results\<close> files of the walk, and \<open>truncated\<close> says
  exactly whether a file was left out; its version is the cursor taken before the walk.\<close>

theorem fs_scan_lists_files:
  assumes "fs_scan os rg tree params root log = Ok r" "search_root os root (fscp_path params) = Ok sr"
    and "fs = map (relative_str root) (List.map_filter walk_file (rg_walk rg tree sr True None))"
    and "mx = unwrap_or usize_max (fscp_max_results params)"
  shows "fscr_version r = cl_version log \<and> (fscr_truncated r \<longleftrightarrow> mx < length fs) \<and>
         (if fscp_compact params
          then fscr_files r = [] \<and> fscr_compact r = Some (fs_scan_compact (take mx fs) FS_SCAN_TOP_DIRS)
          else fscr_files r = take mx fs \<and> fscr_compact r = None)"
  using assms scan_files_spec [of "[]" mx root "rg_walk rg tree sr True None"]
  by (auto simp: fs_scan_def res_simps Let_def changelog_snapshot_def search_root_def)

theorem fs_scan_lists_files_witness:
  "\<exists>r. fs_scan demo_os demo_rg () \<lparr>fscp_path = None, fscp_max_results = Some 0, fscp_compact = False\<rparr>
       [''r''] (changelog_with_capacity 4) = Ok r \<and> fscr_truncated r"
proof -
  let ?p = "\<lparr>fscp_path = None, fscp_max_results = Some 0, fscp_compact = False\<rparr>"
  obtain r where r: "fs_scan demo_os demo_rg () ?p [''r''] (changelog_with_capacity 4) = Ok r"
    by (simp add: fs_scan_def Let_def split_beta)
  from fs_scan_lists_files [OF r, of "[''r'']"] r show ?thesis
    by (simp add: search_root_def demo_rg_def List.map_filter_simps unwrap_or_def)
qed

end
