(* ===== verification/Watcher.thy ===== *)
theory Watcher
  imports Files Parse_Cache
begin

text \<open>
  The file-system watcher of \<^verbatim>\<open>src/crates/daemon/src/watcher.rs\<close>: it turns notify events into
  change-log entries and evicts changed files from the parse cache, dropping what the
  \<^verbatim>\<open>.gitignore\<close> files exclude.

  Reading a \<^verbatim>\<open>.gitignore\<close> from the disk and matching a path against its rules are third-party
  code, a record \<open>Gitignores\<close> over the state of the disk. The filter caches the rules of each
  directory; \<open>keeps\<close> is the decision without a cache, against which the cached one is proved.
\<close>

subsection \<open>The filter\<close>

datatype gi_match = Ignore | Whitelist | No_Match

record ('d, 'g) Gitignores =
  gi_load :: "'d \<Rightarrow> path \<Rightarrow> 'g option"
  gi_matched :: "'g \<Rightarrow> path \<Rightarrow> gi_match"

record 'g Filter =
  ft_root :: path
  ft_cache :: "path \<rightharpoonup> 'g option"

definition filter_new :: "path \<Rightarrow> 'g Filter" where
  "filter_new root = \<lparr>ft_root = root, ft_cache = Map.empty\<rparr>"

definition strip_root :: "path \<Rightarrow> path \<Rightarrow> path option" where
  "strip_root root p = (if prefix root p then Some (drop (length root) p) else None)"

definition filter_relative :: "'g Filter \<Rightarrow> path \<Rightarrow> string option" where
  "filter_relative f p =
     (case strip_root (ft_root f) p of
        None \<Rightarrow> None
      | Some rel \<Rightarrow> Some (from_utf8_lossy (join ''/'' rel)))"

definition gitignore_for :: "('d, 'g) Gitignores \<Rightarrow> 'd \<Rightarrow> path \<Rightarrow> 'g Filter \<Rightarrow> 'g option \<times> 'g Filter" where
  "gitignore_for gi disk dir f =
     (case ft_cache f dir of
        Some hit \<Rightarrow> (hit, f)
      | None \<Rightarrow>
          (let v = gi_load gi disk dir
           in (v, f\<lparr>ft_cache := (ft_cache f)(dir \<mapsto> v)\<rparr>)))"

definition filter_invalidate :: "path \<Rightarrow> 'g Filter \<Rightarrow> 'g Filter" where
  "filter_invalidate dir f = f\<lparr>ft_cache := (ft_cache f)(dir := None)\<rparr>"

text \<open>The directories whose rules can decide, from the root to the parent of the path.\<close>

definition rule_dirs :: "path \<Rightarrow> path \<Rightarrow> path list" where
  "rule_dirs root rel = root # map (\<lambda>i. root @ take (Suc i) rel) [0..<length rel - 1]"

fun keep_loop :: "('d, 'g) Gitignores \<Rightarrow> 'd \<Rightarrow> path \<Rightarrow> path list \<Rightarrow> 'g Filter \<Rightarrow> bool \<times> 'g Filter" where
  "keep_loop gi disk absp [] f = (True, f)"
| "keep_loop gi disk absp (dir # dirs) f =
     (case gitignore_for gi disk dir f of
        (None, f') \<Rightarrow> keep_loop gi disk absp dirs f'
      | (Some g, f') \<Rightarrow>
          (case strip_root dir absp of
             None \<Rightarrow> keep_loop gi disk absp dirs f'
           | Some rel_to_gi \<Rightarrow>
               (case gi_matched gi g rel_to_gi of
                  Ignore \<Rightarrow> (False, f')
                | Whitelist \<Rightarrow> (True, f')
                | No_Match \<Rightarrow> keep_loop gi disk absp dirs f')))"

definition dot_git :: "path \<Rightarrow> bool" where
  "dot_git rel \<longleftrightarrow> (case rel of [] \<Rightarrow> False | c # _ \<Rightarrow> c = ''.git'')"

definition filter_keep :: "('d, 'g) Gitignores \<Rightarrow> 'd \<Rightarrow> path \<Rightarrow> 'g Filter \<Rightarrow> bool \<times> 'g Filter" where
  "filter_keep gi disk p f =
     (case strip_root (ft_root f) p of
        None \<Rightarrow> (False, f)
      | Some rel \<Rightarrow>
          if dot_git rel then (False, f)
          else keep_loop gi disk (ft_root f @ rel) (rev (rule_dirs (ft_root f) rel)) f)"

subsection \<open>Events\<close>

datatype rename_mode = Rename_Any | Rename_From | Rename_To | Rename_Both | Rename_Other

datatype event_kind =
  Ev_Any | Ev_Access | Ev_Create | Ev_Modify_Name rename_mode | Ev_Modify_Other | Ev_Remove | Ev_Other

record notify_event =
  ne_kind :: event_kind
  ne_paths :: "path list"

definition each_path :: "ChangeKind \<Rightarrow> notify_event \<Rightarrow> (nat \<times> ChangeKind) list" where
  "each_path k event = map (\<lambda>i. (i, k)) [0..<length (ne_paths event)]"

definition event_kinds :: "notify_event \<Rightarrow> (nat \<times> ChangeKind) list option" where
  "event_kinds event =
     (case ne_kind event of
        Ev_Create \<Rightarrow> Some (each_path Created event)
      | Ev_Remove \<Rightarrow> Some (each_path Removed event)
      | Ev_Modify_Name mode \<Rightarrow>
          Some (case mode of
                  Rename_From \<Rightarrow> each_path Removed event
                | Rename_To \<Rightarrow> each_path Created event
                | Rename_Both \<Rightarrow>
                    (if ne_paths event \<noteq> [] then [(0, Removed)] else []) @
                    (if 2 \<le> length (ne_paths event) then [(1, Created)] else [])
                | _ \<Rightarrow> each_path Modified event)
      | Ev_Modify_Other \<Rightarrow> Some (each_path Modified event)
      | _ \<Rightarrow> None)"

record ('g, 't) watch_state =
  wt_filter :: "'g Filter"
  wt_log :: ChangeLog
  wt_parse_cache :: "'t ParseCache"

definition touch_gitignore :: "path \<Rightarrow> 'g Filter \<Rightarrow> 'g Filter" where
  "touch_gitignore p f =
     (if p \<noteq> [] \<and> last p = ''.gitignore'' then filter_invalidate (butlast p) f else f)"

definition handle_change ::
  "('d, 'g) Gitignores \<Rightarrow> 'd \<Rightarrow> path \<Rightarrow> ChangeKind \<Rightarrow> ('g, 't) watch_state \<Rightarrow> ('g, 't) watch_state" where
  "handle_change gi disk p kind w =
     (case filter_keep gi disk p (touch_gitignore p (wt_filter w)) of
        (kept, f) \<Rightarrow>
          let w1 = w\<lparr>wt_filter := f\<rparr>
          in if \<not> kept then w1
             else (case filter_relative f p of
                     None \<Rightarrow> w1
                   | Some rel \<Rightarrow>
                       if rel = [] then w1
                       else w1\<lparr>wt_parse_cache := evict (path_str p) (wt_parse_cache w1),
                              wt_log := changelog_record rel kind (wt_log w1)\<rparr>))"

fun handle_changes ::
  "('d, 'g) Gitignores \<Rightarrow> 'd \<Rightarrow> path list \<Rightarrow> (nat \<times> ChangeKind) list \<Rightarrow> ('g, 't) watch_state \<Rightarrow>
     ('g, 't) watch_state" where
  "handle_changes gi disk paths [] w = w"
| "handle_changes gi disk paths ((idx, kind) # ks) w =
     handle_changes gi disk paths ks
       (if idx < length paths then handle_change gi disk (paths ! idx) kind w else w)"

definition handle_event ::
  "('d, 'g) Gitignores \<Rightarrow> 'd \<Rightarrow> notify_event \<Rightarrow> ('g, 't) watch_state \<Rightarrow> ('g, 't) watch_state" where
  "handle_event gi disk event w =
     (case event_kinds event of
        None \<Rightarrow> w
      | Some kinds \<Rightarrow> handle_changes gi disk (ne_paths event) kinds w)"

text \<open>The watcher over time: before each event the disk has become \<open>disk\<close>.\<close>

fun watch :: "('d, 'g) Gitignores \<Rightarrow> ('d \<times> notify_event) list \<Rightarrow> ('g, 't) watch_state \<Rightarrow> ('g, 't) watch_state" where
  "watch gi [] w = w"
| "watch gi ((disk, event) # es) w = watch gi es (handle_event gi disk event w)"

subsection \<open>Specification\<close>

text \<open>The decision without a cache: the deepest \<^verbatim>\<open>.gitignore\<close> with an opinion wins.\<close>

fun verdict :: "('d, 'g) Gitignores \<Rightarrow> 'd \<Rightarrow> path \<Rightarrow> path list \<Rightarrow> bool" where
  "verdict gi disk absp [] = True"
| "verdict gi disk absp (dir # dirs) =
     (case gi_load gi disk dir of
        None \<Rightarrow> verdict gi disk absp dirs
      | Some g \<Rightarrow>
          (case gi_matched gi g (drop (length dir) absp) of
             Ignore \<Rightarrow> False | Whitelist \<Rightarrow> True | No_Match \<Rightarrow> verdict gi disk absp dirs))"

definition keeps :: "('d, 'g) Gitignores \<Rightarrow> 'd \<Rightarrow> path \<Rightarrow> path \<Rightarrow> bool" where
  "keeps gi disk root p \<longleftrightarrow>
     prefix root p \<and> \<not> dot_git (drop (length root) p) \<and>
     verdict gi disk p (rev (rule_dirs root (drop (length root) p)))"

definition rel_str :: "path \<Rightarrow> path \<Rightarrow> string" where
  "rel_str root p = from_utf8_lossy (join ''/'' (drop (length root) p))"

definition recorded ::
  "('d, 'g) Gitignores \<Rightarrow> path \<Rightarrow> 'd \<Rightarrow> path list \<Rightarrow> nat \<times> ChangeKind \<Rightarrow> (string \<times> ChangeKind) list" where
  "recorded gi root disk paths ik =
     (if fst ik < length paths \<and> keeps gi disk root (paths ! fst ik) \<and> rel_str root (paths ! fst ik) \<noteq> []
      then [(rel_str root (paths ! fst ik), snd ik)] else [])"

definition event_records ::
  "('d, 'g) Gitignores \<Rightarrow> path \<Rightarrow> 'd \<times> notify_event \<Rightarrow> (string \<times> ChangeKind) list" where
  "event_records gi root de =
     (case event_kinds (snd de) of
        None \<Rightarrow> []
      | Some kinds \<Rightarrow> concat (map (recorded gi root (fst de) (ne_paths (snd de))) kinds))"

text \<open>Notification discipline: when the rules of a directory have changed on the disk, the
  event that is handled next is about its \<^verbatim>\<open>.gitignore\<close>, named first.\<close>

definition announces :: "('d, 'g) Gitignores \<Rightarrow> 'd \<Rightarrow> 'd \<times> notify_event \<Rightarrow> bool" where
  "announces gi disk de \<longleftrightarrow>
     (\<forall>dir. gi_load gi (fst de) dir \<noteq> gi_load gi disk dir \<longrightarrow>
        (\<exists>k ks. event_kinds (snd de) = Some ((0, k) # ks)) \<and>
        ne_paths (snd de) \<noteq> [] \<and> hd (ne_paths (snd de)) = dir @ [''.gitignore''])"

fun announced :: "('d, 'g) Gitignores \<Rightarrow> 'd \<Rightarrow> ('d \<times> notify_event) list \<Rightarrow> bool" where
  "announced gi disk [] \<longleftrightarrow> True"
| "announced gi disk (de # des) \<longleftrightarrow> announces gi disk de \<and> announced gi (fst de) des"

definition coherent :: "('d, 'g) Gitignores \<Rightarrow> 'd \<Rightarrow> 'g Filter \<Rightarrow> bool" where
  "coherent gi disk f \<longleftrightarrow> (\<forall>dir v. ft_cache f dir = Some v \<longrightarrow> v = gi_load gi disk dir)"

subsection \<open>The cached filter\<close>

lemma rule_dirs_prefix: "dir \<in> set (rule_dirs root rel) \<Longrightarrow> prefix dir (root @ rel)"
  by (auto simp: rule_dirs_def take_is_prefix)

lemma gitignore_for_coherent:
  assumes "coherent gi disk f" "gitignore_for gi disk dir f = (v, f')"
  shows "v = gi_load gi disk dir \<and> coherent gi disk f' \<and> ft_root f' = ft_root f"
  using assms by (auto simp: gitignore_for_def coherent_def Let_def split: option.splits if_splits)

lemma keep_loop_verdict:
  assumes "coherent gi disk f" "\<forall>dir \<in> set dirs. prefix dir absp" "keep_loop gi disk absp dirs f = (b, f')"
  shows "b = verdict gi disk absp dirs \<and> coherent gi disk f' \<and> ft_root f' = ft_root f"
  using assms
proof (induction dirs arbitrary: f)
  case Nil
  then show ?case by simp
next
  case (Cons dir dirs)
  obtain v f1 where g: "gitignore_for gi disk dir f = (v, f1)" by (rule prod.exhaust)
  note c = gitignore_for_coherent [OF Cons.prems(1) g]
  have "strip_root dir absp = Some (drop (length dir) absp)" using Cons.prems(2) by (simp add: strip_root_def)
  then show ?case
    using Cons.IH [of f1] Cons.prems(2,3) g c by (auto split: option.splits gi_match.splits)
qed

lemma filter_keep_keeps:
  assumes "coherent gi disk f" "filter_keep gi disk p f = (b, f')"
  shows "b = keeps gi disk (ft_root f) p \<and> coherent gi disk f' \<and> ft_root f' = ft_root f"
proof (cases "prefix (ft_root f) p \<and> \<not> dot_git (drop (length (ft_root f)) p)")
  case True
  let ?rel = "drop (length (ft_root f)) p"
  have p: "ft_root f @ ?rel = p" using True by (auto simp: prefix_def)
  have "keep_loop gi disk p (rev (rule_dirs (ft_root f) ?rel)) f = (b, f')"
    using True assms(2) p by (simp add: filter_keep_def strip_root_def)
  from keep_loop_verdict [OF assms(1) _ this] show ?thesis
    using True p rule_dirs_prefix [of _ "ft_root f" ?rel] by (simp add: keeps_def)
next
  case False
  then show ?thesis using assms by (auto simp: filter_keep_def strip_root_def keeps_def split: if_splits)
qed

lemma touch_gitignore_root [simp]: "ft_root (touch_gitignore p f) = ft_root f"
  by (simp add: touch_gitignore_def filter_invalidate_def)

lemma touch_coherent: "coherent gi disk f \<Longrightarrow> coherent gi disk (touch_gitignore p f)"
  by (auto simp: touch_gitignore_def filter_invalidate_def coherent_def)

lemma touch_changed:
  assumes "coherent gi disk f" "\<And>dir. gi_load gi disk' dir \<noteq> gi_load gi disk dir \<Longrightarrow> p = dir @ [''.gitignore'']"
  shows "coherent gi disk' (touch_gitignore p f)"
  unfolding coherent_def
proof (intro allI impI)
  fix dir v
  assume c: "ft_cache (touch_gitignore p f) dir = Some v"
  then have "ft_cache f dir = Some v"
    by (auto simp: touch_gitignore_def filter_invalidate_def split: if_splits)
  then have "v = gi_load gi disk dir" using assms(1) by (simp add: coherent_def)
  moreover have "p \<noteq> dir @ [''.gitignore'']"
    using c by (auto simp: touch_gitignore_def filter_invalidate_def)
  ultimately show "v = gi_load gi disk' dir" using assms(2) by metis
qed

lemma record_all_append: "record_all (xs @ ys) log = record_all ys (record_all xs log)"
  by (induction xs log rule: record_all.induct) simp_all

lemma handle_change_spec:
  assumes "coherent gi disk (touch_gitignore p (wt_filter w))" "ft_root (wt_filter w) = root"
    and "i < length ps" "ps ! i = p"
  shows "wt_log (handle_change gi disk p kind w) = record_all (recorded gi root disk ps (i, kind)) (wt_log w) \<and>
    coherent gi disk (wt_filter (handle_change gi disk p kind w)) \<and>
    ft_root (wt_filter (handle_change gi disk p kind w)) = root"
proof -
  obtain b f where k: "filter_keep gi disk p (touch_gitignore p (wt_filter w)) = (b, f)" by (rule prod.exhaust)
  note s = filter_keep_keeps [OF assms(1) k]
  have "b \<Longrightarrow> prefix root p" using s assms(2) by (simp add: keeps_def)
  then have "b \<Longrightarrow> filter_relative f p = Some (rel_str root p)"
    using s assms(2) by (simp add: filter_relative_def strip_root_def rel_str_def)
  then show ?thesis
    using k s assms(2-4) by (auto simp: handle_change_def recorded_def Let_def)
qed

lemma handle_changes_spec:
  assumes "coherent gi disk (wt_filter w)" "ft_root (wt_filter w) = root"
  shows "wt_log (handle_changes gi disk ps ks w) =
      record_all (concat (map (recorded gi root disk ps) ks)) (wt_log w) \<and>
    coherent gi disk (wt_filter (handle_changes gi disk ps ks w)) \<and>
    ft_root (wt_filter (handle_changes gi disk ps ks w)) = root"
  using assms
proof (induction ks arbitrary: w)
  case Nil
  then show ?case by simp
next
  case (Cons ik ks)
  obtain i k where ik: "ik = (i, k)" by (rule prod.exhaust)
  show ?case
  proof (cases "i < length ps")
    case True
    from handle_change_spec [OF touch_coherent [OF Cons.prems(1)] Cons.prems(2) True refl, of k]
      Cons.IH [of "handle_change gi disk (ps ! i) k w"]
    show ?thesis using ik True by (simp add: record_all_append)
  next
    case False
    then show ?thesis using Cons.IH [OF Cons.prems] ik by (simp add: recorded_def)
  qed
qed

lemma handle_event_spec:
  assumes "coherent gi disk (wt_filter w)" "ft_root (wt_filter w) = root" "announces gi disk (disk', event)"
  shows "wt_log (handle_event gi disk' event w) = record_all (event_records gi root (disk', event)) (wt_log w) \<and>
    coherent gi disk' (wt_filter (handle_event gi disk' event w)) \<and>
    ft_root (wt_filter (handle_event gi disk' event w)) = root"
proof (cases "\<exists>dir. gi_load gi disk' dir \<noteq> gi_load gi disk dir")
  case False
  then have c: "coherent gi disk' (wt_filter w)" using assms(1) by (simp add: coherent_def)
  show ?thesis
    using handle_changes_spec [OF c assms(2)] assms(2) c
    by (auto simp: handle_event_def event_records_def split: option.splits)
next
  case True
  then obtain k ks where ks: "event_kinds event = Some ((0, k) # ks)" "ne_paths event \<noteq> []"
    using assms(3) by (auto simp: announces_def)
  let ?p = "ne_paths event ! 0"
  have "gi_load gi disk' dir \<noteq> gi_load gi disk dir \<Longrightarrow> ?p = dir @ [''.gitignore'']" for dir
    using assms(3) ks(2) by (simp add: announces_def hd_conv_nth)
  from handle_change_spec [OF touch_changed [OF assms(1) this] assms(2),
      where i = 0 and ps = "ne_paths event" and kind = k]
    ks(2) handle_changes_spec [of gi disk' "handle_change gi disk' ?p k w" root "ne_paths event" ks]
  show ?thesis using ks by (simp add: handle_event_def event_records_def record_all_append)
qed

lemma watch_spec:
  assumes "coherent gi disk (wt_filter w)" "ft_root (wt_filter w) = root" "announced gi disk des"
  shows "wt_log (watch gi des w) = record_all (concat (map (event_records gi root) des)) (wt_log w)"
  using assms
proof (induction des arbitrary: disk w)
  case Nil
  then show ?case by simp
next
  case (Cons de des)
  obtain disk' event where de: "de = (disk', event)" by (rule prod.exhaust)
  from handle_event_spec [OF Cons.prems(1,2), of disk' event] Cons.IH [of disk' "handle_event gi disk' event w"]
    Cons.prems(3)
  show ?case using de by (simp add: record_all_append)
qed

subsection \<open>What is recorded, and the parse cache\<close>

lemma filter_keep_root: "ft_root (snd (filter_keep gi disk p f)) = ft_root f"
proof -
  have "ft_root (snd (gitignore_for gi disk d g)) = ft_root g" for d g
    by (simp add: gitignore_for_def Let_def split: option.splits)
  then have "ft_root (snd (keep_loop gi disk q ds g)) = ft_root g" for q ds g
    by (induction gi disk q ds g rule: keep_loop.induct) (auto split: prod.splits option.splits gi_match.splits, (metis snd_conv)+)
  then show ?thesis by (simp add: filter_keep_def split: option.splits)
qed

lemma filter_keep_inside:
  assumes "filter_keep gi disk p f = (True, f')"
  shows "prefix (ft_root f) p \<and> \<not> dot_git (drop (length (ft_root f)) p) \<and> ft_root f' = ft_root f"
  using assms filter_keep_root [of gi disk p f]
  by (auto simp: filter_keep_def strip_root_def split: if_splits)

definition pc_paths :: "'t ParseCache \<Rightarrow> string list" where
  "pc_paths g = map pe_path (pc_entries g)"

lemma evict_paths:
  assumes "distinct (pc_paths g)" "pc_capacity g \<noteq> 0"
  shows "q \<notin> set (pc_paths (evict q g))" "set (pc_paths (evict q g)) \<subseteq> set (pc_paths g)"
    "distinct (pc_paths (evict q g))" "pc_capacity (evict q g) \<noteq> 0"
proof -
  let ?pos = "position (\<lambda>e. pe_path e = q) (pc_entries g)"
  show "q \<notin> set (pc_paths (evict q g))"
  proof (cases ?pos)
    case None
    then have "\<forall>e \<in> set (pc_entries g). pe_path e \<noteq> q" by (simp add: position_None)
    then show ?thesis using assms(2) None by (auto simp: evict_def pc_paths_def)
  next
    case (Some pos)
    then show ?thesis
      using position_SomeD [OF Some] remove_at_key_notin [of pe_path "pc_entries g" pos] assms
      by (auto simp: evict_def pc_paths_def)
  qed
  show "set (pc_paths (evict q g)) \<subseteq> set (pc_paths g)" "distinct (pc_paths (evict q g))"
    "pc_capacity (evict q g) \<noteq> 0"
    using assms set_remove_at_subset [of _ "pc_entries g"] distinct_remove_at [of pe_path "pc_entries g"]
    by (auto simp: evict_def pc_paths_def split: option.splits)
qed

text \<open>What an event may do, whatever the rules and the cached filter say: record changes of
  named paths inside the root, and evict each of them.\<close>

definition tracked :: "path \<Rightarrow> path list \<Rightarrow> ('g, 't) watch_state \<Rightarrow> ('g, 't) watch_state \<Rightarrow> bool" where
  "tracked root ps w w' \<longleftrightarrow>
     (\<exists>evs. wt_log w' = record_all evs (wt_log w) \<and>
        (\<forall>e \<in> set evs. \<exists>p \<in> set ps. prefix root p \<and> \<not> dot_git (drop (length root) p) \<and>
            fst e = rel_str root p \<and> fst e \<noteq> [] \<and> path_str p \<notin> set (pc_paths (wt_parse_cache w'))))"

definition cache_ok :: "path \<Rightarrow> ('g, 't) watch_state \<Rightarrow> bool" where
  "cache_ok root w \<longleftrightarrow> ft_root (wt_filter w) = root \<and> distinct (pc_paths (wt_parse_cache w)) \<and>
     pc_capacity (wt_parse_cache w) \<noteq> 0"

lemma tracked_trans:
  assumes "tracked root ps w u" "tracked root ps u v"
    and "set (pc_paths (wt_parse_cache v)) \<subseteq> set (pc_paths (wt_parse_cache u))"
  shows "tracked root ps w v"
proof -
  obtain xs where x: "wt_log u = record_all xs (wt_log w)"
    "\<forall>e \<in> set xs. \<exists>p \<in> set ps. prefix root p \<and> \<not> dot_git (drop (length root) p) \<and>
       fst e = rel_str root p \<and> fst e \<noteq> [] \<and> path_str p \<notin> set (pc_paths (wt_parse_cache u))"
    using assms(1) unfolding tracked_def by blast
  obtain ys where y: "wt_log v = record_all ys (wt_log u)"
    "\<forall>e \<in> set ys. \<exists>p \<in> set ps. prefix root p \<and> \<not> dot_git (drop (length root) p) \<and>
       fst e = rel_str root p \<and> fst e \<noteq> [] \<and> path_str p \<notin> set (pc_paths (wt_parse_cache v))"
    using assms(2) unfolding tracked_def by blast
  have "\<exists>p \<in> set ps. prefix root p \<and> \<not> dot_git (drop (length root) p) \<and>
       fst e = rel_str root p \<and> fst e \<noteq> [] \<and> path_str p \<notin> set (pc_paths (wt_parse_cache v))"
    if e: "e \<in> set (xs @ ys)" for e
  proof (cases "e \<in> set xs")
    case True
    then obtain p where "p \<in> set ps" "prefix root p" "\<not> dot_git (drop (length root) p)"
       "fst e = rel_str root p" "fst e \<noteq> []" "path_str p \<notin> set (pc_paths (wt_parse_cache u))"
      using x(2) by meson
    then show ?thesis using assms(3) by (intro bexI [of _ p]) auto
  qed (use e y(2) in simp)
  then show ?thesis
    unfolding tracked_def using x(1) y(1)
    by (intro exI [of _ "xs @ ys"] conjI ballI) (auto simp: record_all_append)
qed

lemma tracked_refl: "wt_log w' = wt_log w \<Longrightarrow> tracked root ps w w'"
  unfolding tracked_def by (rule exI [of _ "[]"]) simp

lemma handle_change_tracked:
  assumes "cache_ok root w" "p \<in> set ps"
  shows "tracked root ps w (handle_change gi disk p kind w) \<and> cache_ok root (handle_change gi disk p kind w) \<and>
    set (pc_paths (wt_parse_cache (handle_change gi disk p kind w))) \<subseteq> set (pc_paths (wt_parse_cache w))"
proof -
  obtain b f where k: "filter_keep gi disk p (touch_gitignore p (wt_filter w)) = (b, f)" by (rule prod.exhaust)
  then have f: "ft_root f = root"
    using filter_keep_root [of gi disk p "touch_gitignore p (wt_filter w)"] assms(1) by (simp add: cache_ok_def)
  show ?thesis
  proof (cases "b \<and> rel_str root p \<noteq> []")
    case True
    then have "prefix root p" "\<not> dot_git (drop (length root) p)"
      using filter_keep_inside [of gi disk p "touch_gitignore p (wt_filter w)" f] k assms(1)
      by (simp_all add: cache_ok_def)
    moreover from this True k f have "handle_change gi disk p kind w =
        w\<lparr>wt_filter := f, wt_parse_cache := evict (path_str p) (wt_parse_cache w),
          wt_log := changelog_record (rel_str root p) kind (wt_log w)\<rparr>"
      by (simp add: handle_change_def filter_relative_def strip_root_def rel_str_def Let_def)
    moreover have "distinct (pc_paths (wt_parse_cache w))" "pc_capacity (wt_parse_cache w) \<noteq> 0"
      using assms(1) by (simp_all add: cache_ok_def)
    note e = evict_paths [OF this, of "path_str p"]
    ultimately show ?thesis
      using e f True assms(2) unfolding tracked_def cache_ok_def
      by (auto intro!: exI [of _ "[(rel_str root p, kind)]"] bexI [of _ p])
  next
    case False
    then have "handle_change gi disk p kind w = w\<lparr>wt_filter := f\<rparr>"
      using k f by (auto simp: handle_change_def filter_relative_def rel_str_def strip_root_def Let_def
          split: option.splits if_splits)
    then show ?thesis using assms(1) f by (simp add: cache_ok_def tracked_refl)
  qed
qed

lemma handle_changes_tracked:
  assumes "cache_ok root w"
  shows "tracked root ps w (handle_changes gi disk ps ks w) \<and> cache_ok root (handle_changes gi disk ps ks w) \<and>
    set (pc_paths (wt_parse_cache (handle_changes gi disk ps ks w))) \<subseteq> set (pc_paths (wt_parse_cache w))"
  using assms
proof (induction ks arbitrary: w)
  case Nil
  then show ?case by (simp add: tracked_refl)
next
  case (Cons ik ks)
  obtain i k where ik: "ik = (i, k)" by (rule prod.exhaust)
  show ?case
  proof (cases "i < length ps")
    case True
    let ?u = "handle_change gi disk (ps ! i) k w"
    have u: "tracked root ps w ?u" "cache_ok root ?u"
      "set (pc_paths (wt_parse_cache ?u)) \<subseteq> set (pc_paths (wt_parse_cache w))"
      using handle_change_tracked [OF Cons.prems, of "ps ! i" ps gi disk k] True by simp_all
    show ?thesis
      using tracked_trans [OF u(1), of "handle_changes gi disk ps ks ?u"] Cons.IH [OF u(2)] u(3) ik True
      by auto
  next
    case False
    then show ?thesis using Cons.IH [OF Cons.prems] ik by simp
  qed
qed

subsection \<open>Properties\<close>

text \<open>The change log holds exactly the changes the ignore rules let through: starting with an
  empty rule cache, after any sequence of events that announce every change of a
  \<^verbatim>\<open>.gitignore\<close>, it is the log of the events filtered by the rules on the disk at the time of
  each event. The cached rules are never stale.\<close>

theorem watcher_records_unignored_changes:
  assumes "announced gi disk des" "wt_filter w = filter_new root"
  shows "wt_log (watch gi des w) = record_all (concat (map (event_records gi root) des)) (wt_log w)"
  by (rule watch_spec [OF _ _ assms(1)]) (simp_all add: assms(2) filter_new_def coherent_def)

text \<open>Whatever the rules and whatever is cached, an event records only paths it names, inside
  the root, not in \<^verbatim>\<open>.git\<close>, and not the root itself; each recorded path has left the parse cache.\<close>

theorem watcher_event_tracked:
  assumes "cache_ok root w"
  shows "tracked root (ne_paths event) w (handle_event gi disk event w) \<and>
         cache_ok root (handle_event gi disk event w)"
proof (cases "event_kinds event")
  case None
  then show ?thesis using assms by (simp add: handle_event_def tracked_refl)
next
  case (Some ks)
  then show ?thesis
    using handle_changes_tracked [OF assms, of "ne_paths event" gi disk ks] by (simp add: handle_event_def)
qed

definition demo_gi :: "(string, string) Gitignores" where
  "demo_gi = \<lparr>gi_load = (\<lambda>disk dir. if dir = [''r''] then Some disk else None),
     gi_matched = (\<lambda>g p. if last p = g then Ignore else No_Match)\<rparr>"

definition demo_watch :: "(string, unit) watch_state" where
  "demo_watch = \<lparr>wt_filter = filter_new [''r''], wt_log = changelog_with_capacity 4,
     wt_parse_cache = parse_cache_new 2\<rparr>"

definition demo_created :: "string list \<Rightarrow> notify_event" where
  "demo_created p = \<lparr>ne_kind = Ev_Create, ne_paths = [p]\<rparr>"

lemma demo_lossy_ab: "from_utf8_lossy ''a'' = ''a''" "from_utf8_lossy ''.gitignore'' = ''.gitignore''"
  by code_simp+

text \<open>The rules first exclude \<open>a\<close>, then \<open>b\<close>.\<close>

theorem watcher_records_unignored_changes_witness:
  "wt_log (watch demo_gi
     [(''a'', demo_created [''r'', ''a'']), (''b'', demo_created [''r'', ''.gitignore'']),
      (''b'', demo_created [''r'', ''a''])] demo_watch) =
   record_all [(''.gitignore'', Created), (''a'', Created)] (changelog_with_capacity 4)"
proof -
  have "announced demo_gi ''a'' [(''a'', demo_created [''r'', ''a'']), (''b'', demo_created [''r'', ''.gitignore'']),
      (''b'', demo_created [''r'', ''a''])]"
    by (simp add: announces_def demo_gi_def demo_created_def event_kinds_def each_path_def)
  from watcher_records_unignored_changes [OF this, of demo_watch "[''r'']"] show ?thesis
    by (simp add: demo_watch_def event_records_def demo_created_def event_kinds_def each_path_def
        recorded_def keeps_def dot_git_def rule_dirs_def demo_gi_def rel_str_def demo_lossy_ab)
qed

theorem watcher_event_tracked_witness:
  "tracked [''r''] [[''r'', ''a'']] demo_watch (handle_event demo_gi ''b'' (demo_created [''r'', ''a'']) demo_watch)"
proof -
  have "cache_ok [''r''] demo_watch"
    by (simp add: cache_ok_def demo_watch_def filter_new_def pc_paths_def parse_cache_new_def)
  from watcher_event_tracked [OF this, of "demo_created [''r'', ''a'']" demo_gi "''b''"] show ?thesis
    by (simp add: demo_created_def)
qed

end
