(* ===== verification/Code_Handlers.thy ===== *)
theory Code_Handlers
  imports Backends Files
begin

text \<open>
  The code handlers of \<^verbatim>\<open>src/crates/daemon/src/handlers.rs\<close>: outlines and symbols, single and
  batched, over the backend registry; identifier occurrences over parsed trees; and the
  skeleton of a file, in which the bodies of its symbols are elided.

  The root node of a parsed tree and the column of a node are tree-sitter accessors, parameters.
\<close>

subsection \<open>Outlines and symbols\<close>

definition code_outline_inner ::
  "Os \<Rightarrow> path \<Rightarrow> 's BackendRegistry \<Rightarrow> CodeOutlineParams \<Rightarrow> 's \<Rightarrow> CodeOutlineResult rpc \<times> 's" where
  "code_outline_inner os root backends params s =
     and_then (resolve_within os root (cop_path params), s) (\<lambda>path s.
     and_then (registry_outline backends (path_str path) (cop_signatures_only params) s) (\<lambda>r s.
       (Ok \<lparr>cor_path = cop_path params,
            cor_language = map_option (\<lambda>r. language_name (or_language r)) r,
            cor_entries = (case r of Some r \<Rightarrow> or_entries r | None \<Rightarrow> [])\<rparr>, s)))"

definition code_symbols_inner ::
  "Os \<Rightarrow> path \<Rightarrow> 's BackendRegistry \<Rightarrow> CodeSymbolsParams \<Rightarrow> 's \<Rightarrow> CodeSymbolsResult rpc \<times> 's" where
  "code_symbols_inner os root backends params s =
     and_then (resolve_within os root (csp_path params), s) (\<lambda>path s.
     and_then (registry_symbols backends (path_str path) s) (\<lambda>r s.
       (Ok \<lparr>csr_path = csp_path params,
            csr_language = map_option (\<lambda>r. language_name (sr_language r)) r,
            csr_names = (case r of Some r \<Rightarrow> sr_names r | None \<Rightarrow> [])\<rparr>, s)))"

text \<open>A batch answers every request by itself; a failing one becomes an error item.\<close>

fun batch :: "('q \<Rightarrow> 's \<Rightarrow> 'r rpc \<times> 's) \<Rightarrow> ('q \<Rightarrow> 'r option \<Rightarrow> RpcError option \<Rightarrow> 'i) \<Rightarrow> 'q list \<Rightarrow> 's \<Rightarrow>
    'i list rpc \<times> 's" where
  "batch handler item [] s = (Ok [], s)"
| "batch handler item (q # qs) s =
     (case handler q s of
        (Ok r, s') \<Rightarrow>
          and_then (batch handler item qs s') (\<lambda>is s. (Ok (item q (Some r) None # is), s))
      | (Err e, s') \<Rightarrow>
          and_then (batch handler item qs s') (\<lambda>is s. (Ok (item q None (Some e) # is), s))
      | (Panic m, s') \<Rightarrow> (Panic m, s'))"

definition code_outline_batch ::
  "Os \<Rightarrow> path \<Rightarrow> 's BackendRegistry \<Rightarrow> CodeOutlineBatchParams \<Rightarrow> 's \<Rightarrow> CodeOutlineBatchResult rpc \<times> 's" where
  "code_outline_batch os root backends params s =
     and_then (batch (code_outline_inner os root backends)
         (\<lambda>q r e. \<lparr>cobi_path = cop_path q, cobi_result = r, cobi_error = e\<rparr>) (cobp_requests params) s)
       (\<lambda>is s. (Ok \<lparr>cobr_responses = is\<rparr>, s))"

definition code_symbols_batch ::
  "Os \<Rightarrow> path \<Rightarrow> 's BackendRegistry \<Rightarrow> CodeSymbolsBatchParams \<Rightarrow> 's \<Rightarrow> CodeSymbolsBatchResult rpc \<times> 's" where
  "code_symbols_batch os root backends params s =
     and_then (batch (code_symbols_inner os root backends)
         (\<lambda>q r e. \<lparr>csbi_path = csp_path q, csbi_result = r, csbi_error = e\<rparr>) (csbp_requests params) s)
       (\<lambda>is s. (Ok \<lparr>csbr_responses = is\<rparr>, s))"

subsection \<open>Occurrences\<close>

definition identifier_kinds :: "string list" where
  "identifier_kinds = [''identifier'', ''field_identifier'', ''type_identifier'', ''property_identifier'']"

definition skipped_kind :: "string \<Rightarrow> bool" where
  "skipped_kind kind \<longleftrightarrow> str_contains ''comment'' kind \<or> str_contains ''string'' kind"

definition occurrence :: "(Node \<Rightarrow> nat) \<Rightarrow> string \<Rightarrow> Node \<Rightarrow> CodeOccurrence" where
  "occurrence column path n =
     \<lparr>co_path = path, co_line = u32_of (n_start_row n) + 1, co_column = u32_of (column n) + 1,
      co_kind = n_kind n\<rparr>"

fun collect ::
  "(Node \<Rightarrow> nat) \<Rightarrow> string \<Rightarrow> string \<Rightarrow> string \<Rightarrow> nat \<Rightarrow> Node \<Rightarrow> CodeOccurrence list \<Rightarrow> CodeOccurrence list rpc"
  and collect_children ::
  "(Node \<Rightarrow> nat) \<Rightarrow> string \<Rightarrow> string \<Rightarrow> string \<Rightarrow> nat \<Rightarrow> (string option \<times> Node) list \<Rightarrow> CodeOccurrence list \<Rightarrow>
     CodeOccurrence list rpc" where
  "collect column source path needle mx (Node k nm sb eb sr er cs) out =
     (let n = Node k nm sb eb sr er cs
      in if mx \<le> length out then Ok out
         else if k \<in> set identifier_kinds
         then (case utf8_text n source of
                 Panic m \<Rightarrow> Panic m
               | Err e \<Rightarrow> Ok out
               | Ok t \<Rightarrow> Ok (if t = needle then out @ [occurrence column path n] else out))
         else if skipped_kind k then Ok out
         else collect_children column source path needle mx cs out)"
| "collect_children column source path needle mx [] out = Ok out"
| "collect_children column source path needle mx ((fld, c) # cs) out =
     res_bind (collect column source path needle mx c out) (\<lambda>out'.
       if mx \<le> length out' then Ok out'
       else collect_children column source path needle mx cs out')"

record 't code_syntax =
  sx_ts :: "'t tree_sitter"
  sx_root :: "'t \<Rightarrow> Node"
  sx_column :: "Node \<Rightarrow> nat"

definition OCCURRENCES_DEFAULT :: nat where "OCCURRENCES_DEFAULT = 200"
definition SOURCE_FILES_MAX :: nat where "SOURCE_FILES_MAX = 4096"

fun occurrences_in ::
  "Os \<Rightarrow> path \<Rightarrow> 't code_syntax \<Rightarrow> (string \<Rightarrow> file_view) \<Rightarrow> string \<Rightarrow> nat \<Rightarrow> string list \<Rightarrow>
     CodeOccurrence list \<Rightarrow> 't ParseCache \<Rightarrow> (CodeOccurrence list \<times> bool) rpc \<times> 't ParseCache" where
  "occurrences_in os root sx fs needle mx [] occ g = (Ok (occ, False), g)"
| "occurrences_in os root sx fs needle mx (rel # files) occ g =
     and_then (resolve_within os root rel, g) (\<lambda>path g.
     and_then (ts_parse (sx_ts sx) fs (path_str path) g) (\<lambda>p g.
       case p of
         None \<Rightarrow> occurrences_in os root sx fs needle mx files occ g
       | Some parsed \<Rightarrow>
           and_then (collect (sx_column sx) (pf_source parsed) rel needle mx (sx_root sx (pf_tree parsed)) occ, g)
             (\<lambda>occ' g. if mx \<le> length occ' then (Ok (occ', True), g)
                       else occurrences_in os root sx fs needle mx files occ' g)))"

text \<open>\<open>source_files\<close> takes the files of a walk, in order.\<close>

fun source_files :: "path \<Rightarrow> nat \<Rightarrow> path option list \<Rightarrow> string list \<Rightarrow> string list" where
  "source_files root mx [] out = out"
| "source_files root mx (None # es) out = source_files root mx es out"
| "source_files root mx (Some p # es) out =
     (if detect (path_str p) = None then source_files root mx es out
      else (let out' = out @ [relative_str root p]
            in if mx \<le> length out' then out' else source_files root mx es out'))"

definition code_find_occurrences ::
  "Os \<Rightarrow> path \<Rightarrow> 't code_syntax \<Rightarrow> (string \<Rightarrow> file_view) \<Rightarrow> path option list \<Rightarrow> CodeFindOccurrencesParams \<Rightarrow>
     't ParseCache \<Rightarrow> CodeFindOccurrencesResult rpc \<times> 't ParseCache" where
  "code_find_occurrences os root sx fs walk params g =
     (if cfop_identifier params = []
      then (Err (rpc_error (-32602) ''identifier must not be empty''), g)
      else
        (let mx = (case cfop_max_results params of Some n \<Rightarrow> n | None \<Rightarrow> OCCURRENCES_DEFAULT);
             files = (case cfop_path params of
                        Some p \<Rightarrow> [p]
                      | None \<Rightarrow> source_files root SOURCE_FILES_MAX walk [])
         in and_then (occurrences_in os root sx fs (cfop_identifier params) mx files [] g) (\<lambda>(occ, tr) g.
              (Ok \<lparr>cfor_occurrences = occ, cfor_truncated = tr\<rparr>, g))))"

subsection \<open>Skeletons\<close>

definition skeleton_lines :: "string \<Rightarrow> string list" where
  "skeleton_lines content =
     (let ls = map (\<lambda>l. l @ [nl]) (str_lines content)
      in if \<not> ends_with [nl] content \<and> ls \<noteq> [] then butlast ls @ [butlast (last ls)] else ls)"

definition skeleton_marker :: "nat \<Rightarrow> string \<Rightarrow> string" where
  "skeleton_marker removed symbol =
     ''// ... '' @ dec_of_nat removed @ '' lines elided from '' @ symbol @ '' ...'' @ [nl]"

definition keep_entry :: "FsReadSkeletonParams \<Rightarrow> CodeOutlineEntry \<Rightarrow> bool" where
  "keep_entry params entry \<longleftrightarrow>
     frsp_target_symbol params = Some (coe_name entry) \<or>
     (case frsp_target_line params of
        None \<Rightarrow> False
      | Some line \<Rightarrow> coe_start_line entry \<le> line \<and> line \<le> coe_end_line entry)"

definition elide_entry ::
  "FsReadSkeletonParams \<Rightarrow> CodeOutlineEntry \<Rightarrow> string list \<times> SkeletonElidedRegion list \<Rightarrow>
     string list \<times> SkeletonElidedRegion list" where
  "elide_entry params entry le =
     (case le of (ls, elided) \<Rightarrow>
        if keep_entry params entry \<or> coe_end_line entry \<le> coe_start_line entry + 2 then (ls, elided)
        else
          (let start = coe_start_line entry; fin = coe_end_line entry
           in if fin \<le> start \<or> length ls < fin then (ls, elided)
              else (let removed = fin - start
                    in (take start ls @ [skeleton_marker removed (coe_name entry)] @ drop fin ls,
                        elided @ [\<lparr>ser_symbol = coe_name entry, ser_start_line = coe_start_line entry + 1,
                                   ser_end_line = coe_end_line entry, ser_lines = u32_of removed\<rparr>]))))"

definition elide_all ::
  "FsReadSkeletonParams \<Rightarrow> CodeOutlineEntry list \<Rightarrow> string list \<Rightarrow> string list \<times> SkeletonElidedRegion list" where
  "elide_all params entries ls =
     (case fold (elide_entry params) (rev entries) (ls, []) of (ls', elided) \<Rightarrow> (ls', rev elided))"

definition fs_read_skeleton ::
  "Os \<Rightarrow> 's BackendRegistry \<Rightarrow> FsReadSkeletonParams \<Rightarrow> FsState \<Rightarrow> 's \<Rightarrow> FsReadSkeletonResult rpc \<times> 's" where
  "fs_read_skeleton os backends params st s =
     and_then (code_outline_inner os (st_root st) backends
         \<lparr>cop_path = frsp_path params, cop_signatures_only = True\<rparr> s) (\<lambda>ol s.
     and_then (resolve_within os (st_root st) (frsp_path params), s) (\<lambda>p s.
     and_then (map_err (-32080) ''read: '' (fs_read_to_string p st), s) (\<lambda>content s.
       case elide_all params (cor_entries ol) (skeleton_lines content) of
         (ls, elided) \<Rightarrow>
           (Ok \<lparr>frsr_path = frsp_path params, frsr_language = cor_language ol, frsr_content = concat ls,
                frsr_elided_regions = elided\<rparr>, s))))"

subsection \<open>All occurrences\<close>

text \<open>The occurrences in a tree in preorder, without a cap, and the trees whose identifiers lie
  within the source.\<close>

fun occs :: "(Node \<Rightarrow> nat) \<Rightarrow> string \<Rightarrow> string \<Rightarrow> string \<Rightarrow> Node \<Rightarrow> CodeOccurrence list"
  and occs_children ::
  "(Node \<Rightarrow> nat) \<Rightarrow> string \<Rightarrow> string \<Rightarrow> string \<Rightarrow> (string option \<times> Node) list \<Rightarrow> CodeOccurrence list" where
  "occs column source path needle (Node k nm sb eb sr er cs) =
     (let n = Node k nm sb eb sr er cs
      in if k \<in> set identifier_kinds
         then (if utf8_text n source = Ok needle then [occurrence column path n] else [])
         else if skipped_kind k then []
         else occs_children column source path needle cs)"
| "occs_children column source path needle [] = []"
| "occs_children column source path needle ((fld, c) # cs) =
     occs column source path needle c @ occs_children column source path needle cs"

fun readable :: "string \<Rightarrow> Node \<Rightarrow> bool" and readable_children :: "string \<Rightarrow> (string option \<times> Node) list \<Rightarrow> bool" where
  "readable source (Node k nm sb eb sr er cs) \<longleftrightarrow>
     (if k \<in> set identifier_kinds then sb \<le> eb \<and> eb \<le> length source
      else skipped_kind k \<or> readable_children source cs)"
| "readable_children source [] \<longleftrightarrow> True"
| "readable_children source ((fld, c) # cs) \<longleftrightarrow> readable source c \<and> readable_children source cs"

lemma collect_takes:
  "readable source n \<Longrightarrow> length out \<le> mx \<Longrightarrow>
     collect column source path needle mx n out = Ok (take mx (out @ occs column source path needle n))"
  "readable_children source cs \<Longrightarrow> length out \<le> mx \<Longrightarrow>
     collect_children column source path needle mx cs out =
       Ok (take mx (out @ occs_children column source path needle cs))"
proof (induction column source path needle mx n out and column source path needle mx cs out
    rule: collect_collect_children.induct)
  case (1 column source path needle mx k nm sb eb sr er cs out)
  show ?case
  proof (cases "mx \<le> length out")
    case True
    then show ?thesis using "1.prems"(2) by simp
  next
    case more: False
    show ?thesis
    proof (cases "k \<in> set identifier_kinds")
      case True
      then have "utf8_text (Node k nm sb eb sr er cs) source \<noteq> Panic m" for m
        using "1.prems"(1) by (simp add: utf8_text_def Let_def)
      then show ?thesis
        using True more by (auto simp: Let_def split: res.splits)
    next
      case False
      then show ?thesis
        using "1.IH" [OF refl] more "1.prems" by (auto simp: Let_def)
    qed
  qed
next
  case (2 column source path needle mx out)
  then show ?case by simp
next
  case (3 column source path needle mx fld c cs out)
  have c: "collect column source path needle mx c out = Ok (take mx (out @ occs column source path needle c))"
    using 3 by simp
  let ?o = "out @ occs column source path needle c"
  show ?case
  proof (cases "mx \<le> length ?o")
    case True
    then show ?thesis using c "3.prems"(2) by (simp add: min_def)
  next
    case False
    then have "take mx ?o = ?o" by simp
    then show ?thesis using c "3.IH"(2) [of ?o] "3.prems" False by simp
  qed
qed

definition file_occs ::
  "Os \<Rightarrow> path \<Rightarrow> 't code_syntax \<Rightarrow> (string \<Rightarrow> file_view) \<Rightarrow> string \<Rightarrow> string \<Rightarrow> CodeOccurrence list" where
  "file_occs os root sx fs needle rel =
     (case resolve_within os root rel of
        Ok p \<Rightarrow>
          (case parse_fresh (ts_grammar (sx_ts sx)) (fs (path_str p)) (path_str p) of
             Ok (Some parsed) \<Rightarrow>
               occs (sx_column sx) (pf_source parsed) rel needle (sx_root sx (pf_tree parsed))
           | _ \<Rightarrow> [])
      | _ \<Rightarrow> [])"

definition searchable :: "Os \<Rightarrow> path \<Rightarrow> 't code_syntax \<Rightarrow> (string \<Rightarrow> file_view) \<Rightarrow> string \<Rightarrow> bool" where
  "searchable os root sx fs rel \<longleftrightarrow>
     (case resolve_within os root rel of
        Ok p \<Rightarrow>
          (case parse_fresh (ts_grammar (sx_ts sx)) (fs (path_str p)) (path_str p) of
             Ok (Some parsed) \<Rightarrow> readable (pf_source parsed) (sx_root sx (pf_tree parsed))
           | Ok None \<Rightarrow> True
           | _ \<Rightarrow> False)
      | _ \<Rightarrow> False)"

definition view_faithful ::
  "(string \<Rightarrow> FileStamp \<Rightarrow> (string, string) res) \<Rightarrow> (string \<Rightarrow> file_view) \<Rightarrow> bool" where
  "view_faithful contents fs \<longleftrightarrow>
     (\<forall>path. case fv_stamp (fs path) of Some st \<Rightarrow> fv_read (fs path) = contents path st | None \<Rightarrow> True)"

lemma ts_parse_fresh:
  assumes "pc.consistent (parsed_at (ts_grammar ts) contents) g" "view_faithful contents fs"
    and "parse_fresh (ts_grammar ts) (fs path) path = Ok p"
  obtains g' where "ts_parse ts fs path g = (Ok p, g')" "pc.consistent (parsed_at (ts_grammar ts) contents) g'"
proof -
  obtain r g' where r: "get_or_parse (ts_grammar ts) (fs path) path g = (r, g')" by (rule prod.exhaust)
  have "r = parse_fresh (ts_grammar ts) (fs path) path \<and> pc.consistent (parsed_at (ts_grammar ts) contents) g'"
    using get_or_parse_fresh [OF assms(1) _ r] assms(2) by (simp add: view_faithful_def)
  then show thesis using that r assms(3) by (simp add: ts_parse_def)
qed

lemma and_then_Ok [simp]: "and_then (Ok a, s) f = f a s"
  by (simp add: and_then_def)

lemma occurrences_in_spec:
  assumes "pc.consistent (parsed_at (ts_grammar (sx_ts sx)) contents) g" "view_faithful contents fs"
    and "\<forall>rel \<in> set files. searchable os root sx fs rel" "length occ < mx"
  shows "\<exists>g'. occurrences_in os root sx fs needle mx files occ g =
    (Ok (take mx (occ @ concat (map (file_occs os root sx fs needle) files)),
         mx \<le> length occ + length (concat (map (file_occs os root sx fs needle) files))), g')"
  using assms(1,3,4)
proof (induction files arbitrary: occ g)
  case Nil
  then show ?case by simp
next
  case (Cons rel files)
  from Cons.prems(2) obtain p where p: "resolve_within os root rel = Ok p"
    by (auto simp: searchable_def split: res.splits)
  then obtain x where x: "parse_fresh (ts_grammar (sx_ts sx)) (fs (path_str p)) (path_str p) = Ok x"
    using Cons.prems(2) by (auto simp: searchable_def split: res.splits)
  from ts_parse_fresh [OF Cons.prems(1) assms(2) x] obtain g1 where
    g1: "ts_parse (sx_ts sx) fs (path_str p) g = (Ok x, g1)"
      "pc.consistent (parsed_at (ts_grammar (sx_ts sx)) contents) g1" .
  show ?case
  proof (cases x)
    case None
    then show ?thesis using Cons.IH [OF g1(2)] Cons.prems g1(1) p x by (simp add: file_occs_def)
  next
    case (Some parsed)
    let ?os = "occs (sx_column sx) (pf_source parsed) rel needle (sx_root sx (pf_tree parsed))"
    have fo: "file_occs os root sx fs needle rel = ?os" using p x Some by (simp add: file_occs_def)
    have "readable (pf_source parsed) (sx_root sx (pf_tree parsed))"
      using Cons.prems(2) p x Some by (simp add: searchable_def)
    then have c: "collect (sx_column sx) (pf_source parsed) rel needle mx (sx_root sx (pf_tree parsed)) occ =
        Ok (take mx (occ @ ?os))" using collect_takes(1) Cons.prems(3) by simp
    show ?thesis
    proof (cases "mx \<le> length (occ @ ?os)")
      case True
      then show ?thesis using g1(1) p x Some c fo Cons.prems(3) by (simp add: min_def)
    next
      case False
      then show ?thesis
        using Cons.IH [OF g1(2), of "occ @ ?os"] Cons.prems g1(1) p x Some c fo by (simp add: add.assoc)
    qed
  qed
qed

subsection \<open>The elided text\<close>

text \<open>The file with the lines of each elided symbol replaced by its marker, from line \<open>k\<close> on.\<close>

definition elided :: "FsReadSkeletonParams \<Rightarrow> CodeOutlineEntry \<Rightarrow> bool" where
  "elided params e \<longleftrightarrow> \<not> keep_entry params e \<and> coe_start_line e + 2 < coe_end_line e"

fun assemble :: "FsReadSkeletonParams \<Rightarrow> nat \<Rightarrow> CodeOutlineEntry list \<Rightarrow> string list \<Rightarrow> string list" where
  "assemble params k [] ls = drop k ls"
| "assemble params k (e # es) ls =
     (if elided params e
      then take (coe_start_line e - k) (drop k ls) @
           [skeleton_marker (coe_end_line e - coe_start_line e) (coe_name e)] @
           assemble params (coe_end_line e) es ls
      else assemble params k es ls)"

definition elided_region :: "CodeOutlineEntry \<Rightarrow> SkeletonElidedRegion" where
  "elided_region e = \<lparr>ser_symbol = coe_name e, ser_start_line = coe_start_line e + 1,
     ser_end_line = coe_end_line e, ser_lines = u32_of (coe_end_line e - coe_start_line e)\<rparr>"

text \<open>Symbols one after the other, none inside another.\<close>

fun laid_out :: "nat \<Rightarrow> CodeOutlineEntry list \<Rightarrow> nat \<Rightarrow> bool" where
  "laid_out k [] n \<longleftrightarrow> k \<le> n"
| "laid_out k (e # es) n \<longleftrightarrow>
     k \<le> coe_start_line e \<and> coe_start_line e \<le> coe_end_line e \<and> laid_out (coe_end_line e) es n"

lemma laid_out_le: "laid_out k es n \<Longrightarrow> k \<le> n"
  by (induction es arbitrary: k) (auto dest: order.trans)

lemma laid_out_mono: "laid_out k es n \<Longrightarrow> j \<le> k \<Longrightarrow> laid_out j es n"
  by (cases es) auto

lemma take_split: "b \<le> a \<Longrightarrow> take a xs = take b xs @ take (a - b) (drop b xs)"
  by (metis le_add_diff_inverse take_add)

lemma elide_entry_kept: "\<not> elided params e \<Longrightarrow> elide_entry params e le = le"
  by (auto simp: elide_entry_def elided_def split: prod.splits)

lemma elide_entry_elided:
  "elided params e \<Longrightarrow> coe_end_line e \<le> length ls \<Longrightarrow> elide_entry params e (ls, rs) =
     (take (coe_start_line e) ls @ [skeleton_marker (coe_end_line e - coe_start_line e) (coe_name e)] @
        drop (coe_end_line e) ls, rs @ [elided_region e])"
  by (simp add: elide_entry_def elided_def elided_region_def Let_def)

lemma assemble_shift:
  assumes "laid_out k es (length ls)" "j \<le> k"
  shows "assemble params j es ls = take (k - j) (drop j ls) @ assemble params k es ls"
  using assms
proof (induction es arbitrary: j k)
  case Nil
  have "drop (k - j) (drop j ls) = drop k ls" using Nil.prems(2) by simp
  then show ?case by (metis append_take_drop_id assemble.simps(1))
next
  case (Cons e es)
  show ?case
  proof (cases "elided params e")
    case True
    have "take (coe_start_line e - j) (drop j ls) =
        take (k - j) (drop j ls) @ take (coe_start_line e - j - (k - j)) (drop (k - j) (drop j ls))"
      using Cons.prems by (intro take_split) (auto intro: diff_le_mono)
    then show ?thesis using True Cons.prems by simp
  next
    case False
    have "laid_out k es (length ls)" using Cons.prems laid_out_mono by auto
    then show ?thesis using False Cons.IH [of k j] Cons.prems(2) by simp
  qed
qed

lemma elide_fold:
  assumes "laid_out k es (length ls)"
  shows "fold (elide_entry params) (rev es) (ls, []) =
    (take k ls @ assemble params k es ls, rev (map elided_region (filter (elided params) es)))"
  using assms
proof (induction es arbitrary: k)
  case Nil
  then show ?case by simp
next
  case (Cons e es)
  let ?s = "coe_start_line e" and ?f = "coe_end_line e"
  have lo: "k \<le> ?s" "?s \<le> ?f" "laid_out ?f es (length ls)" using Cons.prems by simp_all
  then have n: "?f \<le> length ls" using laid_out_le by blast
  note ih = Cons.IH [OF lo(3)]
  show ?case
  proof (cases "elided params e")
    case True
    have "take ?s ls = take k ls @ take (?s - k) (drop k ls)" using lo(1) by (rule take_split)
    moreover have "fold (elide_entry params) (rev (e # es)) (ls, []) =
        (take ?s ls @ [skeleton_marker (?f - ?s) (coe_name e)] @ assemble params ?f es ls,
         rev (map elided_region (filter (elided params) (e # es))))"
      using ih True n lo(2) by (simp add: elide_entry_elided)
    ultimately show ?thesis using True by (simp only: assemble.simps if_True append_assoc)
  next
    case False
    have "take ?f ls = take k ls @ take (?f - k) (drop k ls)" using lo(1,2) by (intro take_split) simp
    moreover have "assemble params k es ls = take (?f - k) (drop k ls) @ assemble params ?f es ls"
      using assemble_shift [OF lo(3), of k params] lo(1,2) by simp
    ultimately have "take ?f ls @ assemble params ?f es ls = take k ls @ assemble params k es ls"
      by (simp only: append_assoc)
    with ih False show ?thesis by (simp add: elide_entry_kept)
  qed
qed

subsection \<open>Properties\<close>

text \<open>Finding occurrences: for a positive cap, over files that resolve, parse and whose
  identifiers lie within their source, the answer is the first \<open>cap\<close> of all occurrences, in file
  order and in preorder within a file, as the files read now, whatever the parse cache
  holds; \<open>truncated\<close> is set exactly when there are at least \<open>cap\<close>.\<close>

theorem find_occurrences_first_matches:
  assumes "pc.consistent (parsed_at (ts_grammar (sx_ts sx)) contents) g" "view_faithful contents fs"
    and "cfop_identifier params \<noteq> []" "cfop_max_results params = Some cap" "0 < cap"
    and "files = (case cfop_path params of Some p \<Rightarrow> [p] | None \<Rightarrow> source_files root SOURCE_FILES_MAX walk [])"
    and "\<forall>rel \<in> set files. searchable os root sx fs rel"
    and "all = concat (map (file_occs os root sx fs (cfop_identifier params)) files)"
  shows "fst (code_find_occurrences os root sx fs walk params g) =
           Ok \<lparr>cfor_occurrences = take cap all, cfor_truncated = (cap \<le> length all)\<rparr>"
proof -
  obtain g' where "occurrences_in os root sx fs (cfop_identifier params) cap files [] g =
      (Ok (take cap all, cap \<le> length all), g')"
    using occurrences_in_spec [OF assms(1,2,7), of "[]" cap] assms(5,8) by auto
  then show ?thesis using assms(3,4,6) by (simp add: code_find_occurrences_def)
qed

definition demo_syntax :: "unit code_syntax" where
  "demo_syntax = \<lparr>sx_ts = \<lparr>ts_grammar = \<lparr>gr_set_language = (\<lambda>_. None), gr_parse = (\<lambda>_ _. Some ())\<rparr>,
        ts_query = (\<lambda>_ _. Ok []), ts_matches = (\<lambda>_ _ _ _. [])\<rparr>,
     sx_root = (\<lambda>_. Node ''identifier'' True 0 2 0 0 []), sx_column = n_start_byte\<rparr>"

definition demo_fs :: "string \<Rightarrow> file_view" where
  "demo_fs p = \<lparr>fv_stamp = Some \<lparr>fst_mtime_ns = 1, fst_size = 2\<rparr>, fv_read = Ok ''fn''\<rparr>"

definition all_os :: Os where
  "all_os = \<lparr>os_canonicalize = (\<lambda>p. Ok [''r'', ''a.rs'']), os_base64 = (\<lambda>b. b)\<rparr>"

lemma demo_rs: "detect (path_str [''r'', ''a.rs'']) = Some Rust"
  by code_simp

lemma demo_valid_fn: "valid_utf8 ''fn''"
  by code_simp

theorem find_occurrences_first_matches_witness:
  "\<exists>occ. fst (code_find_occurrences all_os [''r''] demo_syntax demo_fs []
      \<lparr>cfop_identifier = ''fn'', cfop_path = Some ''a.rs'', cfop_max_results = Some 1\<rparr> (parse_cache_new 2)) =
     Ok \<lparr>cfor_occurrences = [occ], cfor_truncated = True\<rparr>"
proof -
  let ?p = "\<lparr>cfop_identifier = ''fn'', cfop_path = Some ''a.rs'', cfop_max_results = Some 1\<rparr>"
  have r: "resolve_within all_os [''r''] ''a.rs'' = Ok [''r'', ''a.rs'']"
    by (simp add: resolve_within_def all_os_def)
  have f: "parse_fresh (ts_grammar (sx_ts demo_syntax)) (demo_fs q) (path_str [''r'', ''a.rs'']) =
      Ok (Some \<lparr>pf_language = Rust, pf_source = ''fn'', pf_tree = ()\<rparr>)" for q
    by (simp add: parse_fresh_eq demo_rs demo_fs_def read_and_parse_def demo_syntax_def)
  have v: "view_faithful (\<lambda>_ _. Ok ''fn'') demo_fs" by (simp add: view_faithful_def demo_fs_def)
  have s: "\<forall>rel \<in> set [''a.rs'']. searchable all_os [''r''] demo_syntax demo_fs rel"
    by (simp add: searchable_def r f) (simp add: demo_syntax_def identifier_kinds_def)
  have o: "file_occs all_os [''r''] demo_syntax demo_fs ''fn'' ''a.rs'' =
      [occurrence n_start_byte ''a.rs'' (Node ''identifier'' True 0 2 0 0 [])]"
    by (simp add: file_occs_def r f)
      (simp add: demo_syntax_def identifier_kinds_def utf8_text_def demo_valid_fn)
  from find_occurrences_first_matches [where params = ?p and cap = 1 and files = "[''a.rs'']" and walk = "[]",
      OF new_consistent v _ _ _ _ s refl] o
  show ?thesis by simp
qed


definition demo_entry :: "string \<Rightarrow> nat \<Rightarrow> nat \<Rightarrow> CodeOutlineEntry" where
  "demo_entry n a b = \<lparr>coe_kind = ''fn'', coe_name = n, coe_start_byte = 0, coe_end_byte = 0,
     coe_start_line = a, coe_end_line = b, coe_signature = None\<rparr>"

definition no_target :: FsReadSkeletonParams where
  "no_target = \<lparr>frsp_path = ''a'', frsp_target_line = None, frsp_target_symbol = None\<rparr>"


text \<open>With nested symbols the elision goes wrong: the inner body is elided first, and then the
  outer one by line numbers that no longer hold. Here a class on lines 1 to 10 has a method
  on lines 3 to 8, and the file goes on to line 20; lines 11 to 14, outside the class,
  disappear, although the reported regions end at line 10.\<close>

theorem skeleton_drops_lines_after_nested_symbol:
  "elide_all no_target [demo_entry ''C'' 1 10, demo_entry ''m'' 3 8] (map L [1..<21]) =
     (L 1 # skeleton_marker 9 ''C'' # map L [15..<21],
      map elided_region [demo_entry ''C'' 1 10, demo_entry ''m'' 3 8])"
  by (simp add: elide_all_def elide_entry_def demo_entry_def no_target_def keep_entry_def elided_region_def
      upt_rec Let_def) (simp add: eval_nat_numeral)

end
