(* ===== verification/Imports.thy ===== *)
theory Imports
  imports Code_Handlers
begin

text \<open>
  Imports and the dependency graph: \<open>code_imports\<close>, \<open>extract_imports\<close>, \<open>resolve_import_path\<close>,
  \<open>code_dependencies\<close> of \<^verbatim>\<open>src/crates/daemon/src/handlers.rs\<close>. Imports are recognised line by
  line; \<open>line_modules\<close> is the body of the loop, with the flag of Go's import blocks. Whether a
  path exists is a parameter beside \<open>Os\<close>.
\<close>

subsection \<open>Recognising imports\<close>

definition trim_end_matches :: "char \<Rightarrow> string \<Rightarrow> string" where
  "trim_end_matches c s = rev (dropWhile (\<lambda>d. d = c) (rev s))"

definition trim_start_matches :: "char \<Rightarrow> string \<Rightarrow> string" where
  "trim_start_matches c s = dropWhile (\<lambda>d. d = c) s"

definition first_word :: "string \<Rightarrow> string option" where
  "first_word s = (case split_whitespace s of [] \<Rightarrow> None | w # _ \<Rightarrow> Some w)"

definition dquote :: char where "dquote = CHR 0x22"
definition squote :: char where "squote = CHR 0x27"

definition quoted_module :: "string \<Rightarrow> string option" where
  "quoted_module line =
     (case position (\<lambda>c. c = dquote \<or> c = squote) line of
        None \<Rightarrow> None
      | Some start \<Rightarrow>
          (let quote = line ! start; tail = drop (start + 1) line
           in case position (\<lambda>c. c = quote) tail of
                None \<Rightarrow> None
              | Some fin \<Rightarrow> Some (take fin tail)))"

definition use_module :: "string \<Rightarrow> string \<Rightarrow> string option" where
  "use_module pre line =
     (case strip_prefix pre line of
        None \<Rightarrow> None
      | Some s \<Rightarrow> first_word (trim_end_matches CHR '';'' s))"

definition rust_modules :: "string \<Rightarrow> string list" where
  "rust_modules line =
     (case (case use_module ''use '' line of Some m \<Rightarrow> Some m | None \<Rightarrow> use_module ''pub use '' line) of
        Some m \<Rightarrow> [m]
      | None \<Rightarrow> (case use_module ''mod '' line of Some m \<Rightarrow> [m] | None \<Rightarrow> []))"

definition python_modules :: "string \<Rightarrow> string list" where
  "python_modules line =
     (case strip_prefix ''import '' line of
        Some rest \<Rightarrow> List.map_filter first_word (split_on CHR '','' rest)
      | None \<Rightarrow>
          (case strip_prefix ''from '' line of
             Some rest \<Rightarrow> (case first_word rest of Some m \<Rightarrow> [m] | None \<Rightarrow> [])
           | None \<Rightarrow> []))"

definition ts_modules :: "string \<Rightarrow> string list" where
  "ts_modules line =
     (case quoted_module line of
        None \<Rightarrow> []
      | Some m \<Rightarrow>
          if starts_with ''import '' line \<or> starts_with ''export '' line \<or> str_contains '' require('' line
          then [m] else [])"

definition go_modules :: "bool \<Rightarrow> string \<Rightarrow> string list \<times> bool" where
  "go_modules go_block line =
     (if line = ''import ('' then ([], True)
      else if go_block \<and> line = '')'' then ([], False)
      else (case quoted_module (case strip_prefix ''import '' line of Some r \<Rightarrow> r | None \<Rightarrow> line) of
              None \<Rightarrow> ([], go_block)
            | Some m \<Rightarrow>
                (if go_block \<or> starts_with ''import '' line then [m] else [], go_block)))"

definition c_modules :: "string \<Rightarrow> string list" where
  "c_modules line =
     (case strip_prefix ''#include'' line of
        None \<Rightarrow> []
      | Some rest \<Rightarrow> (case quoted_module rest of None \<Rightarrow> [] | Some m \<Rightarrow> [m]))"

definition line_modules :: "Language \<Rightarrow> bool \<Rightarrow> string \<Rightarrow> string list \<times> bool" where
  "line_modules lang go_block line =
     (case lang of
        Rust \<Rightarrow> (rust_modules line, go_block)
      | Python \<Rightarrow> (python_modules line, go_block)
      | TypeScript \<Rightarrow> (ts_modules line, go_block)
      | Tsx \<Rightarrow> (ts_modules line, go_block)
      | Go \<Rightarrow> go_modules go_block line
      | C \<Rightarrow> (c_modules line, go_block)
      | Cpp \<Rightarrow> (c_modules line, go_block))"

subsection \<open>Resolving imports\<close>

fun before_colons :: "string \<Rightarrow> string" where
  "before_colons [] = []"
| "before_colons (c # s) = (if starts_with ''::'' (c # s) then [] else c # before_colons s)"

definition dots_to_slashes :: "string \<Rightarrow> string" where
  "dots_to_slashes = map (\<lambda>c. if c = CHR ''.'' then CHR ''/'' else c)"

definition import_candidates :: "string \<Rightarrow> string \<Rightarrow> Language \<Rightarrow> string list" where
  "import_candidates module base lang =
     (if lang \<in> {TypeScript, Tsx} \<and> starts_with ''.'' module
      then concat (map (\<lambda>ext. [path_join base (module @ ''.'' @ ext),
                               path_join (path_join base module) (''index.'' @ ext)])
                     [''ts'', ''tsx'', ''js'', ''jsx''])
      else if lang = Python \<and> starts_with ''.'' module
      then (let trimmed = dots_to_slashes (trim_start_matches CHR ''.'' module)
            in [path_join base (trimmed @ ''.py''), path_join (path_join base trimmed) ''__init__.py''])
      else if lang = Rust
      then (let rel = before_colons module
            in [path_join base (rel @ ''.rs''), path_join (path_join base rel) ''mod.rs''])
      else [])"

definition resolve_import_path ::
  "Os \<Rightarrow> (string \<Rightarrow> bool) \<Rightarrow> string \<Rightarrow> path \<Rightarrow> path \<Rightarrow> Language \<Rightarrow> string option" where
  "resolve_import_path os ex module base_dir root lang =
     (case find ex (import_candidates module (path_str base_dir) lang) of
        None \<Rightarrow> None
      | Some p \<Rightarrow>
          (case os_canonicalize os p of
             Ok canon \<Rightarrow>
               if prefix root canon then Some (from_utf8_lossy (join ''/'' (drop (length root) canon))) else None
           | _ \<Rightarrow> None))"

definition import_entry ::
  "Os \<Rightarrow> (string \<Rightarrow> bool) \<Rightarrow> path \<Rightarrow> path \<Rightarrow> Language \<Rightarrow> nat \<Rightarrow> string \<Rightarrow> ImportEntry" where
  "import_entry os ex base_dir root lang line module =
     \<lparr>ie_module = module, ie_resolved_path = resolve_import_path os ex module base_dir root lang,
      ie_line = line\<rparr>"

fun extract_lines ::
  "Os \<Rightarrow> (string \<Rightarrow> bool) \<Rightarrow> path \<Rightarrow> path \<Rightarrow> Language \<Rightarrow> nat \<Rightarrow> bool \<Rightarrow> string list \<Rightarrow> ImportEntry list" where
  "extract_lines os ex base_dir root lang idx go_block [] = []"
| "extract_lines os ex base_dir root lang idx go_block (raw # ls) =
     (case line_modules lang go_block (trim raw) of
        (ms, go_block') \<Rightarrow>
          map (import_entry os ex base_dir root lang (u32_of idx + 1)) ms @
          extract_lines os ex base_dir root lang (idx + 1) go_block' ls)"

definition extract_imports ::
  "Os \<Rightarrow> (string \<Rightarrow> bool) \<Rightarrow> Language \<Rightarrow> string \<Rightarrow> path \<Rightarrow> path \<Rightarrow> ImportEntry list" where
  "extract_imports os ex lang content base_dir root =
     extract_lines os ex base_dir root lang 0 False (str_lines content)"

subsection \<open>The handlers\<close>

definition code_imports_inner ::
  "Os \<Rightarrow> (string \<Rightarrow> bool) \<Rightarrow> string \<Rightarrow> FsState \<Rightarrow> CodeImportsResult rpc" where
  "code_imports_inner os ex path st =
     res_bind (resolve_within os (st_root st) path) (\<lambda>absp.
     res_bind (map_err (-32080) ''read: '' (fs_read_to_string absp st)) (\<lambda>content.
       let language = detect (path_str absp);
           base_dir = (if absp = [] then st_root st else butlast absp);
           imports = (case language of
                        Some lang \<Rightarrow> extract_imports os ex lang content base_dir (st_root st)
                      | None \<Rightarrow> [])
       in Ok \<lparr>cir_path = path, cir_language = map_option language_name language, cir_imports = imports\<rparr>))"

definition file_edges :: "Os \<Rightarrow> (string \<Rightarrow> bool) \<Rightarrow> FsState \<Rightarrow> string \<Rightarrow> DependencyEdge list" where
  "file_edges os ex st path =
     (case code_imports_inner os ex path st of
        Ok imports \<Rightarrow>
          List.map_filter (\<lambda>i. case ie_resolved_path i of
              Some to \<Rightarrow> Some \<lparr>de_from = path, de_to = to, de_module = ie_module i, de_line = ie_line i\<rparr>
            | None \<Rightarrow> None) (cir_imports imports)
      | _ \<Rightarrow> [])"

definition code_dependencies ::
  "Os \<Rightarrow> (string \<Rightarrow> bool) \<Rightarrow> path option list \<Rightarrow> CodeDependenciesParams \<Rightarrow> FsState \<Rightarrow> CodeDependenciesResult rpc" where
  "code_dependencies os ex walk params st =
     (let files = source_files (st_root st)
            (case cdp_max_files params of Some n \<Rightarrow> n | None \<Rightarrow> SOURCE_FILES_MAX) walk [];
          all_edges = concat (map (file_edges os ex st) files);
          (dependencies, dependents) =
            (case cdp_path params of
               Some focus \<Rightarrow> (filter (\<lambda>e. de_from e = focus) all_edges, filter (\<lambda>e. de_to e = focus) all_edges)
             | None \<Rightarrow> (all_edges, []))
      in Ok \<lparr>cdr_files_scanned = length files, cdr_dependencies = dependencies, cdr_dependents = dependents\<rparr>)"

subsection \<open>Lemmas\<close>

lemma ws_len_graphic: "33 \<le> byte c \<Longrightarrow> byte c < 128 \<Longrightarrow> ws_len (c # s) = 0"
  by (auto simp: ws_len_def split: list.splits)

lemma ws_len_back_graphic:
  assumes "33 \<le> byte c" "byte c < 128"
  shows "ws_len_back (c # r) = 0"
proof -
  have "ws_len [x, c] \<noteq> 2" for x using assms by (simp add: ws_len_def)
  moreover have "ws_len [y, x, c] \<noteq> 3" for x y using assms by (simp add: ws_len_def)
  ultimately show ?thesis
    using assms by (cases r rule: list.exhaust; cases "tl r") (auto simp: ws_len_back_def ws_len_graphic numeral_2_eq_2 numeral_3_eq_3)
qed

lemma trim_graphic:
  assumes "33 \<le> byte c" "byte c < 128" "33 \<le> byte d" "byte d < 128"
  shows "trim (c # s @ [d]) = c # s @ [d]"
proof -
  have "trim_start (c # s @ [d]) = c # s @ [d]"
    using ws_len_graphic [OF assms(1,2)] by (subst trim_start.simps) simp
  moreover have "trim_back (d # rev s @ [c]) = d # rev s @ [c]"
    using ws_len_back_graphic [OF assms(3,4)] by (subst trim_back.simps) simp
  ultimately show ?thesis by (simp add: trim_def trim_end_def)
qed

lemma position_first: "P x \<Longrightarrow> \<forall>y \<in> set ys. \<not> P y \<Longrightarrow> position P (ys @ x # zs) = Some (length ys)"
  by (induction ys) auto

lemma quoted_module_between:
  assumes "q = dquote \<or> q = squote" "dquote \<notin> set a" "squote \<notin> set a" "q \<notin> set m"
  shows "quoted_module (a @ q # m @ q # b) = Some m"
proof -
  have "position (\<lambda>c. c = dquote \<or> c = squote) (a @ q # m @ q # b) = Some (length a)"
    using assms(1-3) by (intro position_first) auto
  moreover have "position (\<lambda>c. c = q) (m @ q # b) = Some (length m)"
    using assms(4) by (intro position_first) auto
  ultimately show ?thesis by (simp add: quoted_module_def Let_def nth_append)
qed

definition include_line :: "string \<Rightarrow> string" where
  "include_line m = ''#include '' @ dquote # m @ [dquote]"

definition include_ok :: "string \<Rightarrow> bool" where
  "include_ok m \<longleftrightarrow> dquote \<notin> set m \<and> nl \<notin> set m"

lemma include_line_modules: "include_ok m \<Longrightarrow> c_modules (trim (include_line m)) = [m]"
proof -
  assume ok: "include_ok m"
  have "trim (include_line m) = include_line m"
    using trim_graphic [of "CHR ''#''" dquote "''include '' @ dquote # m"]
    by (simp add: include_line_def byte_def dquote_def)
  moreover have "quoted_module ('' '' @ dquote # m @ dquote # []) = Some m"
    using ok by (intro quoted_module_between) (simp_all add: include_ok_def dquote_def squote_def)
  ultimately show ?thesis
    by (simp add: c_modules_def strip_prefix_def starts_with_def include_line_def)
qed

lemma str_lines_includes:
  "\<forall>m \<in> set ms. include_ok m \<Longrightarrow>
     str_lines (concat (map (\<lambda>m. include_line m @ [nl]) ms)) = map include_line ms"
proof (induction ms)
  case Nil
  then show ?case by (simp add: str_lines_def)
next
  case (Cons m ms)
  have "nl \<notin> set (include_line m)"
    using Cons.prems by (simp add: include_line_def include_ok_def dquote_def)
  then show ?case
    using Cons by (simp add: str_lines_def split_inclusive_line strip_line_end_def)
      (simp add: include_line_def dquote_def)
qed

lemma extract_includes:
  "\<forall>m \<in> set ms. include_ok m \<Longrightarrow> k + length ms \<le> 2 ^ 32 \<Longrightarrow>
     extract_lines os ex base root C k blk (map include_line ms) =
       map (\<lambda>(i, m). import_entry os ex base root C (i + 1) m) (enumerate k ms)"
  by (induction ms arbitrary: k) (simp_all add: line_modules_def include_line_modules)

text \<open>The lines of the entries, and where resolved paths lie.\<close>

lemma extract_lines_lines:
  assumes "k + length ls \<le> 2 ^ 32" "e \<in> set (extract_lines os ex base root lang k blk ls)"
  shows "k < ie_line e \<and> ie_line e \<le> k + length ls"
  using assms
proof (induction ls arbitrary: k blk)
  case (Cons l ls)
  obtain ms b where m: "line_modules lang blk (trim l) = (ms, b)" by (rule prod.exhaust)
  then consider "e \<in> set (extract_lines os ex base root lang (k + 1) b ls)" | "ie_line e = u32_of k + 1"
    using Cons.prems(2) by (auto simp: import_entry_def)
  then show ?case
  proof cases
    case 1
    then show ?thesis using Cons.IH [of "k + 1" b] Cons.prems(1) by simp
  next
    case 2
    then show ?thesis using Cons.prems(1) by simp
  qed
qed simp

lemma extract_lines_sorted:
  assumes "k + length ls \<le> 2 ^ 32"
  shows "sorted (map ie_line (extract_lines os ex base root lang k blk ls))"
  using assms
proof (induction ls arbitrary: k blk)
  case (Cons l ls)
  obtain ms b where m: "line_modules lang blk (trim l) = (ms, b)" by (rule prod.exhaust)
  have "sorted (map ie_line (extract_lines os ex base root lang (k + 1) b ls))"
    using Cons.IH Cons.prems by simp
  moreover have "\<forall>e \<in> set (extract_lines os ex base root lang (k + 1) b ls). k + 1 < ie_line e"
    using extract_lines_lines [of "k + 1" ls] Cons.prems by auto
  moreover have "sorted (map (\<lambda>_. c) ms)" for c :: nat and ms :: "string list" by (induction ms) auto
  ultimately show ?case
    using m Cons.prems by (auto simp: sorted_append import_entry_def o_def)
qed simp

lemma extract_lines_entries:
  "e \<in> set (extract_lines os ex base root lang k blk ls) \<Longrightarrow>
     ie_resolved_path e = resolve_import_path os ex (ie_module e) base root lang"
  by (induction ls arbitrary: k blk) (auto simp: import_entry_def split: prod.splits)

lemma resolve_import_inside:
  assumes "resolve_import_path os ex m base root lang = Some r"
  obtains p canon where "os_canonicalize os p = Ok canon" "ex p" "prefix root canon" "r = relative_str root canon"
proof -
  obtain p where p: "find ex (import_candidates m (path_str base) lang) = Some p"
    using assms by (auto simp: resolve_import_path_def split: option.splits)
  then have "ex p" by (auto simp: find_Some_iff)
  then show thesis
    using assms p that by (auto simp: resolve_import_path_def relative_str_def split: res.splits if_splits)
qed

subsection \<open>Properties\<close>

text \<open>The imports of any file: in line order, each on a line of the file, and a resolved import
  is an existing file inside the root.\<close>

theorem imports_well_formed:
  assumes "code_imports_inner os ex path st = Ok res" "resolve_within os (st_root st) path = Ok p"
    and "fs_read_to_string p st = Ok content" "length (str_lines content) \<le> 2 ^ 32"
  shows "sorted (map ie_line (cir_imports res)) \<and>
         (\<forall>e \<in> set (cir_imports res). 1 \<le> ie_line e \<and> ie_line e \<le> length (str_lines content) \<and>
            (\<forall>r. ie_resolved_path e = Some r \<longrightarrow>
               (\<exists>q canon. os_canonicalize os q = Ok canon \<and> ex q \<and> prefix (st_root st) canon \<and>
                  r = relative_str (st_root st) canon)))"
proof (cases "detect (path_str p)")
  case None
  then show ?thesis using assms(1-3) by (auto simp: code_imports_inner_def map_err_def Let_def)
next
  case (Some lang)
  let ?base = "if p = [] then st_root st else butlast p"
  let ?es = "extract_lines os ex ?base (st_root st) lang 0 False (str_lines content)"
  have "cir_imports res = ?es"
    using assms(1-3) Some by (auto simp: code_imports_inner_def map_err_def extract_imports_def Let_def)
  moreover have "sorted (map ie_line ?es)" using extract_lines_sorted assms(4) by simp
  moreover have "\<forall>e \<in> set ?es. 1 \<le> ie_line e \<and> ie_line e \<le> length (str_lines content)"
    using extract_lines_lines [of 0 "str_lines content"] assms(4) by fastforce
  moreover have "\<exists>q canon. os_canonicalize os q = Ok canon \<and> ex q \<and> prefix (st_root st) canon \<and>
                  r = relative_str (st_root st) canon"
    if "e \<in> set ?es" "ie_resolved_path e = Some r" for e r
    using resolve_import_inside extract_lines_entries [OF that(1)] that(2) by metis
  ultimately show ?thesis by simp
qed

definition demo_py :: FsState where
  "demo_py = demo_state\<lparr>st_root := [''r''], st_files := [[''r'', ''a.py''] \<mapsto> demo_file\<lparr>fl_bytes := ''import os''\<rparr>]\<rparr>"

definition py_os :: Os where
  "py_os = \<lparr>os_canonicalize = (\<lambda>p. Ok [''r'', ''a.py'']), os_base64 = (\<lambda>b. b)\<rparr>"

lemma demo_py_imports:
  "code_imports_inner py_os (\<lambda>_. False) ''a.py'' demo_py =
     Ok \<lparr>cir_path = ''a.py'', cir_language = Some ''python'',
         cir_imports = [\<lparr>ie_module = ''os'', ie_resolved_path = None, ie_line = 1\<rparr>]\<rparr>"
proof -
  have r: "resolve_within py_os (st_root demo_py) ''a.py'' = Ok [''r'', ''a.py'']"
    by (simp add: resolve_within_def py_os_def demo_py_def)
  have v: "valid_utf8 ''import os''" by code_simp
  have c: "fs_read_to_string [''r'', ''a.py''] demo_py = Ok ''import os''"
    by (simp add: fs_read_to_string_def fs_open_def demo_py_def demo_file_def v)
  have d: "detect (path_str [''r'', ''a.py'']) = Some Python" by code_simp
  have m: "python_modules (trim ''import os'') = [''os'']" by code_simp
  have l: "str_lines ''import os'' = [''import os'']" by code_simp
  show ?thesis
    by (simp add: code_imports_inner_def r c d map_err_def extract_imports_def l line_modules_def m
        import_entry_def resolve_import_path_def import_candidates_def starts_with_def u32_of_def)
qed

theorem imports_well_formed_witness:
  "\<exists>res. code_imports_inner py_os (\<lambda>_. False) ''a.py'' demo_py = Ok res \<and> cir_imports res \<noteq> [] \<and>
     (\<forall>e \<in> set (cir_imports res). 1 \<le> ie_line e)"
proof -
  have r: "resolve_within py_os (st_root demo_py) ''a.py'' = Ok [''r'', ''a.py'']"
    by (simp add: resolve_within_def py_os_def demo_py_def)
  have v: "valid_utf8 ''import os''" by code_simp
  have c: "fs_read_to_string [''r'', ''a.py''] demo_py = Ok ''import os''"
    by (simp add: fs_read_to_string_def fs_open_def demo_py_def demo_file_def v)
  have "str_lines ''import os'' = [''import os'']" by code_simp
  then have "length (str_lines ''import os'') \<le> 2 ^ 32" by simp
  from imports_well_formed [OF demo_py_imports r c this] show ?thesis
    unfolding demo_py_imports by simp
qed

text \<open>Round trip for C: the imports of a file of \<^verbatim>\<open>#include\<close> lines are the included names, in
  order, each with its line.\<close>

theorem include_roundtrip:
  assumes "\<forall>m \<in> set ms. include_ok m" "length ms \<le> 2 ^ 32"
  shows "extract_imports os ex C (concat (map (\<lambda>m. include_line m @ [nl]) ms)) base root =
           map (\<lambda>(i, m). import_entry os ex base root C (i + 1) m) (enumerate 0 ms)"
  using extract_includes [OF assms(1), of 0] assms(2)
  by (simp add: extract_imports_def str_lines_includes [OF assms(1)])

theorem include_roundtrip_witness:
  "map ie_module (extract_imports demo_os (\<lambda>_. False) C
     (concat (map (\<lambda>m. include_line m @ [nl]) [''a.h'', ''b c''])) [] []) = [''a.h'', ''b c'']"
proof -
  have "\<forall>m \<in> set [''a.h'', ''b c'']. include_ok m" by (simp add: include_ok_def dquote_def)
  from include_roundtrip [OF this, of demo_os "\<lambda>_. False" "[]" "[]"] show ?thesis
    by (simp add: import_entry_def)
qed

text \<open>The two directions of the dependency graph agree: an edge is among the dependencies of the
  file it starts from exactly when it is among the dependents of the file it leads to.\<close>

theorem dependencies_dual:
  assumes "code_dependencies os ex walk \<lparr>cdp_path = Some (de_from e), cdp_max_files = mf\<rparr> st = Ok from_res"
    and "code_dependencies os ex walk \<lparr>cdp_path = Some (de_to e), cdp_max_files = mf\<rparr> st = Ok to_res"
    and "code_dependencies os ex walk \<lparr>cdp_path = None, cdp_max_files = mf\<rparr> st = Ok all_res"
  shows "(e \<in> set (cdr_dependencies from_res) \<longleftrightarrow> e \<in> set (cdr_dependents to_res)) \<and>
         (e \<in> set (cdr_dependencies from_res) \<longleftrightarrow> e \<in> set (cdr_dependencies all_res))"
  using assms by (auto simp: code_dependencies_def Let_def)

theorem dependencies_dual_witness:
  "\<exists>f t. code_dependencies demo_os (\<lambda>_. False) [] \<lparr>cdp_path = Some ''a'', cdp_max_files = None\<rparr> demo_state = Ok f \<and>
         code_dependencies demo_os (\<lambda>_. False) [] \<lparr>cdp_path = Some ''b'', cdp_max_files = None\<rparr> demo_state = Ok t \<and>
         (\<lparr>de_from = ''a'', de_to = ''b'', de_module = [], de_line = 1\<rparr> \<in> set (cdr_dependencies f) \<longleftrightarrow>
          \<lparr>de_from = ''a'', de_to = ''b'', de_module = [], de_line = 1\<rparr> \<in> set (cdr_dependents t))"
proof -
  have *: "\<exists>r. code_dependencies demo_os (\<lambda>_. False) [] \<lparr>cdp_path = p, cdp_max_files = None\<rparr> demo_state = Ok r" for p
    by (simp add: code_dependencies_def Let_def split_beta)
  obtain f t a where "code_dependencies demo_os (\<lambda>_. False) [] \<lparr>cdp_path = Some ''a'', cdp_max_files = None\<rparr> demo_state = Ok f"
    "code_dependencies demo_os (\<lambda>_. False) [] \<lparr>cdp_path = Some ''b'', cdp_max_files = None\<rparr> demo_state = Ok t"
    "code_dependencies demo_os (\<lambda>_. False) [] \<lparr>cdp_path = None, cdp_max_files = None\<rparr> demo_state = Ok a"
    using * by meson
  with dependencies_dual [of demo_os "\<lambda>_. False" "[]" "\<lparr>de_from = ''a'', de_to = ''b'', de_module = [], de_line = 1\<rparr>"
      None demo_state f t a] show ?thesis by auto
qed

text \<open>A Python relative import is looked up in the directory of the importing file however many
  dots it has: the leading dots are all removed, so that a parent package is never found.\<close>

theorem python_import_depth_ignored:
  "import_candidates (CHR ''.'' # CHR ''.'' # module) base Python =
     import_candidates (CHR ''.'' # module) base Python"
  by (simp add: import_candidates_def starts_with_def trim_start_matches_def)

end
