(* ===== verification/Git.thy ===== *)
theory Git
  imports Compact Files Metrics
begin

text \<open>
  The git handlers of \<^verbatim>\<open>src/crates/daemon/src/handlers.rs\<close>. libgit2 is a record \<open>Repository\<close> of
  what its calls answer for one repository; \<open>discover\<close> finds it. Object ids are strings. The
  \<open>unwrap\<close> calls of the path filter are panics. Dates and the size of the JSON of a result are
  parameters.
\<close>

subsection \<open>What libgit2 answers\<close>

record Delta =
  dl_new :: "string option"
  dl_old :: "string option"

text \<open>A commit: its deltas against its first parent, if it has one, else which paths its tree has.\<close>

record Commit =
  cm_author :: "string option"
  cm_seconds :: int
  cm_summary :: "string option"
  cm_parent_deltas :: "(Delta list, string) res option"
  cm_tree_has :: "(string \<Rightarrow> bool, string) res"

record BlameHunk =
  bh_commit :: string
  bh_start :: nat
  bh_lines :: nat

record DiffLine =
  df_origin :: char
  df_content :: string

record Repository =
  rp_head :: "(string option \<times> string option) option"
  rp_statuses :: "((string option \<times> (git_flag \<Rightarrow> bool)) list, string) res"
  rp_workdir :: "path option"
  rp_revwalk :: "(unit, string) res"
  rp_revparse :: "string \<Rightarrow> (string, string) res"
  rp_push :: "string \<Rightarrow> (unit, string) res"
  rp_push_head :: "(unit, string) res"
  rp_walk :: "string option \<Rightarrow> (string, string) res list"
  rp_commit :: "string \<Rightarrow> (Commit, string) res"
  rp_peel :: "string \<Rightarrow> (string, string) res"
  rp_diff_trees :: "string \<Rightarrow> string \<Rightarrow> string option \<Rightarrow> (DiffLine list, string) res"
  rp_diff_workdir :: "string \<Rightarrow> string option \<Rightarrow> (DiffLine list, string) res"
  rp_print_fault :: "string option"
  rp_blame :: "path \<Rightarrow> (BlameHunk list, string) res"

record Libgit =
  lg_discover :: "path \<Rightarrow> (Repository, string) res"
  lg_rfc3339 :: "int \<Rightarrow> string option"
  lg_status_size :: "GitStatusResult \<Rightarrow> nat"
  lg_log_size :: "GitLogResult \<Rightarrow> nat"
  lg_diff_size :: "GitDiffResult \<Rightarrow> nat"
  lg_blame_size :: "GitBlameResult \<Rightarrow> nat"
  lg_history_size :: "GitHistoryResult \<Rightarrow> nat"

definition or_default :: "'a \<Rightarrow> 'a option \<Rightarrow> 'a" where
  "or_default d x = (case x of Some a \<Rightarrow> a | None \<Rightarrow> d)"

definition repo_root :: "Os \<Rightarrow> path \<Rightarrow> string option \<Rightarrow> path rpc" where
  "repo_root os root repo = (case repo of Some r \<Rightarrow> resolve_within os root r | None \<Rightarrow> Ok root)"

definition open_repo :: "Os \<Rightarrow> Libgit \<Rightarrow> path \<Rightarrow> string option \<Rightarrow> (path \<times> Repository) rpc" where
  "open_repo os lg root repo =
     res_bind (repo_root os root repo) (\<lambda>rr.
     res_bind (map_err (-32020) ''discover repo: '' (lg_discover lg rr)) (\<lambda>r. Ok (rr, r)))"

subsection \<open>git.status\<close>

definition GIT_STATUS_TOP_DIRS_PER_CLASS :: nat where "GIT_STATUS_TOP_DIRS_PER_CLASS = 16"

definition status_entries :: "(string option \<times> (git_flag \<Rightarrow> bool)) list \<Rightarrow> GitStatusEntry list" where
  "status_entries = List.map_filter (\<lambda>(p, st).
     case p of None \<Rightarrow> None | Some path \<Rightarrow> Some \<lparr>gse_path = path, gse_status = format_status st\<rparr>)"

definition git_status ::
  "Os \<Rightarrow> Libgit \<Rightarrow> path \<Rightarrow> GitStatusParams \<Rightarrow> ToolMetrics \<Rightarrow> GitStatusResult rpc \<times> ToolMetrics" where
  "git_status os lg root params m =
     (case open_repo os lg root (gsp_repo params) of
        Err e \<Rightarrow> (Err e, m)
      | Panic p \<Rightarrow> (Panic p, m)
      | Ok (rr, repo) \<Rightarrow>
          (case map_err (-32021) ''statuses: '' (rp_statuses repo) of
             Err e \<Rightarrow> (Err e, m)
           | Panic p \<Rightarrow> (Panic p, m)
           | Ok statuses \<Rightarrow>
               let branch = (case rp_head repo of Some h \<Rightarrow> fst h | None \<Rightarrow> None);
                   head_oid = (case rp_head repo of Some h \<Rightarrow> snd h | None \<Rightarrow> None);
                   entries = status_entries statuses;
                   raw = \<lparr>gsr_branch = branch, gsr_head = head_oid, gsr_entries = entries, gsr_compact = None\<rparr>;
                   raw_bytes = lg_status_size lg raw;
                   result = (if gsp_compact params
                             then \<lparr>gsr_branch = branch, gsr_head = head_oid, gsr_entries = [],
                                   gsr_compact = Some (git_status_compact entries GIT_STATUS_TOP_DIRS_PER_CLASS)\<rparr>
                             else raw)
               in (Ok result, metrics_record (Bytes GIT_STATUS raw_bytes (lg_status_size lg result)) m)))"

subsection \<open>git.log and git.history\<close>

definition touches :: "string \<Rightarrow> Delta \<Rightarrow> bool" where
  "touches path d \<longleftrightarrow>
     (case dl_new d of Some p \<Rightarrow> from_utf8_lossy p = path | None \<Rightarrow> False) \<or>
     (case dl_old d of Some p \<Rightarrow> from_utf8_lossy p = path | None \<Rightarrow> False)"

definition touched :: "string option \<Rightarrow> Commit \<Rightarrow> bool rpc" where
  "touched path c =
     (case path of
        None \<Rightarrow> Ok True
      | Some p \<Rightarrow>
          (case cm_parent_deltas c of
             Some (Ok ds) \<Rightarrow> Ok (list_ex (touches p) ds)
           | Some (Err e) \<Rightarrow> Panic e
           | Some (Panic e) \<Rightarrow> Panic e
           | None \<Rightarrow> res_bind (map_err (-32045) ''commit tree: '' (cm_tree_has c)) (\<lambda>has. Ok (has p))))"

definition git_commit :: "Libgit \<Rightarrow> string \<Rightarrow> Commit \<Rightarrow> GitCommit" where
  "git_commit lg oid c =
     \<lparr>gc_sha = oid, gc_author = or_default ''unknown'' (cm_author c),
      gc_date = or_default ''unknown'' (lg_rfc3339 lg (cm_seconds c)),
      gc_message = or_default [] (cm_summary c)\<rparr>"

fun log_loop ::
  "Libgit \<Rightarrow> Repository \<Rightarrow> string option \<Rightarrow> nat \<Rightarrow> (string, string) res list \<Rightarrow> GitCommit list \<Rightarrow> GitCommit list rpc" where
  "log_loop lg repo path mx [] commits = Ok commits"
| "log_loop lg repo path mx (x # xs) commits =
     res_bind (map_err (-32044) ''walk: '' x) (\<lambda>oid.
     res_bind (map_err (-32045) ''find commit: '' (rp_commit repo oid)) (\<lambda>c.
     res_bind (touched path c) (\<lambda>t.
       if \<not> t then log_loop lg repo path mx xs commits
       else (let commits' = commits @ [git_commit lg oid c]
             in if mx \<le> length commits' then Ok commits'
                else log_loop lg repo path mx xs commits'))))"

definition GIT_LOG_DEFAULT :: nat where "GIT_LOG_DEFAULT = 50"

definition log_start :: "Repository \<Rightarrow> string option \<Rightarrow> string option rpc" where
  "log_start repo revision =
     (case revision of
        Some revn \<Rightarrow>
          res_bind (map_err (-32041) (''revparse '' @ revn @ '': '') (rp_revparse repo revn)) (\<lambda>oid.
          res_bind (map_err (-32042) ''push rev: '' (rp_push repo oid)) (\<lambda>_. Ok (Some oid)))
      | None \<Rightarrow> res_bind (map_err (-32043) ''push head: '' (rp_push_head repo)) (\<lambda>_. Ok None))"

definition git_log ::
  "Os \<Rightarrow> Libgit \<Rightarrow> path \<Rightarrow> GitLogParams \<Rightarrow> ToolMetrics \<Rightarrow> GitLogResult rpc \<times> ToolMetrics" where
  "git_log os lg root params m =
     (case res_bind (open_repo os lg root (glp_repo params)) (\<lambda>(rr, repo).
           res_bind (map_err (-32040) ''revwalk: '' (rp_revwalk repo)) (\<lambda>_.
           res_bind (log_start repo (glp_revision params)) (\<lambda>from.
             log_loop lg repo (glp_path params) (or_default GIT_LOG_DEFAULT (glp_max_count params))
               (rp_walk repo from) []))) of
        Err e \<Rightarrow> (Err e, m)
      | Panic p \<Rightarrow> (Panic p, m)
      | Ok commits \<Rightarrow>
          let result = \<lparr>glr_commits = commits\<rparr>; raw_bytes = lg_log_size lg result
          in (Ok result, metrics_record (Bytes GIT_LOG raw_bytes raw_bytes) m))"

definition git_history ::
  "Os \<Rightarrow> Libgit \<Rightarrow> path \<Rightarrow> GitHistoryParams \<Rightarrow> ToolMetrics \<Rightarrow> GitHistoryResult rpc \<times> ToolMetrics" where
  "git_history os lg root params m =
     and_then (git_log os lg root \<lparr>glp_repo = ghp_repo params, glp_max_count = ghp_max_count params,
                 glp_revision = None, glp_path = Some (ghp_path params)\<rparr> m) (\<lambda>log m.
       let result = \<lparr>ghr_path = ghp_path params, ghr_commits = glr_commits log\<rparr>;
           raw_bytes = lg_history_size lg result
       in (Ok result, metrics_record (Bytes GIT_HISTORY raw_bytes raw_bytes) m))"

subsection \<open>git.diff\<close>

definition tree_of :: "Repository \<Rightarrow> string \<Rightarrow> string rpc" where
  "tree_of repo revn =
     res_bind (map_err (-32041) (''revparse '' @ revn @ '': '') (rp_revparse repo revn)) (\<lambda>oid.
       map_err (-32046) ''peel to tree: '' (rp_peel repo oid))"

definition diff_line :: "DiffLine \<Rightarrow> string" where
  "diff_line l =
     (if df_origin l \<in> {CHR ''+'', CHR ''-'', CHR '' ''} then [df_origin l] else []) @
     (if valid_utf8 (df_content l) then df_content l else [])"

definition git_diff ::
  "Os \<Rightarrow> Libgit \<Rightarrow> path \<Rightarrow> GitDiffParams \<Rightarrow> ToolMetrics \<Rightarrow> GitDiffResult rpc \<times> ToolMetrics" where
  "git_diff os lg root params m =
     (case res_bind (open_repo os lg root (gdp_repo params)) (\<lambda>(rr, repo).
           let base_rev = or_default ''HEAD'' (gdp_base params)
           in res_bind (tree_of repo base_rev) (\<lambda>base.
              res_bind (case gdp_target params of
                          Some target_rev \<Rightarrow>
                            res_bind (tree_of repo target_rev) (\<lambda>target.
                              map_err (-32047) ''diff: '' (rp_diff_trees repo base target (gdp_path params)))
                        | None \<Rightarrow> map_err (-32047) ''diff: '' (rp_diff_workdir repo base (gdp_path params)))
                (\<lambda>ls. case rp_print_fault repo of
                   Some e \<Rightarrow> Err (rpc_error (-32048) (''print diff: '' @ e))
                 | None \<Rightarrow> Ok (concat (map diff_line ls))))) of
        Err e \<Rightarrow> (Err e, m)
      | Panic p \<Rightarrow> (Panic p, m)
      | Ok text \<Rightarrow>
          let result = \<lparr>gdr_diff = text\<rparr>; raw_bytes = lg_diff_size lg result
          in (Ok result, metrics_record (Bytes GIT_DIFF raw_bytes raw_bytes) m))"

subsection \<open>git.blame\<close>

definition blame_span :: "Repository \<Rightarrow> BlameHunk \<Rightarrow> GitBlameSpan" where
  "blame_span repo h =
     (let commit = (case rp_commit repo (bh_commit h) of Ok c \<Rightarrow> Some c | _ \<Rightarrow> None);
          start = u32_of (bh_start h);
          ls = u32_of (bh_lines h)
      in \<lparr>gbs_start_line = start, gbs_end_line = start + (ls - 1), gbs_lines = ls, gbs_sha = bh_commit h,
          gbs_author = or_default ''unknown'' (case commit of Some c \<Rightarrow> cm_author c | None \<Rightarrow> None),
          gbs_summary = or_default [] (case commit of Some c \<Rightarrow> cm_summary c | None \<Rightarrow> None)\<rparr>)"

definition git_blame ::
  "Os \<Rightarrow> Libgit \<Rightarrow> path \<Rightarrow> GitBlameParams \<Rightarrow> ToolMetrics \<Rightarrow> GitBlameResult rpc \<times> ToolMetrics" where
  "git_blame os lg root params m =
     (case res_bind (open_repo os lg root (gbp_repo params)) (\<lambda>(rr, repo).
           let workdir = or_default rr (rp_workdir repo)
           in res_bind (resolve_within os root (gbp_path params)) (\<lambda>abs_path.
              res_bind (if prefix workdir abs_path then Ok (drop (length workdir) abs_path)
                        else Err (rpc_error (-32049) ''path is outside repository workdir'')) (\<lambda>repo_path.
              res_bind (map_err (-32050) ''blame: '' (rp_blame repo repo_path)) (\<lambda>hunks.
                Ok \<lparr>gbr_path = gbp_path params, gbr_spans = map (blame_span repo) hunks\<rparr>)))) of
        Err e \<Rightarrow> (Err e, m)
      | Panic p \<Rightarrow> (Panic p, m)
      | Ok result \<Rightarrow>
          let raw_bytes = lg_blame_size lg result
          in (Ok result, metrics_record (Bytes GIT_BLAME raw_bytes raw_bytes) m))"

subsection \<open>Specification\<close>

text \<open>The commits of a walk that touch the path, and the walks without errors.\<close>

definition commit_of :: "Libgit \<Rightarrow> Repository \<Rightarrow> string option \<Rightarrow> (string, string) res \<Rightarrow> GitCommit option" where
  "commit_of lg repo path x =
     (case x of
        Ok oid \<Rightarrow>
          (case rp_commit repo oid of
             Ok c \<Rightarrow> (if touched path c = Ok True then Some (git_commit lg oid c) else None)
           | _ \<Rightarrow> None)
      | _ \<Rightarrow> None)"

definition walkable :: "Repository \<Rightarrow> string option \<Rightarrow> (string, string) res \<Rightarrow> bool" where
  "walkable repo path x \<longleftrightarrow>
     (case x of
        Ok oid \<Rightarrow> (case rp_commit repo oid of Ok c \<Rightarrow> touched path c \<in> {Ok True, Ok False} | _ \<Rightarrow> False)
      | _ \<Rightarrow> False)"

lemma log_loop_takes:
  assumes "\<forall>x \<in> set xs. walkable repo path x" "length commits < max mx 1"
  shows "log_loop lg repo path mx xs commits =
    Ok (take (max mx 1) (commits @ List.map_filter (commit_of lg repo path) xs))"
  using assms
proof (induction xs arbitrary: commits)
  case Nil
  then show ?case by (simp add: List.map_filter_simps)
next
  case (Cons x xs)
  from Cons.prems(1) obtain oid c where x: "x = Ok oid" "rp_commit repo oid = Ok c"
    by (auto simp: walkable_def split: res.splits)
  with Cons.prems(1) consider "touched path c = Ok True" | "touched path c = Ok False"
    by (auto simp: walkable_def)
  then show ?case
  proof cases
    case 1
    then have co: "commit_of lg repo path x = Some (git_commit lg oid c)" using x by (simp add: commit_of_def)
    show ?thesis
    proof (cases "mx \<le> length (commits @ [git_commit lg oid c])")
      case True
      then have "max mx 1 = Suc (length commits)" using Cons.prems(2) by (auto simp: max_def split: if_splits)
      then show ?thesis using 1 x co True by (simp add: map_err_def List.map_filter_simps Let_def)
    next
      case False
      then show ?thesis
        using Cons.IH [of "commits @ [git_commit lg oid c]"] Cons.prems 1 x co
        by (simp add: map_err_def List.map_filter_simps Let_def)
    qed
  next
    case 2
    then have "commit_of lg repo path x = None" using x by (simp add: commit_of_def)
    then show ?thesis using Cons 2 x by (simp add: map_err_def List.map_filter_simps)
  qed
qed

text \<open>Blame hunks one after the other from line \<open>k\<close>, and spans that tile the lines.\<close>

fun hunks_from :: "nat \<Rightarrow> BlameHunk list \<Rightarrow> bool" where
  "hunks_from k [] \<longleftrightarrow> True"
| "hunks_from k (h # hs) \<longleftrightarrow> bh_start h = k \<and> 0 < bh_lines h \<and> hunks_from (k + bh_lines h) hs"

definition blamed_lines :: "GitBlameSpan list \<Rightarrow> nat list" where
  "blamed_lines spans = concat (map (\<lambda>s. [gbs_start_line s..<Suc (gbs_end_line s)]) spans)"

lemma blame_tiles:
  "hunks_from k hs \<Longrightarrow> k + sum_list (map bh_lines hs) < 2 ^ 32 \<Longrightarrow>
     blamed_lines (map (blame_span repo) hs) = [k..<k + sum_list (map bh_lines hs)]"
proof (induction hs arbitrary: k)
  case Nil
  then show ?case by (simp add: blamed_lines_def)
next
  case (Cons h hs)
  have h: "bh_start h = k" "0 < bh_lines h" using Cons.prems(1) by simp_all
  have "blamed_lines (map (blame_span repo) hs) = [k + bh_lines h..<k + bh_lines h + sum_list (map bh_lines hs)]"
    using Cons.IH [of "k + bh_lines h"] Cons.prems by (simp add: add.assoc)
  moreover have "[gbs_start_line (blame_span repo h)..<Suc (gbs_end_line (blame_span repo h))] = [k..<k + bh_lines h]"
    using h Cons.prems(2) by (simp add: blame_span_def Let_def)
  moreover have "[k..<k + bh_lines h + n] = [k..<k + bh_lines h] @ [k + bh_lines h..<k + bh_lines h + n]" for n
    by (rule upt_add_eq_append) simp
  ultimately show ?case by (simp add: blamed_lines_def add.assoc)
qed

subsection \<open>Properties\<close>

text \<open>C27. \<open>git.log\<close> on a walk without errors returns the first commits of the walk that touch the
  path, as many as asked for, but never fewer than one: a limit of 0 gives one commit.\<close>

theorem git_log_first_commits:
  assumes "open_repo os lg root (glp_repo params) = Ok (rr, repo)" "rp_revwalk repo = Ok ()"
    and "log_start repo (glp_revision params) = Ok from"
    and "\<forall>x \<in> set (rp_walk repo from). walkable repo (glp_path params) x"
    and "mx = or_default GIT_LOG_DEFAULT (glp_max_count params)"
  shows "fst (git_log os lg root params m) =
    Ok \<lparr>glr_commits = take (max mx 1) (List.map_filter (commit_of lg repo (glp_path params)) (rp_walk repo from))\<rparr>"
  using assms log_loop_takes [OF assms(4), of "[]" mx lg]
  by (simp add: git_log_def map_err_def Let_def)

definition demo_commit :: Commit where
  "demo_commit = \<lparr>cm_author = None, cm_seconds = 0, cm_summary = Some ''s'', cm_parent_deltas = None,
     cm_tree_has = Ok (\<lambda>_. True)\<rparr>"

definition demo_repo :: Repository where
  "demo_repo = \<lparr>rp_head = None, rp_statuses = Ok [], rp_workdir = Some [''r''], rp_revwalk = Ok (),
     rp_revparse = (\<lambda>_. Ok ''t''), rp_push = (\<lambda>_. Ok ()), rp_push_head = Ok (), rp_walk = (\<lambda>_. [Ok ''a'', Ok ''b'']),
     rp_commit = (\<lambda>_. Ok demo_commit), rp_peel = (\<lambda>o'. Ok o'), rp_diff_trees = (\<lambda>_ _ _. Ok []),
     rp_diff_workdir = (\<lambda>_ _. Ok []), rp_print_fault = None,
     rp_blame = (\<lambda>_. Ok [\<lparr>bh_commit = ''a'', bh_start = 1, bh_lines = 2\<rparr>, \<lparr>bh_commit = ''b'', bh_start = 3, bh_lines = 1\<rparr>])\<rparr>"

definition demo_git :: Libgit where
  "demo_git = \<lparr>lg_discover = (\<lambda>_. Ok demo_repo), lg_rfc3339 = (\<lambda>_. None), lg_status_size = (\<lambda>_. 1),
     lg_log_size = (\<lambda>_. 1), lg_diff_size = (\<lambda>_. 1), lg_blame_size = (\<lambda>_. 1), lg_history_size = (\<lambda>_. 1)\<rparr>"

lemma demo_open: "open_repo demo_os demo_git [''r''] None = Ok ([''r''], demo_repo)"
  by (simp add: open_repo_def repo_root_def demo_git_def map_err_def)

theorem git_log_first_commits_witness:
  "\<exists>c. fst (git_log demo_os demo_git [''r'']
      \<lparr>glp_repo = None, glp_max_count = Some 0, glp_revision = None, glp_path = None\<rparr> []) = Ok \<lparr>glr_commits = [c]\<rparr>"
proof -
  let ?p = "\<lparr>glp_repo = None, glp_max_count = Some 0, glp_revision = None, glp_path = None\<rparr>"
  have o: "open_repo demo_os demo_git [''r''] (glp_repo ?p) = Ok ([''r''], demo_repo)" by (simp add: demo_open)
  have w: "rp_revwalk demo_repo = Ok ()" by (simp add: demo_repo_def)
  have s: "log_start demo_repo (glp_revision ?p) = Ok None"
    by (simp add: log_start_def demo_repo_def map_err_def)
  have a: "\<forall>x \<in> set (rp_walk demo_repo None). walkable demo_repo (glp_path ?p) x"
    by (simp add: demo_repo_def walkable_def touched_def)
  from git_log_first_commits [OF o w s a refl, of "[]"] show ?thesis
    by (simp add: or_default_def demo_repo_def commit_of_def touched_def List.map_filter_simps)
qed

text \<open>\<open>git.history\<close> is \<open>git.log\<close> of the path from the head, and counts as a call of both in the
  metrics.\<close>

theorem git_history_is_log:
  assumes "git_log os lg root \<lparr>glp_repo = ghp_repo params, glp_max_count = ghp_max_count params,
             glp_revision = None, glp_path = Some (ghp_path params)\<rparr> m = (Ok log, m1)"
    and "git_history os lg root params m = (r, m2)"
  shows "r = Ok \<lparr>ghr_path = ghp_path params, ghr_commits = glr_commits log\<rparr> \<and>
         (\<exists>a b. m2 = metrics_record (Bytes GIT_HISTORY a a) (metrics_record (Bytes GIT_LOG b b) m))"
proof -
  have "\<exists>b. m1 = metrics_record (Bytes GIT_LOG b b) m"
    using assms(1) by (auto simp: git_log_def Let_def split: res.splits)
  then show ?thesis using assms by (auto simp: git_history_def and_then_def Let_def)
qed

text \<open>Blame: when the hunks follow one another from line 1, the spans name every line of the file
  exactly once, in order.\<close>

theorem blame_spans_tile_file:
  assumes "git_blame os lg root params m = (Ok res, m')"
    and "open_repo os lg root (gbp_repo params) = Ok (rr, repo)"
    and "resolve_within os root (gbp_path params) = Ok p" "workdir = or_default rr (rp_workdir repo)"
    and "rp_blame repo (drop (length workdir) p) = Ok hunks" "hunks_from 1 hunks"
    and "Suc (sum_list (map bh_lines hunks)) < 2 ^ 32"
  shows "prefix workdir p \<and> blamed_lines (gbr_spans res) = [1..<Suc (sum_list (map bh_lines hunks))]"
  using assms blame_tiles [OF assms(6), of repo]
  by (auto simp: git_blame_def Let_def map_err_def split: if_splits)

theorem blame_spans_tile_file_witness:
  "\<exists>res m. git_blame demo_os demo_git [''r''] \<lparr>gbp_repo = None, gbp_path = ''a''\<rparr> [] = (Ok res, m) \<and>
     blamed_lines (gbr_spans res) = [1, 2, 3]"
proof -
  let ?p = "\<lparr>gbp_repo = None, gbp_path = ''a''\<rparr>"
  have o: "open_repo demo_os demo_git [''r''] (gbp_repo ?p) = Ok ([''r''], demo_repo)" by (simp add: demo_open)
  have p: "resolve_within demo_os [''r''] (gbp_path ?p) = Ok [''r'', ''a'']" by (simp add: demo_resolve)
  obtain res m where r: "git_blame demo_os demo_git [''r''] ?p [] = (Ok res, m)"
    using o p by (simp add: git_blame_def demo_repo_def or_default_def map_err_def Let_def)
  have b: "rp_blame demo_repo (drop (length (or_default [''r''] (rp_workdir demo_repo))) [''r'', ''a'']) =
      Ok [\<lparr>bh_commit = ''a'', bh_start = 1, bh_lines = 2\<rparr>, \<lparr>bh_commit = ''b'', bh_start = 3, bh_lines = 1\<rparr>]"
    by (simp add: demo_repo_def)
  from blame_spans_tile_file [OF r o p refl b] have "blamed_lines (gbr_spans res) = [1, 2, 3]"
    by (simp add: upt_rec)
  with r show ?thesis by blast
qed

end
