(* ===== verification/Bridge.thy ===== *)
theory Bridge
  imports Framing Protocol Languages Paths
begin

text \<open>
  The bridge's client of the daemon, \<^verbatim>\<open>src/crates/mcp-bridge/src/daemon_client.rs\<close>, and the part
  of \<^verbatim>\<open>src/crates/mcp-bridge/src/spawn.rs\<close> that waits for a daemon it has started.

  Sockets, the clock and the starting of the daemon process are operations on a world \<open>'w\<close>,
  collected in a record \<open>Net\<close>. The encoding of requests and the decoding of responses are
  parameters. The wait loop has fuel, one unit per connection attempt; enough fuel is shown
  to suffice.
\<close>

subsection \<open>The outside\<close>

text \<open>\<open>net_exe_dir\<close> is the directory of the running executable, where that is known,
  \<open>net_err_str\<close> the system's text for an error.\<close>

record 'w Net =
  net_connect :: "string \<Rightarrow> 'w \<Rightarrow> (nat, error_kind) res \<times> 'w"
  net_write :: "nat \<Rightarrow> string \<Rightarrow> 'w \<Rightarrow> (unit, error_kind) res \<times> 'w"
  net_flush :: "nat \<Rightarrow> 'w \<Rightarrow> (unit, error_kind) res \<times> 'w"
  net_read :: "nat \<Rightarrow> nat \<Rightarrow> 'w \<Rightarrow> (string, error_kind) res \<times> 'w"
  net_exe_dir :: "'w \<Rightarrow> string option"
  net_exists :: "string \<Rightarrow> 'w \<Rightarrow> bool"
  net_ensure_socket_parent :: "string \<Rightarrow> 'w \<Rightarrow> (unit, error_kind) res \<times> 'w"
  net_open_append :: "string \<Rightarrow> 'w \<Rightarrow> (nat, error_kind) res \<times> 'w"
  net_try_clone :: "nat \<Rightarrow> 'w \<Rightarrow> (nat, error_kind) res \<times> 'w"
  net_spawn :: "string \<Rightarrow> string list \<Rightarrow> nat \<Rightarrow> nat \<Rightarrow> 'w \<Rightarrow> (unit, error_kind) res \<times> 'w"
  net_now :: "'w \<Rightarrow> nat"
  net_sleep :: "nat \<Rightarrow> 'w \<Rightarrow> 'w"
  net_err_str :: "error_kind \<Rightarrow> string"

record ConnectConfig =
  cc_socket :: string
  cc_root :: string
  cc_daemon_bin :: "string option"
  cc_autospawn :: bool
  cc_daemon_extra_args :: "string list"

text \<open>Sequencing of fallible operations on the world, with the question mark operator and
  \<open>with_context\<close>.\<close>

definition io :: "('a, error_kind) res \<times> 'w \<Rightarrow> ('a, any_error) res \<times> 'w" where
  "io x = (case fst x of Ok a \<Rightarrow> Ok a | Err k \<Rightarrow> Err (IoError k) | Panic m \<Rightarrow> Panic m, snd x)"

definition with_context :: "string \<Rightarrow> ('a, any_error) res \<times> 'w \<Rightarrow> ('a, any_error) res \<times> 'w" where
  "with_context c x =
     (case fst x of Ok a \<Rightarrow> Ok a | Err e \<Rightarrow> Err (WithContext c e) | Panic m \<Rightarrow> Panic m, snd x)"

definition io_then ::
  "('a, any_error) res \<times> 'w \<Rightarrow> ('a \<Rightarrow> 'w \<Rightarrow> ('b, any_error) res \<times> 'w) \<Rightarrow> ('b, any_error) res \<times> 'w" where
  "io_then x f = (case x of (Ok a, w) \<Rightarrow> f a w | (Err e, w) \<Rightarrow> (Err e, w) | (Panic m, w) \<Rightarrow> (Panic m, w))"

subsection \<open>Starting a daemon\<close>

text \<open>The build for Unix; the Windows build adds \<open>.exe\<close>.\<close>

definition bin_name :: "string \<Rightarrow> string" where
  "bin_name stem = stem"

definition resolve_daemon_bin :: "'w Net \<Rightarrow> string option \<Rightarrow> 'w \<Rightarrow> string" where
  "resolve_daemon_bin net explicit w =
     (case explicit of
        Some p \<Rightarrow> p
      | None \<Rightarrow>
          (let fallback = bin_name ''mcp-cli-daemon''
           in case net_exe_dir net w of
                Some parent \<Rightarrow>
                  (let candidate = path_join parent (bin_name ''mcp-cli-daemon'')
                   in if net_exists net candidate w then candidate else fallback)
              | None \<Rightarrow> fallback))"

text \<open>\<open>Path::set_extension\<close>: cut after the stem of the file name, add the extension.\<close>

fun trim_path :: "string \<Rightarrow> string" where
  "trim_path (c # d # p) =
     (if c = CHR ''/'' then trim_path (d # p)
      else if c = CHR ''.'' \<and> d = CHR ''/'' then trim_path p
      else c # d # p)"
| "trim_path p = p"

definition set_extension :: "string \<Rightarrow> string \<Rightarrow> string" where
  "set_extension p ext =
     (case path_file_name p of
        None \<Rightarrow> p
      | Some f \<Rightarrow>
          (let p1 = rev (trim_path (rev p));
               p2 = (case path_extension p of None \<Rightarrow> p1 | Some e \<Rightarrow> take (length p1 - length e - 1) p1)
           in if ext = [] then p2 else p2 @ ''.'' @ ext))"

definition daemon_log_path :: "string \<Rightarrow> string" where
  "daemon_log_path socket = set_extension socket ''log''"

definition spawn_detached ::
  "'w Net \<Rightarrow> string \<Rightarrow> string \<Rightarrow> string \<Rightarrow> string \<Rightarrow> string list \<Rightarrow> 'w \<Rightarrow> (unit, any_error) res \<times> 'w" where
  "spawn_detached net daemon root socket logp extra_args w =
     io_then (with_context (''creating socket parent dir for '' @ from_utf8_lossy socket @ '' (check filesystem permissions)'')
                (io (net_ensure_socket_parent net socket w))) (\<lambda>_ w.
     io_then (with_context (''opening daemon log '' @ from_utf8_lossy logp) (io (net_open_append net logp w))) (\<lambda>out w.
     io_then (with_context ''cloning log fd for stderr'' (io (net_try_clone net out w))) (\<lambda>err w.
     with_context (''spawning daemon '' @ from_utf8_lossy daemon)
       (io (net_spawn net daemon ([''--root'', root, ''--socket'', socket] @ extra_args) out err w)))))"

subsection \<open>Connecting\<close>

text \<open>Durations are in milliseconds.\<close>

definition CONNECT_BUDGET :: nat where "CONNECT_BUDGET = 2000"
definition INITIAL_BACKOFF :: nat where "INITIAL_BACKOFF = 25"
definition MAX_BACKOFF :: nat where "MAX_BACKOFF = 320"

definition is_connect_retryable :: "error_kind \<Rightarrow> bool" where
  "is_connect_retryable k \<longleftrightarrow> k \<in> {NotFound, ConnectionRefused}"

text \<open>\<open>Debug\<close> of a duration of whole milliseconds.\<close>

definition frac_digits :: "nat \<Rightarrow> string" where
  "frac_digits n =
     (let ds = rev (dropWhile (\<lambda>c. c = CHR ''0'') (rev (tl (dec_of_nat (1000 + n mod 1000)))))
      in if ds = [] then [] else ''.'' @ ds)"

definition duration_debug :: "nat \<Rightarrow> string" where
  "duration_debug ms =
     (if 1000 \<le> ms then dec_of_nat (ms div 1000) @ frac_digits ms @ ''s''
      else if 0 < ms then dec_of_nat ms @ ''ms''
      else ''0ns'')"

text \<open>The loop of \<open>retry_connect\<close>; \<open>None\<close> is fuel exhausted.\<close>

fun retry_loop ::
  "'w Net \<Rightarrow> string \<Rightarrow> nat \<Rightarrow> nat \<Rightarrow> nat \<Rightarrow> nat \<Rightarrow> 'w \<Rightarrow> ((nat, any_error) res \<times> 'w) option" where
  "retry_loop net socket budget deadline 0 backoff w = None"
| "retry_loop net socket budget deadline (Suc fuel) backoff w =
     (case net_connect net socket w of
        (Ok s, w1) \<Rightarrow> Some (Ok s, w1)
      | (Panic m, w1) \<Rightarrow> Some (Panic m, w1)
      | (Err k, w1) \<Rightarrow>
          if \<not> is_connect_retryable k
          then Some (Err (WithContext (''connect '' @ from_utf8_lossy socket @ '' (non-retryable)'') (IoError k)), w1)
          else if deadline \<le> net_now net w1
          then Some (Err (Msg (''daemon did not accept connections within '' @ duration_debug budget @
                               '': '' @ net_err_str net k)), w1)
          else retry_loop net socket budget deadline fuel (min (backoff * 2) MAX_BACKOFF)
                 (net_sleep net backoff w1))"

definition retry_connect ::
  "'w Net \<Rightarrow> nat \<Rightarrow> string \<Rightarrow> nat \<Rightarrow> 'w \<Rightarrow> ((nat, any_error) res \<times> 'w) option" where
  "retry_connect net fuel socket budget w =
     retry_loop net socket budget (net_now net w + budget) fuel INITIAL_BACKOFF w"

definition spawn_and_connect ::
  "'w Net \<Rightarrow> nat \<Rightarrow> ConnectConfig \<Rightarrow> 'w \<Rightarrow> ((nat, any_error) res \<times> 'w) option" where
  "spawn_and_connect net fuel cfg w =
     (let daemon = resolve_daemon_bin net (cc_daemon_bin cfg) w;
          log_path = daemon_log_path (cc_socket cfg)
      in case with_context (''spawning '' @ from_utf8_lossy daemon)
                (spawn_detached net daemon (cc_root cfg) (cc_socket cfg) log_path (cc_daemon_extra_args cfg) w) of
           (Err e, w1) \<Rightarrow> Some (Err e, w1)
         | (Panic m, w1) \<Rightarrow> Some (Panic m, w1)
         | (Ok _, w1) \<Rightarrow> retry_connect net fuel (cc_socket cfg) CONNECT_BUDGET w1)"

definition connect_with_autospawn ::
  "'w Net \<Rightarrow> nat \<Rightarrow> ConnectConfig \<Rightarrow> 'w \<Rightarrow> ((nat, any_error) res \<times> 'w) option" where
  "connect_with_autospawn net fuel cfg w =
     (case net_connect net (cc_socket cfg) w of
        (Ok s, w1) \<Rightarrow> Some (Ok s, w1)
      | (Panic m, w1) \<Rightarrow> Some (Panic m, w1)
      | (Err k, w1) \<Rightarrow>
          if cc_autospawn cfg \<and> is_connect_retryable k then spawn_and_connect net fuel cfg w1
          else Some (Err (WithContext (''connect '' @ from_utf8_lossy (cc_socket cfg)) (IoError k)), w1))"

subsection \<open>Calls\<close>

record DaemonClient =
  dc_stream :: "nat option"
  dc_next_id :: nat
  dc_config :: ConnectConfig

definition dc_connect ::
  "'w Net \<Rightarrow> nat \<Rightarrow> ConnectConfig \<Rightarrow> 'w \<Rightarrow> ((DaemonClient, any_error) res \<times> 'w) option" where
  "dc_connect net fuel cfg w =
     (case connect_with_autospawn net fuel cfg w of
        None \<Rightarrow> None
      | Some (Ok stream, w1) \<Rightarrow> Some (Ok \<lparr>dc_stream = Some stream, dc_next_id = 1, dc_config = cfg\<rparr>, w1)
      | Some (Err e, w1) \<Rightarrow> Some (Err e, w1)
      | Some (Panic m, w1) \<Rightarrow> Some (Panic m, w1))"

record Codec =
  cd_request :: "Request \<Rightarrow> (string, string) res"
  cd_response :: "string \<Rightarrow> (Response, string) res"

text \<open>Sending a request over a stream and reading its response.\<close>

definition exchange ::
  "'w Net \<Rightarrow> Codec \<Rightarrow> nat \<Rightarrow> 32 word \<Rightarrow> string \<Rightarrow> 'w \<Rightarrow> (json, any_error) res \<times> 'w" where
  "exchange net cd stream len payload w =
     io_then (io (net_write net stream (to_be_bytes len) w)) (\<lambda>_ w.
     io_then (io (net_write net stream payload w)) (\<lambda>_ w.
     io_then (io (net_flush net stream w)) (\<lambda>_ w.
     io_then (io (net_read net stream 4 w)) (\<lambda>len_buf w.
       let resp_len = from_be_bytes len_buf
       in if resp_len > MAX_FRAME
          then (Err (Msg (''response too large: '' @ dec_of_nat (unat resp_len))), w)
          else
     io_then (io (net_read net stream (unat resp_len) w)) (\<lambda>buf w.
       case cd_response cd buf of
         Err e \<Rightarrow> (Err (Msg e), w)
       | Panic m \<Rightarrow> (Panic m, w)
       | Ok resp \<Rightarrow>
           (case resp_error resp of
              Some err \<Rightarrow>
                (Err (Msg (''daemon error '' @ (if err_code err < 0 then ''-'' else []) @
                           dec_of_nat (nat \<bar>err_code err\<bar>) @ '': '' @ err_message err)), w)
            | None \<Rightarrow> (Ok (case resp_result resp of Some v \<Rightarrow> v | None \<Rightarrow> JNull), w)))))))"

definition try_call ::
  "'w Net \<Rightarrow> Codec \<Rightarrow> nat \<Rightarrow> string \<Rightarrow> json \<Rightarrow> DaemonClient \<times> 'w \<Rightarrow>
     ((json, any_error) res \<times> DaemonClient \<times> 'w) option" where
  "try_call net cd fuel meth params cw =
     (case cw of (c, w) \<Rightarrow>
      let req = \<lparr>req_id = dc_next_id c, req_method = meth, req_params = params\<rparr>;
          c1 = c\<lparr>dc_next_id := u64_add (dc_next_id c) 1\<rparr>
      in case cd_request cd req of
           Err e \<Rightarrow> Some (Err (Msg e), c1, w)
         | Panic m \<Rightarrow> Some (Panic m, c1, w)
         | Ok payload \<Rightarrow>
             (case u32_try_from (length payload) of
                None \<Rightarrow> Some (Err (Msg ''request too large''), c1, w)
              | Some len \<Rightarrow>
                  (case (case dc_stream c1 of
                           Some s \<Rightarrow> Some (Ok s, w)
                         | None \<Rightarrow> connect_with_autospawn net fuel (dc_config c1) w) of
                     None \<Rightarrow> None
                   | Some (Err e, w1) \<Rightarrow> Some (Err e, c1, w1)
                   | Some (Panic m, w1) \<Rightarrow> Some (Panic m, c1, w1)
                   | Some (Ok stream, w1) \<Rightarrow>
                       (case exchange net cd stream len payload w1 of
                          (r, w2) \<Rightarrow> Some (r, c1\<lparr>dc_stream := Some stream\<rparr>, w2)))))"

fun looks_like_disconnect :: "any_error \<Rightarrow> bool" where
  "looks_like_disconnect (IoError k) \<longleftrightarrow>
     k \<in> {BrokenPipe, UnexpectedEof, ConnectionReset, ConnectionAborted, NotConnected, NotFound, ConnectionRefused}"
| "looks_like_disconnect (Msg s) \<longleftrightarrow> False"
| "looks_like_disconnect (WithContext s e) \<longleftrightarrow> looks_like_disconnect e"

definition call ::
  "'w Net \<Rightarrow> Codec \<Rightarrow> nat \<Rightarrow> string \<Rightarrow> json \<Rightarrow> DaemonClient \<times> 'w \<Rightarrow>
     ((json, any_error) res \<times> DaemonClient \<times> 'w) option" where
  "call net cd fuel meth params cw =
     (case try_call net cd fuel meth params cw of
        None \<Rightarrow> None
      | Some (Err e, c1, w1) \<Rightarrow>
          if looks_like_disconnect e
          then try_call net cd fuel meth params (c1\<lparr>dc_stream := None\<rparr>, w1)
          else Some (Err e, c1, w1)
      | Some (r, c1, w1) \<Rightarrow> Some (r, c1, w1))"

subsection \<open>Lemmas\<close>

text \<open>A clock that sleeping moves on, at least by the time asked for, and that nothing turns back.\<close>

definition clock_ok :: "'w Net \<Rightarrow> bool" where
  "clock_ok net \<longleftrightarrow>
     (\<forall>d w. net_now net w + d \<le> net_now net (net_sleep net d w)) \<and>
     (\<forall>s w. net_now net w \<le> net_now net (snd (net_connect net s w)))"

text \<open>How many more attempts the loop can make when the deadline is \<open>left\<close> away.\<close>

function attempts :: "nat \<Rightarrow> nat \<Rightarrow> nat" where
  "attempts backoff left =
     (if left = 0 \<or> backoff = 0 then 1 else Suc (attempts (min (backoff * 2) MAX_BACKOFF) (left - backoff)))"
  by pat_completeness auto
termination by (relation "measure snd") auto

declare attempts.simps [simp del]

lemma attempts_step:
  "0 < left \<Longrightarrow> 0 < backoff \<Longrightarrow>
     attempts backoff left = Suc (attempts (min (backoff * 2) MAX_BACKOFF) (left - backoff))"
  by (subst attempts.simps) simp

lemma attempts_0: "attempts backoff 0 = 1"
  by (subst attempts.simps) simp

lemma attempts_pos: "0 < attempts backoff left"
  by (subst attempts.simps) simp

lemma attempts_mono: "left \<le> left' \<Longrightarrow> 0 < backoff \<Longrightarrow> attempts backoff left \<le> attempts backoff left'"
proof (induction backoff left' arbitrary: left rule: attempts.induct)
  case (1 backoff left')
  have b: "0 < min (backoff * 2) MAX_BACKOFF" using "1.prems"(2) by (simp add: MAX_BACKOFF_def)
  show ?case
  proof (cases "left = 0")
    case True
    then show ?thesis using attempts_pos [of backoff left'] by (simp add: attempts_0)
  next
    case False
    then have "attempts (min (backoff * 2) MAX_BACKOFF) (left - backoff) \<le>
               attempts (min (backoff * 2) MAX_BACKOFF) (left' - backoff)"
      using "1.IH" [of "left - backoff"] "1.prems" b False by simp
    then show ?thesis
      using False "1.prems" by (subst (1 2) attempts_step) simp_all
  qed
qed

lemma retry_loop_returns:
  assumes "clock_ok net" "0 < backoff" "attempts backoff (deadline - net_now net w) \<le> fuel"
  shows "retry_loop net socket budget deadline fuel backoff w \<noteq> None"
  using assms(2,3)
proof (induction fuel arbitrary: backoff w)
  case 0
  then show ?case using attempts_pos [of backoff "deadline - net_now net w"] by simp
next
  case (Suc fuel)
  obtain r w1 where c: "net_connect net socket w = (r, w1)" by (rule prod.exhaust)
  have w1: "net_now net w \<le> net_now net w1"
    using assms(1) c unfolding clock_ok_def by (metis snd_conv)
  show ?case
  proof (cases "\<exists>k. r = Err k \<and> is_connect_retryable k \<and> net_now net w1 < deadline")
    case True
    then obtain k where k: "r = Err k" "is_connect_retryable k" "net_now net w1 < deadline" by blast
    let ?b = "min (backoff * 2) MAX_BACKOFF" and ?w = "net_sleep net backoff w1"
    have b: "0 < ?b" using Suc.prems(1) by (simp add: MAX_BACKOFF_def)
    have "net_now net w1 + backoff \<le> net_now net ?w" using assms(1) by (simp add: clock_ok_def)
    then have le: "deadline - net_now net ?w \<le> deadline - net_now net w - backoff" using w1 by simp
    have "attempts backoff (deadline - net_now net w) =
        Suc (attempts ?b (deadline - net_now net w - backoff))"
      using attempts_step [of "deadline - net_now net w" backoff] k(3) w1 Suc.prems(1) by simp
    moreover have "attempts ?b (deadline - net_now net ?w) \<le> attempts ?b (deadline - net_now net w - backoff)"
      by (rule attempts_mono) (rule le, rule b)
    ultimately have "attempts ?b (deadline - net_now net ?w) \<le> fuel"
      using Suc.prems(2) by linarith
    then show ?thesis using Suc.IH [OF b] c k by simp
  next
    case False
    then show ?thesis using c by (cases r) auto
  qed
qed

lemma attempts_budget: "attempts INITIAL_BACKOFF CONNECT_BUDGET = 11"
  by (simp add: INITIAL_BACKOFF_def CONNECT_BUDGET_def attempts_step attempts_0 MAX_BACKOFF_def)

lemma retry_loop_more_fuel:
  "retry_loop net socket budget deadline fuel backoff w = Some x \<Longrightarrow> fuel \<le> fuel' \<Longrightarrow>
     retry_loop net socket budget deadline fuel' backoff w = Some x"
proof (induction fuel arbitrary: fuel' backoff w)
  case (Suc fuel)
  obtain n where n: "fuel' = Suc n" "fuel \<le> n" using Suc.prems(2) by (cases fuel') simp_all
  show ?case using Suc.prems(1) Suc.IH [OF _ n(2)] by (auto simp: n(1) split: prod.splits res.splits if_splits)
qed simp

text \<open>From 11 attempts on, fuel makes no difference.\<close>

definition settles :: "(nat \<Rightarrow> 'a option) \<Rightarrow> bool" where
  "settles f \<longleftrightarrow> (\<exists>x. \<forall>fuel \<ge> 11. f fuel = Some x)"

lemma settles_Some [simp]: "settles (\<lambda>_. Some x)"
  by (simp add: settles_def)

lemma settles_const: "x \<noteq> None \<Longrightarrow> settles (\<lambda>_. x)"
  by (auto simp: settles_def)

lemma settles_if: "settles f \<Longrightarrow> settles g \<Longrightarrow> settles (\<lambda>fuel. if b then f fuel else g fuel)"
  by (cases b) simp_all

lemma settles_case:
  assumes "settles f" "\<And>x. settles (\<lambda>fuel. g fuel x)"
  shows "settles (\<lambda>fuel. case f fuel of None \<Rightarrow> None | Some x \<Rightarrow> g fuel x)"
proof -
  obtain x where x: "\<forall>fuel \<ge> 11. f fuel = Some x" using assms(1) by (auto simp: settles_def)
  obtain y where "\<forall>fuel \<ge> 11. g fuel x = Some y" using assms(2) [of x] by (auto simp: settles_def)
  with x show ?thesis by (auto simp: settles_def)
qed

lemma retry_connect_settles:
  assumes "clock_ok net"
  shows "settles (\<lambda>fuel. retry_connect net fuel socket CONNECT_BUDGET w)"
proof -
  have "retry_loop net socket CONNECT_BUDGET (net_now net w + CONNECT_BUDGET) 11 INITIAL_BACKOFF w \<noteq> None"
    by (rule retry_loop_returns [OF assms]) (simp_all add: attempts_budget, simp add: INITIAL_BACKOFF_def)
  then show ?thesis unfolding retry_connect_def settles_def by (blast intro: retry_loop_more_fuel)
qed

lemma connect_settles:
  assumes "clock_ok net"
  shows "settles (\<lambda>fuel. connect_with_autospawn net fuel cfg w)"
proof -
  have sp: "settles (\<lambda>fuel. spawn_and_connect net fuel cfg v)" for v
  proof -
    obtain r v1 where "with_context (''spawning '' @ from_utf8_lossy (resolve_daemon_bin net (cc_daemon_bin cfg) v))
        (spawn_detached net (resolve_daemon_bin net (cc_daemon_bin cfg) v) (cc_root cfg) (cc_socket cfg)
           (daemon_log_path (cc_socket cfg)) (cc_daemon_extra_args cfg) v) = (r, v1)"
      by (rule prod.exhaust)
    then show ?thesis
      using retry_connect_settles [OF assms] by (cases r) (simp_all add: spawn_and_connect_def Let_def)
  qed
  obtain r w1 where "net_connect net (cc_socket cfg) w = (r, w1)" by (rule prod.exhaust)
  then show ?thesis
    using sp by (cases r) (simp_all add: connect_with_autospawn_def settles_if)
qed

lemma try_call_settles:
  assumes "clock_ok net"
  shows "settles (\<lambda>fuel. try_call net cd fuel meth params cw)"
proof -
  obtain c w where cw: "cw = (c, w)" by (rule prod.exhaust)
  define c1 where "c1 = c\<lparr>dc_next_id := u64_add (dc_next_id c) 1\<rparr>"
  have st: "settles (\<lambda>fuel. case dc_stream c1 of Some s \<Rightarrow> Some (Ok s, w)
                     | None \<Rightarrow> connect_with_autospawn net fuel (dc_config c1) w)"
    using connect_settles [OF assms] by (cases "dc_stream c1") simp_all
  show ?thesis
    unfolding try_call_def cw Let_def prod.case c1_def [symmetric]
    by (cases "cd_request cd \<lparr>req_id = dc_next_id c, req_method = meth, req_params = params\<rparr>";
        cases "u32_try_from (length (case cd_request cd \<lparr>req_id = dc_next_id c, req_method = meth, req_params = params\<rparr>
                                      of Ok p \<Rightarrow> p | _ \<Rightarrow> []))")
      (auto intro!: settles_case st settles_const split: prod.splits res.splits)
qed

lemma call_settles:
  assumes "clock_ok net"
  shows "settles (\<lambda>fuel. call net cd fuel meth params cw)"
proof -
  have retry: "settles (\<lambda>fuel. case r of Ok a \<Rightarrow> Some (Ok a, c, v)
        | Err e \<Rightarrow> if looks_like_disconnect e then try_call net cd fuel meth params (c\<lparr>dc_stream := None\<rparr>, v)
                  else Some (Err e, c, v)
        | Panic m \<Rightarrow> Some (Panic m, c, v))" for r c v
    by (cases r) (simp_all add: settles_if try_call_settles [OF assms])
  show ?thesis
    unfolding call_def by (rule settles_case [OF try_call_settles [OF assms]]) (auto simp: retry split: prod.splits)
qed

lemma dc_connect_settles:
  assumes "clock_ok net"
  shows "settles (\<lambda>fuel. dc_connect net fuel cfg w)"
  unfolding dc_connect_def
  by (rule settles_case [OF connect_settles [OF assms]]) (auto intro: settles_const split: prod.splits res.splits)

subsection \<open>A daemon at the other end\<close>

text \<open>A link to a daemon that answers each frame with \<open>serve\<close>: bytes on their way to it, bytes
  on their way back, the frames it has served, and how many answers will be lost because the
  connection breaks after the frame was served.\<close>

record link =
  lk_in :: string
  lk_out :: string
  lk_served :: "string list"
  lk_drops :: nat

definition lk_serve :: "(string \<Rightarrow> string) \<Rightarrow> link \<Rightarrow> link" where
  "lk_serve serve w =
     (case daemon_unframe (lk_in w) of
        None \<Rightarrow> w
      | Some (p, rest) \<Rightarrow>
          (let w1 = w\<lparr>lk_in := rest, lk_served := lk_served w @ [p]\<rparr>
           in if lk_drops w = 0
              then w1\<lparr>lk_out := lk_out w @ (case wire write_frame (serve p) of Some b \<Rightarrow> b | None \<Rightarrow> [])\<rparr>
              else w1\<lparr>lk_drops := lk_drops w - 1\<rparr>))"

definition link_net :: "(string \<Rightarrow> string) \<Rightarrow> link Net" where
  "link_net serve =
     \<lparr>net_connect = (\<lambda>_ w. (Ok 0, w\<lparr>lk_in := [], lk_out := []\<rparr>)),
      net_write = (\<lambda>_ b w. (Ok (), w\<lparr>lk_in := lk_in w @ b\<rparr>)),
      net_flush = (\<lambda>_ w. (Ok (), lk_serve serve w)),
      net_read = (\<lambda>_ n w.
        if n \<le> length (lk_out w) then (Ok (take n (lk_out w)), w\<lparr>lk_out := drop n (lk_out w)\<rparr>)
        else (Err UnexpectedEof, w\<lparr>lk_out := []\<rparr>)),
      net_exe_dir = (\<lambda>_. None),
      net_exists = (\<lambda>_ _. False),
      net_ensure_socket_parent = (\<lambda>_ w. (Ok (), w)),
      net_open_append = (\<lambda>_ w. (Ok 1, w)),
      net_try_clone = (\<lambda>_ w. (Ok 2, w)),
      net_spawn = (\<lambda>_ _ _ _ w. (Ok (), w)),
      net_now = (\<lambda>_. 0),
      net_sleep = (\<lambda>_ w. w),
      net_err_str = (\<lambda>_. [])\<rparr>"

definition idle_link :: "string list \<Rightarrow> nat \<Rightarrow> link" where
  "idle_link served drops = \<lparr>lk_in = [], lk_out = [], lk_served = served, lk_drops = drops\<rparr>"

text \<open>What the client makes of a response.\<close>

definition result_of :: "Response \<Rightarrow> (json, any_error) res" where
  "result_of resp =
     (case resp_error resp of
        Some err \<Rightarrow> Err (Msg (''daemon error '' @ (if err_code err < 0 then ''-'' else []) @
                       dec_of_nat (nat \<bar>err_code err\<bar>) @ '': '' @ err_message err))
      | None \<Rightarrow> Ok (case resp_result resp of Some v \<Rightarrow> v | None \<Rightarrow> JNull))"

lemma daemon_unframe_frame:
  assumes "length p \<le> unat MAX_FRAME"
  shows "daemon_unframe (to_be_bytes (word_of_nat (length p)) @ p) = Some (p, [])"
  using unframe_frame(1) [OF assms, of "[]"] by simp

lemma lk_serve_frame:
  assumes "length p \<le> unat MAX_FRAME" "length (serve p) \<le> unat MAX_FRAME"
  shows "lk_serve serve \<lparr>lk_in = to_be_bytes (word_of_nat (length p)) @ p, lk_out = [],
                         lk_served = served, lk_drops = drops\<rparr> =
     \<lparr>lk_in = [], lk_out = (if drops = 0 then to_be_bytes (word_of_nat (length (serve p))) @ serve p else []),
      lk_served = served @ [p], lk_drops = drops - 1\<rparr>"
  using daemon_unframe_frame [OF assms(1)] wire_frames(1) [OF assms(2)]
  by (simp add: lk_serve_def Let_def)

lemma exchange_frame:
  assumes "length p \<le> unat MAX_FRAME" "length (serve p) \<le> unat MAX_FRAME" "cd_response cd (serve p) = Ok resp"
  shows "exchange (link_net serve) cd stream (word_of_nat (length p)) p (idle_link served 0) =
           (result_of resp, idle_link (served @ [p]) 0)"
    and "exchange (link_net serve) cd stream (word_of_nat (length p)) p (idle_link served (Suc n)) =
           (Err (IoError UnexpectedEof), idle_link (served @ [p]) n)"
  using lk_serve_frame [where serve = serve and served = served, OF assms(1,2)] u32_try_from_small [OF assms(2)] assms(3)
  by (simp_all add: exchange_def link_net_def idle_link_def io_def io_then_def result_of_def Let_def not_less
      split: option.splits)

lemma try_call_frame:
  assumes "cd_request cd \<lparr>req_id = dc_next_id c, req_method = meth, req_params = params\<rparr> = Ok p"
    "length p \<le> unat MAX_FRAME" "length (serve p) \<le> unat MAX_FRAME" "cd_response cd (serve p) = Ok resp"
  defines "c1 \<equiv> c\<lparr>dc_next_id := u64_add (dc_next_id c) 1, dc_stream := Some (case dc_stream c of Some s \<Rightarrow> s | None \<Rightarrow> 0)\<rparr>"
  shows "try_call (link_net serve) cd fuel meth params (c, idle_link served 0) =
           Some (result_of resp, c1, idle_link (served @ [p]) 0)"
    and "try_call (link_net serve) cd fuel meth params (c, idle_link served (Suc n)) =
           Some (Err (IoError UnexpectedEof), c1, idle_link (served @ [p]) n)"
proof -
  have con: "connect_with_autospawn (link_net serve) fuel cfg (idle_link served k) = Some (Ok 0, idle_link served k)"
    for cfg k by (simp add: connect_with_autospawn_def link_net_def idle_link_def)
  show "try_call (link_net serve) cd fuel meth params (c, idle_link served 0) =
          Some (result_of resp, c1, idle_link (served @ [p]) 0)"
    using exchange_frame(1) [where serve = serve, OF assms(2-4)] u32_try_from_small(1) [OF assms(2)]
    by (simp add: try_call_def assms(1) con c1_def Let_def split: option.splits)
  show "try_call (link_net serve) cd fuel meth params (c, idle_link served (Suc n)) =
          Some (Err (IoError UnexpectedEof), c1, idle_link (served @ [p]) n)"
    using exchange_frame(2) [where serve = serve, OF assms(2-4)] u32_try_from_small(1) [OF assms(2)]
    by (simp add: try_call_def assms(1) con c1_def Let_def split: option.splits)
qed

lemma call_frame:
  assumes "cd_request cd \<lparr>req_id = dc_next_id c, req_method = meth, req_params = params\<rparr> = Ok p"
    "length p \<le> unat MAX_FRAME" "length (serve p) \<le> unat MAX_FRAME" "cd_response cd (serve p) = Ok resp"
  shows "\<exists>c'. call (link_net serve) cd fuel meth params (c, idle_link served 0) =
                Some (result_of resp, c', idle_link (served @ [p]) 0) \<and>
              dc_next_id c' = u64_add (dc_next_id c) 1 \<and> dc_stream c' \<noteq> None \<and> dc_config c' = dc_config c"
proof -
  have "result_of resp = Err e \<Longrightarrow> \<not> looks_like_disconnect e" for e
    by (auto simp: result_of_def split: option.splits)
  then show ?thesis
    using try_call_frame(1) [where serve = serve, OF assms]
    by (cases "result_of resp") (auto simp: call_def)
qed

subsection \<open>Properties\<close>


text \<open>A network on which nothing ever listens, with a clock in milliseconds.\<close>

definition dead_net :: "nat Net" where
  "dead_net =
     \<lparr>net_connect = (\<lambda>_ w. (Err ConnectionRefused, w)),
      net_write = (\<lambda>_ _ w. (Err BrokenPipe, w)),
      net_flush = (\<lambda>_ w. (Err BrokenPipe, w)),
      net_read = (\<lambda>_ _ w. (Err BrokenPipe, w)),
      net_exe_dir = (\<lambda>_. Some ''/opt/bin''),
      net_exists = (\<lambda>_ _. True),
      net_ensure_socket_parent = (\<lambda>_ w. (Ok (), w)),
      net_open_append = (\<lambda>_ w. (Ok 1, w)),
      net_try_clone = (\<lambda>_ w. (Ok 2, w)),
      net_spawn = (\<lambda>_ _ _ _ w. (Ok (), w)),
      net_now = (\<lambda>w. w),
      net_sleep = (\<lambda>d w. w + d),
      net_err_str = (\<lambda>_. ''refused'')\<rparr>"

definition some_config :: ConnectConfig where
  "some_config = \<lparr>cc_socket = ''/tmp/s.sock'', cc_root = ''/r'', cc_daemon_bin = None, cc_autospawn = True,
     cc_daemon_extra_args = []\<rparr>"

definition some_client :: DaemonClient where
  "some_client = \<lparr>dc_stream = Some 0, dc_next_id = 1, dc_config = some_config\<rparr>"

text \<open>A codec that sends the method's name and reads every answer as a null result.\<close>

definition name_codec :: Codec where
  "name_codec = \<lparr>cd_request = (\<lambda>r. Ok (req_method r)),
     cd_response = (\<lambda>_. Ok \<lparr>resp_id = 1, resp_result = Some JNull, resp_error = None\<rparr>)\<rparr>"


text \<open>A call over a link that works hands the daemon the encoded request once and
  returns what the daemon answered, an error of the daemon included; it leaves the link idle and
  the stream open for the next call.\<close>

theorem call_exactly_once:
  assumes "cd_request cd \<lparr>req_id = dc_next_id c, req_method = meth, req_params = params\<rparr> = Ok p"
    "length p \<le> unat MAX_FRAME" "length (serve p) \<le> unat MAX_FRAME" "cd_response cd (serve p) = Ok resp"
  shows "\<exists>c'. call (link_net serve) cd fuel meth params (c, idle_link served 0) =
                Some (result_of resp, c', idle_link (served @ [p]) 0) \<and>
              dc_next_id c' = u64_add (dc_next_id c) 1 \<and> dc_stream c' \<noteq> None \<and> dc_config c' = dc_config c"
  by (rule call_frame [where serve = serve, OF assms])

theorem call_exactly_once_witness:
  "\<exists>c'. call (link_net (\<lambda>_. ''null'')) name_codec 11 PING JNull (some_client, idle_link [] 0) =
          Some (Ok JNull, c', idle_link [''ping''] 0) \<and> dc_stream c' \<noteq> None"
proof -
  let ?resp = "\<lparr>resp_id = 1, resp_result = Some JNull, resp_error = None\<rparr>"
  have "result_of ?resp = Ok JNull" by (simp add: result_of_def)
  then show ?thesis
    using call_exactly_once [where cd = name_codec and c = some_client and meth = PING and params = JNull and
      p = "''ping''" and serve = "\<lambda>_. ''null''" and resp = ?resp and fuel = 11 and served = "[]"]
    by (auto simp: name_codec_def PING_def unat_MAX_FRAME)
qed

text \<open>When the connection breaks after the daemon has served a request and before its
  answer arrives, the retry sends the request again under the next number, and the daemon
  serves it a second time, whether or not the method may be repeated.\<close>

theorem lost_answer_executes_twice:
  assumes "cd_request cd \<lparr>req_id = dc_next_id c, req_method = meth, req_params = params\<rparr> = Ok p"
    "cd_request cd \<lparr>req_id = u64_add (dc_next_id c) 1, req_method = meth, req_params = params\<rparr> = Ok p'"
    "length p \<le> unat MAX_FRAME" "length (serve p) \<le> unat MAX_FRAME" "cd_response cd (serve p) = Ok resp"
    "length p' \<le> unat MAX_FRAME" "length (serve p') \<le> unat MAX_FRAME" "cd_response cd (serve p') = Ok resp'"
  shows "\<exists>c'. call (link_net serve) cd fuel meth params (c, idle_link served 1) =
                Some (result_of resp', c', idle_link (served @ [p, p']) 0)"
proof -
  define c1 where "c1 = c\<lparr>dc_next_id := u64_add (dc_next_id c) 1, dc_stream := None\<rparr>"
  have "cd_request cd \<lparr>req_id = dc_next_id c1, req_method = meth, req_params = params\<rparr> = Ok p'"
    using assms(2) by (simp add: c1_def)
  from try_call_frame(1) [where serve = serve, OF this assms(6-8), of fuel "served @ [p]"]
    try_call_frame(2) [where serve = serve, OF assms(1,3-5), of fuel served 0]
  show ?thesis by (simp add: call_def c1_def)
qed

theorem lost_answer_executes_twice_witness:
  "\<exists>c'. call (link_net (\<lambda>_. ''null'')) name_codec 11 TOOL_SPAWN JNull (some_client, idle_link [] 1) =
          Some (Ok JNull, c', idle_link [''tool.spawn'', ''tool.spawn''] 0)"
proof -
  let ?resp = "\<lparr>resp_id = 1, resp_result = Some JNull, resp_error = None\<rparr>"
  have "result_of ?resp = Ok JNull" by (simp add: result_of_def)
  then show ?thesis
    using lost_answer_executes_twice [where cd = name_codec and c = some_client and meth = TOOL_SPAWN and
      params = JNull and p = "''tool.spawn''" and p' = "''tool.spawn''" and serve = "\<lambda>_. ''null''" and
      resp = ?resp and resp' = ?resp and fuel = 11 and served = "[]"]
    by (auto simp: name_codec_def TOOL_SPAWN_def unat_MAX_FRAME)
qed

end
