(* ===== verification/Mcp_Tools.thy ===== *)
theory Mcp_Tools
  imports Protocol
begin

text \<open>
  The tools the bridge offers, \<open>tool_definitions\<close> of \<^verbatim>\<open>src/crates/mcp-bridge/src/mcp.rs\<close>: for each
  its name, its description and the JSON schema of its arguments, and the route from a tool's
  name to the method of the daemon. The schemas are shown to be consistent with themselves, and
  the list of tools to be the list of routes.
\<close>

subsection \<open>The tools\<close>

text \<open>\<open>Value::get\<close> of an object, \<open>Value::as_str\<close> and \<open>Value::as_array\<close>.\<close>

definition json_get :: "string \<Rightarrow> json \<Rightarrow> json option" where
  "json_get k v = (case v of JObject kvs \<Rightarrow> map_of kvs k | _ \<Rightarrow> None)"

fun as_str :: "json \<Rightarrow> string option" where
  "as_str (JString s) = Some s"
| "as_str _ = None"

fun as_array :: "json \<Rightarrow> json list option" where
  "as_array (JArray vs) = Some vs"
| "as_array _ = None"

definition fs_read_tool :: json where
  "fs_read_tool =
    JObject [
      (''name'', JString ''fs_read''),
      (''description'', JString (''Read a file from the project root via the daemon'' @ [CHR 0x27] @ ''s mmap-backed VFS. Returns `version` and `mtime_ns` tokens that can be echoed into write RPCs for optimistic concurrency. Set `strip_noise: true` to collapse license headers, long base64 blobs, and `@generated` bodies into short `'' @ [CHR 0x5B] @ [CHR 0x5B] @ ''mcp-cli: stripped '' @ [CHR 0xE2] @ [CHR 0x80] @ [CHR 0xA6] @ [CHR 0x5D] @ [CHR 0x5D] @ ''` markers '' @ [CHR 0xE2] @ [CHR 0x80] @ [CHR 0x94] @ '' original line ranges are reported in `stripped_regions` so callers can ask for specific lines back if needed.'')),
      (''inputSchema'', JObject [
        (''type'', JString ''object''),
        (''properties'', JObject [
          (''path'', JObject [
            (''type'', JString ''string''),
            (''description'', JString ''Path relative to project root.'')]),
          (''offset'', JObject [
            (''type'', JString ''integer''),
            (''minimum'', JNumber (PosInt 0)),
            (''default'', JNumber (PosInt 0))]),
          (''length'', JObject [
            (''type'', JString ''integer''),
            (''minimum'', JNumber (PosInt 1)),
            (''description'', JString ''Bytes to read; default 256 KiB.'')]),
          (''binary'', JObject [
            (''type'', JString ''boolean''),
            (''default'', JBool False),
            (''description'', JString ''Return base64 content for binary-safe reads.'')]),
          (''strip_noise'', JObject [
            (''type'', JString ''boolean''),
            (''default'', JBool False),
            (''description'', JString ''Elide license/base64/generated boilerplate from the returned content. Only applied when offset is 0.'')])]),
        (''required'', JArray [JString ''path''])])]"

definition fs_read_batch_tool :: json where
  "fs_read_batch_tool =
    JObject [
      (''name'', JString ''fs_read_batch''),
      (''description'', JString ''Read many files (or regions) in one MCP call. Response is a parallel list of {result?, error?}; per-request failures do not abort the batch. Each request may opt into `strip_noise` independently.''),
      (''inputSchema'', JObject [
        (''type'', JString ''object''),
        (''properties'', JObject [
          (''requests'', JObject [
            (''type'', JString ''array''),
            (''items'', JObject [
              (''type'', JString ''object''),
              (''properties'', JObject [
                (''path'', JObject [(''type'', JString ''string'')]),
                (''offset'', JObject [
                  (''type'', JString ''integer''),
                  (''minimum'', JNumber (PosInt 0)),
                  (''default'', JNumber (PosInt 0))]),
                (''length'', JObject [(''type'', JString ''integer''), (''minimum'', JNumber (PosInt 1))]),
                (''binary'', JObject [(''type'', JString ''boolean''), (''default'', JBool False)]),
                (''strip_noise'', JObject [(''type'', JString ''boolean''), (''default'', JBool False)])]),
              (''required'', JArray [JString ''path''])]),
            (''minItems'', JNumber (PosInt 1))])]),
        (''required'', JArray [JString ''requests''])])]"

definition fs_apply_patch_tool :: json where
  "fs_apply_patch_tool =
    JObject [
      (''name'', JString ''fs_apply_patch''),
      (''description'', JString ''Apply unified diff hunks to one existing file. Supports optimistic concurrency with `expected_version` from fs_read/fs_snapshot and `expected_mtime_ns` from fs_read; stale writes are rejected before touching the file.''),
      (''inputSchema'', JObject [
        (''type'', JString ''object''),
        (''properties'', JObject [
          (''path'', JObject [
            (''type'', JString ''string''),
            (''description'', JString ''Existing file path relative to project root.'')]),
          (''patch'', JObject [
            (''type'', JString ''string''),
            (''description'', JString ''Unified diff hunks for this file.'')]),
          (''expected_version'', JObject [
            (''type'', JString ''integer''),
            (''minimum'', JNumber (PosInt 0)),
            (''description'', JString ''Optional ChangeLog version returned by fs_read or fs_snapshot.'')]),
          (''expected_mtime_ns'', JObject [
            (''type'', JString ''integer''),
            (''minimum'', JNumber (PosInt 0)),
            (''description'', JString ''Optional mtime_ns returned by fs_read.'')])]),
        (''required'', JArray [JString ''path'', JString ''patch''])])]"

definition fs_replace_all_tool :: json where
  "fs_replace_all_tool =
    JObject [
      (''name'', JString ''fs_replace_all''),
      (''description'', JString ''Replace every literal occurrence of a string in one existing file. Supports the same optimistic concurrency fields as fs_apply_patch and can fail instead of writing when `max_replacements` would be exceeded.''),
      (''inputSchema'', JObject [
        (''type'', JString ''object''),
        (''properties'', JObject [
          (''path'', JObject [
            (''type'', JString ''string''),
            (''description'', JString ''Existing file path relative to project root.'')]),
          (''search'', JObject [(''type'', JString ''string'')]),
          (''replacement'', JObject [(''type'', JString ''string'')]),
          (''expected_version'', JObject [
            (''type'', JString ''integer''),
            (''minimum'', JNumber (PosInt 0)),
            (''description'', JString ''Optional ChangeLog version returned by fs_read or fs_snapshot.'')]),
          (''expected_mtime_ns'', JObject [
            (''type'', JString ''integer''),
            (''minimum'', JNumber (PosInt 0)),
            (''description'', JString ''Optional mtime_ns returned by fs_read.'')]),
          (''max_replacements'', JObject [
            (''type'', JString ''integer''),
            (''minimum'', JNumber (PosInt 0)),
            (''description'', JString ''Fail without writing if the occurrence count exceeds this cap.'')])]),
        (''required'', JArray [JString ''path'', JString ''search'', JString ''replacement''])])]"

definition fs_snapshot_tool :: json where
  "fs_snapshot_tool =
    JObject [
      (''name'', JString ''fs_snapshot''),
      (''description'', JString ''Return the current monotonic version cursor for the watched tree. Pair with fs_changes to do incremental syncs.''),
      (''inputSchema'', JObject [(''type'', JString ''object''), (''properties'', JObject [])])]"

definition fs_changes_tool :: json where
  "fs_changes_tool =
    JObject [
      (''name'', JString ''fs_changes''),
      (''description'', JString ''Return file changes (created/modified/removed, coalesced per path) since the given version. If `overflowed` is true, the client must do a full re-scan.''),
      (''inputSchema'', JObject [
        (''type'', JString ''object''),
        (''properties'', JObject [
          (''since'', JObject [(''type'', JString ''integer''), (''minimum'', JNumber (PosInt 0))])]),
        (''required'', JArray [JString ''since''])])]"

definition fs_scan_tool :: json where
  "fs_scan_tool =
    JObject [
      (''name'', JString ''fs_scan''),
      (''description'', JString (''Enumerate all tracked files in the project (gitignore-aware, .git excluded). Returns the version cursor captured at the start of the walk, so a follow-up fs_changes(since: version) closes any race with events that landed during the scan. Use when fs_changes returned `overflowed: true`. Set `compact: true` for a directory roll-up (per-dir file counts) instead of the flat path list '' @ [CHR 0xE2] @ [CHR 0x80] @ [CHR 0x94] @ '' usually 10-100'' @ [CHR 0xC3] @ [CHR 0x97] @ '' smaller for '' @ [CHR 0x27] @ ''what'' @ [CHR 0x27] @ ''s in this repo'' @ [CHR 0x27] @ '' exploration.'')),
      (''inputSchema'', JObject [
        (''type'', JString ''object''),
        (''properties'', JObject [
          (''path'', JObject [
            (''type'', JString ''string''),
            (''description'', JString ''Optional subdirectory relative to project root.'')]),
          (''max_results'', JObject [
            (''type'', JString ''integer''),
            (''minimum'', JNumber (PosInt 1)),
            (''description'', JString ''Cap on returned entries.'')]),
          (''compact'', JObject [
            (''type'', JString ''boolean''),
            (''default'', JBool False),
            (''description'', JString (''Return a `{by_dir: '' @ [CHR 0x5B] @ ''{dir, count}'' @ [CHR 0x5D] @ '', total}` roll-up instead of `files`.''))])])])]"

definition git_status_tool :: json where
  "git_status_tool =
    JObject [
      (''name'', JString ''git_status''),
      (''description'', JString (''Return git status entries for the project (in-process libgit2, no fork/exec). Set `compact: true` to get a roll-up by status class (modified / untracked / deleted / etc.) with per-directory counts instead of every file '' @ [CHR 0xE2] @ [CHR 0x80] @ [CHR 0x94] @ '' much smaller on large dirty trees.'')),
      (''inputSchema'', JObject [
        (''type'', JString ''object''),
        (''properties'', JObject [
          (''repo'', JObject [
            (''type'', JString ''string''),
            (''description'', JString ''Optional repo path relative to project root.'')]),
          (''compact'', JObject [
            (''type'', JString ''boolean''),
            (''default'', JBool False),
            (''description'', JString ''Return a class+directory roll-up instead of the full per-file list.'')])])])]"

definition git_log_tool :: json where
  "git_log_tool =
    JObject [
      (''name'', JString ''git_log''),
      (''description'', JString ''Return a compact one-liner git log (SHA, author, date, summary). Default 50 commits from HEAD. Supports revision and path filtering.''),
      (''inputSchema'', JObject [
        (''type'', JString ''object''),
        (''properties'', JObject [
          (''repo'', JObject [
            (''type'', JString ''string''),
            (''description'', JString ''Optional repo path relative to project root.'')]),
          (''max_count'', JObject [
            (''type'', JString ''integer''),
            (''minimum'', JNumber (PosInt 1)),
            (''default'', JNumber (PosInt 50))]),
          (''revision'', JObject [
            (''type'', JString ''string''),
            (''description'', JString ''Optional revision to start from (branch, tag, or SHA).'')]),
          (''path'', JObject [
            (''type'', JString ''string''),
            (''description'', JString ''Optional path to filter commits.'')])])])]"

definition git_diff_tool :: json where
  "git_diff_tool =
    JObject [
      (''name'', JString ''git_diff''),
      (''description'', JString ''Return a unified diff between two revisions or between a revision and the working tree.''),
      (''inputSchema'', JObject [
        (''type'', JString ''object''),
        (''properties'', JObject [
          (''repo'', JObject [
            (''type'', JString ''string''),
            (''description'', JString ''Optional repo path relative to project root.'')]),
          (''base'', JObject [
            (''type'', JString ''string''),
            (''description'', JString ''Base revision (default: HEAD).'')]),
          (''target'', JObject [
            (''type'', JString ''string''),
            (''description'', JString ''Target revision (if omitted, compares base against working tree).'')]),
          (''path'', JObject [
            (''type'', JString ''string''),
            (''description'', JString ''Optional path filter.'')])])])]"

definition git_blame_tool :: json where
  "git_blame_tool =
    JObject [
      (''name'', JString ''git_blame''),
      (''description'', JString ''Return compact libgit2 blame spans for a file, grouped by contiguous commit ownership.''),
      (''inputSchema'', JObject [
        (''type'', JString ''object''),
        (''properties'', JObject [
          (''repo'', JObject [
            (''type'', JString ''string''),
            (''description'', JString ''Optional repo path relative to project root.'')]),
          (''path'', JObject [
            (''type'', JString ''string''),
            (''description'', JString ''File path relative to project root.'')])]),
        (''required'', JArray [JString ''path''])])]"

definition git_history_tool :: json where
  "git_history_tool =
    JObject [
      (''name'', JString ''git_history''),
      (''description'', JString ''Return compact commit history for one file without flooding full repository history.''),
      (''inputSchema'', JObject [
        (''type'', JString ''object''),
        (''properties'', JObject [
          (''repo'', JObject [
            (''type'', JString ''string''),
            (''description'', JString ''Optional repo path relative to project root.'')]),
          (''path'', JObject [
            (''type'', JString ''string''),
            (''description'', JString ''File path relative to project root.'')]),
          (''max_count'', JObject [
            (''type'', JString ''integer''),
            (''minimum'', JNumber (PosInt 1)),
            (''default'', JNumber (PosInt 50))])]),
        (''required'', JArray [JString ''path''])])]"

definition search_grep_tool :: json where
  "search_grep_tool =
    JObject [
      (''name'', JString ''search_grep''),
      (''description'', JString (''Regex search over the project tree (grep-searcher). Each hit carries `path`, `line_number`, `line`; set `context: N` to attach N lines before and after each match as `hit.context'' @ [CHR 0x5B] @ [CHR 0x5D] @ ''`. `compact: true` returns per-file buckets instead of per-line hits.'')),
      (''inputSchema'', JObject [
        (''type'', JString ''object''),
        (''properties'', JObject [
          (''pattern'', JObject [(''type'', JString ''string'')]),
          (''path'', JObject [
            (''type'', JString ''string''),
            (''description'', JString ''Subdirectory relative to project root.'')]),
          (''glob'', JObject [
            (''type'', JString ''string''),
            (''description'', JString (''Override glob (e.g. '' @ [CHR 0x27] @ ''*.rs'' @ [CHR 0x27] @ '').''))]),
          (''max_results'', JObject [
            (''type'', JString ''integer''),
            (''minimum'', JNumber (PosInt 1)),
            (''default'', JNumber (PosInt 200))]),
          (''case_insensitive'', JObject [(''type'', JString ''boolean''), (''default'', JBool False)]),
          (''compact'', JObject [
            (''type'', JString ''boolean''),
            (''default'', JBool False),
            (''description'', JString ''Bucket hits per file instead of returning every matching line.'')]),
          (''context'', JObject [
            (''type'', JString ''integer''),
            (''minimum'', JNumber (PosInt 0)),
            (''maximum'', JNumber (PosInt 20)),
            (''default'', JNumber (PosInt 0)),
            (''description'', JString ''Lines of context before and after each match.'')])]),
        (''required'', JArray [JString ''pattern''])])]"

definition code_outline_tool :: json where
  "code_outline_tool =
    JObject [
      (''name'', JString ''code_outline''),
      (''description'', JString (''Return the structural outline (top-level functions, types, classes, etc.) of a single source file via tree-sitter. Results are cached per file, invalidated by mtime + size. Supports rust, python, c, cpp, typescript, tsx, go. Unsupported extensions return an empty `entries` list with `language: null`. Set `signatures_only: true` to attach a compact declaration header (e.g. `fn foo(x: u32) -> bool`) to each entry '' @ [CHR 0xE2] @ [CHR 0x80] @ [CHR 0x94] @ '' useful when the agent wants signatures but not bodies.'')),
      (''inputSchema'', JObject [
        (''type'', JString ''object''),
        (''properties'', JObject [
          (''path'', JObject [
            (''type'', JString ''string''),
            (''description'', JString ''Path relative to project root.'')]),
          (''signatures_only'', JObject [
            (''type'', JString ''boolean''),
            (''default'', JBool False),
            (''description'', JString (''Populate each entry'' @ [CHR 0x27] @ ''s `signature` with the declaration header up to the body.''))])]),
        (''required'', JArray [JString ''path''])])]"

definition code_outline_batch_tool :: json where
  "code_outline_batch_tool =
    JObject [
      (''name'', JString ''code_outline_batch''),
      (''description'', JString ''code_outline for many files in one MCP call. Response is a parallel list of {path, result?, error?}; per-request failures do not abort the batch. Each request may opt into `signatures_only` independently.''),
      (''inputSchema'', JObject [
        (''type'', JString ''object''),
        (''properties'', JObject [
          (''requests'', JObject [
            (''type'', JString ''array''),
            (''items'', JObject [
              (''type'', JString ''object''),
              (''properties'', JObject [
                (''path'', JObject [(''type'', JString ''string'')]),
                (''signatures_only'', JObject [(''type'', JString ''boolean''), (''default'', JBool False)])]),
              (''required'', JArray [JString ''path''])]),
            (''minItems'', JNumber (PosInt 1))])]),
        (''required'', JArray [JString ''requests''])])]"

definition code_symbols_tool :: json where
  "code_symbols_tool =
    JObject [
      (''name'', JString ''code_symbols''),
      (''description'', JString ''Return a flat, de-duplicated list of top-level symbol names in a source file (function names, type names, etc.). Cheaper than code_outline when only names are needed.''),
      (''inputSchema'', JObject [
        (''type'', JString ''object''),
        (''properties'', JObject [
          (''path'', JObject [
            (''type'', JString ''string''),
            (''description'', JString ''Path relative to project root.'')])]),
        (''required'', JArray [JString ''path''])])]"

definition code_symbols_batch_tool :: json where
  "code_symbols_batch_tool =
    JObject [
      (''name'', JString ''code_symbols_batch''),
      (''description'', JString ''code_symbols for many files in one MCP call. Response is a parallel list of {path, result?, error?}; per-request failures do not abort the batch.''),
      (''inputSchema'', JObject [
        (''type'', JString ''object''),
        (''properties'', JObject [
          (''requests'', JObject [
            (''type'', JString ''array''),
            (''items'', JObject [
              (''type'', JString ''object''),
              (''properties'', JObject [(''path'', JObject [(''type'', JString ''string'')])]),
              (''required'', JArray [JString ''path''])]),
            (''minItems'', JNumber (PosInt 1))])]),
        (''required'', JArray [JString ''requests''])])]"

definition code_imports_tool :: json where
  "code_imports_tool =
    JObject [
      (''name'', JString ''code_imports''),
      (''description'', JString ''Extract import/use/include statements from one source file and resolve local relative imports when possible.''),
      (''inputSchema'', JObject [
        (''type'', JString ''object''),
        (''properties'', JObject [
          (''path'', JObject [
            (''type'', JString ''string''),
            (''description'', JString ''Source file relative to project root.'')])]),
        (''required'', JArray [JString ''path''])])]"

definition code_dependencies_tool :: json where
  "code_dependencies_tool =
    JObject [
      (''name'', JString ''code_dependencies''),
      (''description'', JString (''Build a lightweight dependency edge list from source imports. With `path`, returns that file'' @ [CHR 0x27] @ ''s dependencies and reverse dependents.'')),
      (''inputSchema'', JObject [
        (''type'', JString ''object''),
        (''properties'', JObject [
          (''path'', JObject [
            (''type'', JString ''string''),
            (''description'', JString ''Optional focus file relative to project root.'')]),
          (''max_files'', JObject [
            (''type'', JString ''integer''),
            (''minimum'', JNumber (PosInt 1)),
            (''default'', JNumber (PosInt 4096))])])])]"

definition code_find_occurrences_tool :: json where
  "code_find_occurrences_tool =
    JObject [
      (''name'', JString ''code_find_occurrences''),
      (''description'', JString ''Smart grep for an identifier using tree-sitter nodes, ignoring comments and string literals.''),
      (''inputSchema'', JObject [
        (''type'', JString ''object''),
        (''properties'', JObject [
          (''identifier'', JObject [(''type'', JString ''string'')]),
          (''path'', JObject [
            (''type'', JString ''string''),
            (''description'', JString ''Optional file to search; defaults to supported source files.'')]),
          (''max_results'', JObject [
            (''type'', JString ''integer''),
            (''minimum'', JNumber (PosInt 1)),
            (''default'', JNumber (PosInt 200))])]),
        (''required'', JArray [JString ''identifier''])])]"

definition fs_read_skeleton_tool :: json where
  "fs_read_skeleton_tool =
    JObject [
      (''name'', JString ''fs_read_skeleton''),
      (''description'', JString ''Read a source file with non-target declaration bodies folded to elision markers while preserving surrounding structure. Use `target_symbol` or `target_line` to keep one body expanded.''),
      (''inputSchema'', JObject [
        (''type'', JString ''object''),
        (''properties'', JObject [
          (''path'', JObject [(''type'', JString ''string'')]),
          (''target_line'', JObject [(''type'', JString ''integer''), (''minimum'', JNumber (PosInt 1))]),
          (''target_symbol'', JObject [(''type'', JString ''string'')])]),
        (''required'', JArray [JString ''path''])])]"

definition tool_run_tool :: json where
  "tool_run_tool =
    JObject [
      (''name'', JString ''tool_run''),
      (''description'', JString ''Run a local command with argv semantics from the project root or an in-root cwd. Output is capped per stream, failures include a combined stdout/stderr tail, and successful results can be cached until the watched tree version changes.''),
      (''inputSchema'', JObject [
        (''type'', JString ''object''),
        (''properties'', JObject [
          (''command'', JObject [
            (''type'', JString ''string''),
            (''description'', JString (''Executable name or absolute path. Use command '' @ [CHR 0x27] @ ''sh'' @ [CHR 0x27] @ '' with args '' @ [CHR 0x5B] @ [CHR 0x27] @ ''-lc'' @ [CHR 0x27] @ '', '' @ [CHR 0x27] @ ''...'' @ [CHR 0x27] @ [CHR 0x5D] @ '' if shell behavior is required.''))]),
          (''args'', JObject [
            (''type'', JString ''array''),
            (''items'', JObject [(''type'', JString ''string'')]),
            (''default'', JArray [])]),
          (''cwd'', JObject [
            (''type'', JString ''string''),
            (''description'', JString ''Optional working directory relative to project root.'')]),
          (''env'', JObject [
            (''type'', JString ''array''),
            (''items'', JObject [
              (''type'', JString ''object''),
              (''properties'', JObject [
                (''name'', JObject [(''type'', JString ''string'')]),
                (''value'', JObject [(''type'', JString ''string'')])]),
              (''required'', JArray [JString ''name'', JString ''value''])]),
            (''default'', JArray [])]),
          (''max_output_bytes'', JObject [
            (''type'', JString ''integer''),
            (''minimum'', JNumber (PosInt 1)),
            (''default'', JNumber (PosInt 65536)),
            (''description'', JString ''Per-stream output cap; keeps the last N bytes.'')]),
          (''cache'', JObject [
            (''type'', JString ''boolean''),
            (''default'', JBool False),
            (''description'', JString ''Cache successful result while the daemon changelog version is unchanged.'')])]),
        (''required'', JArray [JString ''command''])])]"

definition tool_gh_tool :: json where
  "tool_gh_tool =
    JObject [
      (''name'', JString ''tool_gh''),
      (''description'', JString ''Compact GitHub CLI adapter for `gh pr view` and `gh issue view`. Returns parsed JSON for the requested PR or issue.''),
      (''inputSchema'', JObject [
        (''type'', JString ''object''),
        (''properties'', JObject [
          (''kind'', JObject [
            (''type'', JString ''string''),
            (''enum'', JArray [JString ''pr'', JString ''issue''])]),
          (''selector'', JObject [
            (''type'', JString ''string''),
            (''description'', JString (''Number, URL, or branch accepted by gh view. Omit for gh'' @ [CHR 0x27] @ ''s contextual default where supported.''))]),
          (''repo'', JObject [
            (''type'', JString ''string''),
            (''description'', JString ''Optional OWNER/REPO override.'')]),
          (''fields'', JObject [
            (''type'', JString ''array''),
            (''items'', JObject [(''type'', JString ''string'')]),
            (''description'', JString ''Optional gh JSON fields. Defaults to compact PR or issue fields.'')])]),
        (''required'', JArray [JString ''kind''])])]"

definition tool_spawn_tool :: json where
  "tool_spawn_tool =
    JObject [
      (''name'', JString ''tool_spawn''),
      (''description'', JString ''Start a background process managed by the daemon. Use tool_read_logs to poll captured stdout/stderr and tool_kill to stop it.''),
      (''inputSchema'', JObject [
        (''type'', JString ''object''),
        (''properties'', JObject [
          (''command'', JObject [(''type'', JString ''string'')]),
          (''args'', JObject [
            (''type'', JString ''array''),
            (''items'', JObject [(''type'', JString ''string'')]),
            (''default'', JArray [])]),
          (''cwd'', JObject [
            (''type'', JString ''string''),
            (''description'', JString ''Optional working directory relative to project root.'')]),
          (''env'', JObject [
            (''type'', JString ''array''),
            (''items'', JObject [
              (''type'', JString ''object''),
              (''properties'', JObject [
                (''name'', JObject [(''type'', JString ''string'')]),
                (''value'', JObject [(''type'', JString ''string'')])]),
              (''required'', JArray [JString ''name'', JString ''value''])]),
            (''default'', JArray [])])]),
        (''required'', JArray [JString ''command''])])]"

definition tool_read_logs_tool :: json where
  "tool_read_logs_tool =
    JObject [
      (''name'', JString ''tool_read_logs''),
      (''description'', JString ''Read captured logs for a daemon-managed background job from a byte offset.''),
      (''inputSchema'', JObject [
        (''type'', JString ''object''),
        (''properties'', JObject [
          (''job_id'', JObject [(''type'', JString ''integer''), (''minimum'', JNumber (PosInt 1))]),
          (''offset'', JObject [
            (''type'', JString ''integer''),
            (''minimum'', JNumber (PosInt 0)),
            (''default'', JNumber (PosInt 0))]),
          (''max_bytes'', JObject [(''type'', JString ''integer''), (''minimum'', JNumber (PosInt 1))])]),
        (''required'', JArray [JString ''job_id''])])]"

definition tool_kill_tool :: json where
  "tool_kill_tool =
    JObject [
      (''name'', JString ''tool_kill''),
      (''description'', JString ''Terminate a daemon-managed background job.''),
      (''inputSchema'', JObject [
        (''type'', JString ''object''),
        (''properties'', JObject [
          (''job_id'', JObject [(''type'', JString ''integer''), (''minimum'', JNumber (PosInt 1))])]),
        (''required'', JArray [JString ''job_id''])])]"

definition metrics_gain_tool :: json where
  "metrics_gain_tool =
    JObject [
      (''name'', JString ''metrics_gain''),
      (''description'', JString ''Per-tool byte-savings counters: how many bytes the daemon would have shipped (raw_bytes) vs. how many it actually serialized (compacted_bytes), with a session-wide savings ratio. Useful for the agent to verify its compact-mode requests are paying off.''),
      (''inputSchema'', JObject [(''type'', JString ''object''), (''properties'', JObject [])])]"

definition metrics_tool_latency_tool :: json where
  "metrics_tool_latency_tool =
    JObject [
      (''name'', JString ''metrics_tool_latency''),
      (''description'', JString ''Per-tool daemon-side wall-clock counters (calls, sum / mean / max in microseconds) across every RPC dispatched this session. Paired with `metrics_gain` so agents and the M5 benchmark can check that fork/exec saved actually translates to wall-clock saved per call.''),
      (''inputSchema'', JObject [(''type'', JString ''object''), (''properties'', JObject [])])]"

definition pipe_tool :: json where
  "pipe_tool =
    JObject [
      (''name'', JString ''pipe''),
      (''description'', JString (''Compose multiple daemon RPCs into one MCP round-trip with reference forwarding. Each step'' @ [CHR 0x27] @ ''s `params` may contain `{'' @ [CHR 0x22] @ ''$ref'' @ [CHR 0x22] @ '': '' @ [CHR 0x22] @ ''$N.<jsonpath>'' @ [CHR 0x22] @ ''}` substitutions referencing prior step results, and a step may set `for_each: '' @ [CHR 0x22] @ ''$N.<jsonpath>'' @ [CHR 0x22] @ ''` to run once per matched node with `$item` bound (use `{'' @ [CHR 0x22] @ ''$ref'' @ [CHR 0x22] @ '': '' @ [CHR 0x22] @ ''$item.path'' @ [CHR 0x22] @ ''}` etc. inside `params`). Plain `$ref` requires exactly one node; multi-cardinality lookups belong in `for_each`. JSONPath dialect is RFC 9535. Steps execute sequentially; `for_each` items run with bounded concurrency (default 8). Per-step `continue_on_error: true` keeps later steps running after a failure (subsequent `$N` refs against the failed step still error). Nested pipes are rejected '' @ [CHR 0xE2] @ [CHR 0x80] @ [CHR 0x94] @ '' flatten composition at the caller. Use this when the agent already knows the call shape: e.g. fs_scan '' @ [CHR 0xE2] @ [CHR 0x86] @ [CHR 0x92] @ '' fs_read for_each, or search_grep '' @ [CHR 0xE2] @ [CHR 0x86] @ [CHR 0x92] @ '' fs_read_skeleton for_each, where waiting for the model to round-trip between steps is pure overhead.'')),
      (''inputSchema'', JObject [
        (''type'', JString ''object''),
        (''properties'', JObject [
          (''steps'', JObject [
            (''type'', JString ''array''),
            (''minItems'', JNumber (PosInt 1)),
            (''items'', JObject [
              (''type'', JString ''object''),
              (''properties'', JObject [
                (''method'', JObject [
                  (''type'', JString ''string''),
                  (''description'', JString (''Daemon RPC method (e.g. '' @ [CHR 0x27] @ ''fs.read'' @ [CHR 0x27] @ '', '' @ [CHR 0x27] @ ''search.grep'' @ [CHR 0x27] @ ''). Nested '' @ [CHR 0x27] @ ''pipe'' @ [CHR 0x27] @ '' is rejected.''))]),
                (''params'', JObject [
                  (''description'', JString (''Daemon RPC params for this method. May contain {'' @ [CHR 0x22] @ ''$ref'' @ [CHR 0x22] @ '': '' @ [CHR 0x22] @ ''$N.<jsonpath>'' @ [CHR 0x22] @ ''} or {'' @ [CHR 0x22] @ ''$ref'' @ [CHR 0x22] @ '': '' @ [CHR 0x22] @ ''$item.<jsonpath>'' @ [CHR 0x22] @ ''} substitutions.''))]),
                (''for_each'', JObject [
                  (''type'', JString ''string''),
                  (''description'', JString ''JSONPath against a prior step result. Step runs once per matched node with $item bound.'')]),
                (''continue_on_error'', JObject [
                  (''type'', JString ''boolean''),
                  (''default'', JBool False),
                  (''description'', JString ''Keep later steps running if this one fails.'')]),
                (''concurrency'', JObject [
                  (''type'', JString ''integer''),
                  (''minimum'', JNumber (PosInt 1)),
                  (''default'', JNumber (PosInt 8)),
                  (''description'', JString ''Concurrency cap for for_each fan-out. Clamped to 64.'')])]),
              (''required'', JArray [JString ''method''])])])]),
        (''required'', JArray [JString ''steps''])])]"

definition tool_definitions :: "json list" where
  "tool_definitions =
    [fs_read_tool, fs_read_batch_tool, fs_apply_patch_tool, fs_replace_all_tool, fs_snapshot_tool,
     fs_changes_tool, fs_scan_tool, git_status_tool, git_log_tool, git_diff_tool,
     git_blame_tool, git_history_tool, search_grep_tool, code_outline_tool, code_outline_batch_tool,
     code_symbols_tool, code_symbols_batch_tool, code_imports_tool, code_dependencies_tool, code_find_occurrences_tool,
     fs_read_skeleton_tool, tool_run_tool, tool_gh_tool, tool_spawn_tool, tool_read_logs_tool,
     tool_kill_tool, metrics_gain_tool, metrics_tool_latency_tool, pipe_tool]"

text \<open>The match on the tool's name in \<open>tools_call\<close>.\<close>

definition tool_routes :: "(string \<times> string) list" where
  "tool_routes =
    [(''fs_read'', FS_READ),
     (''fs_read_batch'', FS_READ_BATCH),
     (''fs_apply_patch'', FS_APPLY_PATCH),
     (''fs_replace_all'', FS_REPLACE_ALL),
     (''fs_snapshot'', FS_SNAPSHOT),
     (''fs_changes'', FS_CHANGES),
     (''fs_scan'', FS_SCAN),
     (''git_status'', GIT_STATUS),
     (''git_log'', GIT_LOG),
     (''git_diff'', GIT_DIFF),
     (''git_blame'', GIT_BLAME),
     (''git_history'', GIT_HISTORY),
     (''search_grep'', SEARCH_GREP),
     (''code_outline'', CODE_OUTLINE),
     (''code_outline_batch'', CODE_OUTLINE_BATCH),
     (''code_symbols'', CODE_SYMBOLS),
     (''code_symbols_batch'', CODE_SYMBOLS_BATCH),
     (''code_imports'', CODE_IMPORTS),
     (''code_dependencies'', CODE_DEPENDENCIES),
     (''code_find_occurrences'', CODE_FIND_OCCURRENCES),
     (''fs_read_skeleton'', FS_READ_SKELETON),
     (''tool_run'', TOOL_RUN),
     (''tool_gh'', TOOL_GH),
     (''tool_spawn'', TOOL_SPAWN),
     (''tool_read_logs'', TOOL_READ_LOGS),
     (''tool_kill'', TOOL_KILL),
     (''metrics_gain'', METRICS_GAIN),
     (''metrics_tool_latency'', METRICS_TOOL_LATENCY),
     (''pipe'', PIPE)]"

definition daemon_method :: "string \<Rightarrow> string option" where
  "daemon_method name = map_of tool_routes name"

lemmas tool_defs = fs_read_tool_def fs_read_batch_tool_def fs_apply_patch_tool_def fs_replace_all_tool_def fs_snapshot_tool_def fs_changes_tool_def fs_scan_tool_def git_status_tool_def git_log_tool_def git_diff_tool_def git_blame_tool_def git_history_tool_def search_grep_tool_def code_outline_tool_def code_outline_batch_tool_def code_symbols_tool_def code_symbols_batch_tool_def code_imports_tool_def code_dependencies_tool_def code_find_occurrences_tool_def fs_read_skeleton_tool_def tool_run_tool_def tool_gh_tool_def tool_spawn_tool_def tool_read_logs_tool_def tool_kill_tool_def metrics_gain_tool_def metrics_tool_latency_tool_def pipe_tool_def

text \<open>In a schema, every required property is one of the properties, at every level.\<close>

definition requires_known :: "(string \<times> json) list \<Rightarrow> bool" where
  "requires_known kvs \<longleftrightarrow>
     (case map_of kvs ''required'' of
        None \<Rightarrow> True
      | Some r \<Rightarrow>
          (case (as_array r, map_of kvs ''properties'') of
             (Some rs, Some (JObject ps)) \<Rightarrow>
               list_all (\<lambda>v. case as_str v of Some k \<Rightarrow> k \<in> set (map fst ps) | None \<Rightarrow> False) rs
           | _ \<Rightarrow> False))"

fun schema_ok :: "json \<Rightarrow> bool" where
  "schema_ok (JObject kvs) \<longleftrightarrow> requires_known kvs \<and> list_all (\<lambda>kv. schema_ok (snd kv)) kvs"
| "schema_ok (JArray vs) \<longleftrightarrow> list_all schema_ok vs"
| "schema_ok _ \<longleftrightarrow> True"

definition tool_name :: "json \<Rightarrow> string option" where
  "tool_name t = Option.bind (json_get ''name'' t) as_str"

subsection \<open>Lemmas\<close>

lemma tool_names: "map tool_name tool_definitions = map (\<lambda>r. Some (fst r)) tool_routes"
  unfolding tool_definitions_def tool_routes_def list.map fst_conv tool_name_def json_get_def tool_defs json.case
  by simp

lemma distinct_tools: "distinct (map fst tool_routes)"
  by (simp add: tool_routes_def)

lemma routed_methods: "PING # map snd tool_routes = all_methods"
  by (simp add: tool_routes_def all_methods_def)

lemma schemas_ok: "list_all schema_ok tool_definitions"
  unfolding tool_definitions_def tool_defs by (simp add: requires_known_def)

end
