(* ===== verification/Mcp.thy ===== *)
theory Mcp
  imports Bridge Mcp_Tools
begin

text \<open>
  The MCP server of the bridge, \<^verbatim>\<open>src/crates/mcp-bridge/src/mcp.rs\<close>: one JSON-RPC message per
  line on standard input, one answer per line on standard output, tool calls passed on to the
  daemon through the client of \<open>Bridge\<close>.

  Standard input is the list of its lines and what follows them, the end or a read error.
  Parsing and printing JSON are parameters. Flushing standard output adds no failure to the
  ones its writes have.
\<close>

subsection \<open>The server\<close>

record Json_Text =
  jt_parse :: "string \<Rightarrow> (json, string) res"
  jt_print :: "json \<Rightarrow> string"
  jt_pretty :: "json \<Rightarrow> string"

definition newline :: string where "newline = [CHR 0x0A]"

definition write_message :: "Json_Text \<Rightarrow> Writer \<Rightarrow> json \<Rightarrow> (unit, any_error) res \<times> Writer" where
  "write_message jt w msg = write_two (jt_print jt msg) newline w"

text \<open>\<open>anyhow::Error\<close> displays its outermost layer.\<close>

definition error_text :: "'w Net \<Rightarrow> any_error \<Rightarrow> string" where
  "error_text net e =
     (case e of Msg s \<Rightarrow> s | WithContext c _ \<Rightarrow> c | IoError k \<Rightarrow> net_err_str net k)"

definition tools_call ::
  "'w Net \<Rightarrow> Codec \<Rightarrow> Json_Text \<Rightarrow> nat \<Rightarrow> json \<Rightarrow> DaemonClient \<times> 'w \<Rightarrow>
     ((json, any_error) res \<times> DaemonClient \<times> 'w) option" where
  "tools_call net cd jt fuel params cw =
     (case Option.bind (json_get ''name'' params) as_str of
        None \<Rightarrow> Some (Err (Msg ''missing tool name''), cw)
      | Some name \<Rightarrow>
          (let args = (case json_get ''arguments'' params of Some v \<Rightarrow> v | None \<Rightarrow> JObject [])
           in case daemon_method name of
                None \<Rightarrow> Some (Err (Msg (''unknown tool: '' @ name)), cw)
              | Some meth \<Rightarrow>
                  (case call net cd fuel meth args cw of
                     None \<Rightarrow> None
                   | Some (Err e, cw1) \<Rightarrow> Some (Err e, cw1)
                   | Some (Panic m, cw1) \<Rightarrow> Some (Panic m, cw1)
                   | Some (Ok daemon_result, cw1) \<Rightarrow>
                       Some (Ok (JObject [(''content'', JArray [JObject [(''type'', JString ''text''),
                                             (''text'', JString (jt_pretty jt daemon_result))]]),
                                          (''isError'', JBool False)]), cw1))))"

definition server_info :: json where
  "server_info =
     JObject [(''protocolVersion'', JString ''2024-11-05''),
              (''capabilities'', JObject [(''tools'', JObject [])]),
              (''serverInfo'', JObject [(''name'', JString ''mcp-cli-bridge''), (''version'', JString ''0.1.0'')])]"

definition mcp_handle ::
  "'w Net \<Rightarrow> Codec \<Rightarrow> Json_Text \<Rightarrow> nat \<Rightarrow> string \<Rightarrow> json \<Rightarrow> DaemonClient \<times> 'w \<Rightarrow>
     ((json, any_error) res \<times> DaemonClient \<times> 'w) option" where
  "mcp_handle net cd jt fuel meth params cw =
     (if meth = ''initialize'' then Some (Ok server_info, cw)
      else if meth = ''tools/list'' then Some (Ok (JObject [(''tools'', JArray tool_definitions)]), cw)
      else if meth = ''tools/call'' then tools_call net cd jt fuel params cw
      else if meth = ''ping'' then Some (Ok (JObject []), cw)
      else Some (Err (Msg (''method not supported: '' @ meth)), cw))"

definition message_id :: "json \<Rightarrow> json" where
  "message_id req = (case json_get ''id'' req of Some v \<Rightarrow> v | None \<Rightarrow> JNull)"

definition message_method :: "json \<Rightarrow> string" where
  "message_method req = (case Option.bind (json_get ''method'' req) as_str of Some m \<Rightarrow> m | None \<Rightarrow> [])"

definition message_params :: "json \<Rightarrow> json" where
  "message_params req = (case json_get ''params'' req of Some v \<Rightarrow> v | None \<Rightarrow> JNull)"

definition is_notification :: "json \<Rightarrow> bool" where
  "is_notification req \<longleftrightarrow> message_id req = JNull \<and> starts_with ''notifications/'' (message_method req)"

definition result_message :: "json \<Rightarrow> json \<Rightarrow> json" where
  "result_message mid result =
     JObject [(''jsonrpc'', JString ''2.0''), (''id'', mid), (''result'', result)]"

definition error_message :: "json \<Rightarrow> int \<Rightarrow> string \<Rightarrow> json" where
  "error_message mid code msg =
     JObject [(''jsonrpc'', JString ''2.0''), (''id'', mid),
              (''error'', JObject [(''code'', JNumber (NegInt code)), (''message'', JString msg)])]"

definition respond ::
  "'w Net \<Rightarrow> Codec \<Rightarrow> Json_Text \<Rightarrow> nat \<Rightarrow> json \<Rightarrow> DaemonClient \<times> 'w \<Rightarrow>
     ((json, any_error) res \<times> DaemonClient \<times> 'w) option" where
  "respond net cd jt fuel req cw =
     (case mcp_handle net cd jt fuel (message_method req) (message_params req) cw of
        None \<Rightarrow> None
      | Some (Ok v, cw1) \<Rightarrow> Some (Ok (result_message (message_id req) v), cw1)
      | Some (Err e, cw1) \<Rightarrow> Some (Ok (error_message (message_id req) (-32000) (error_text net e)), cw1)
      | Some (Panic m, cw1) \<Rightarrow> Some (Panic m, cw1))"

text \<open>The loop of \<open>run\<close>; \<open>None\<close> is fuel exhausted in a call.\<close>

fun mcp_loop ::
  "'w Net \<Rightarrow> Codec \<Rightarrow> Json_Text \<Rightarrow> nat \<Rightarrow> string list \<Rightarrow> error_kind option \<Rightarrow> Writer \<Rightarrow> DaemonClient \<times> 'w \<Rightarrow>
     ((unit, any_error) res \<times> Writer \<times> DaemonClient \<times> 'w) option" where
  "mcp_loop net cd jt fuel [] eof out cw =
     Some (case eof of None \<Rightarrow> Ok () | Some k \<Rightarrow> Err (IoError k), out, cw)"
| "mcp_loop net cd jt fuel (line # lines) eof out cw =
     (if trim line = [] then mcp_loop net cd jt fuel lines eof out cw
      else case jt_parse jt line of
        Panic m \<Rightarrow> Some (Panic m, out, cw)
      | Err e \<Rightarrow>
          (case write_message jt out (error_message JNull (-32700) (''parse error: '' @ e)) of
             (Ok _, out1) \<Rightarrow> mcp_loop net cd jt fuel lines eof out1 cw
           | (Err e, out1) \<Rightarrow> Some (Err e, out1, cw)
           | (Panic m, out1) \<Rightarrow> Some (Panic m, out1, cw))
      | Ok req \<Rightarrow>
          if is_notification req then mcp_loop net cd jt fuel lines eof out cw
          else case respond net cd jt fuel req cw of
            None \<Rightarrow> None
          | Some (Err e, cw1) \<Rightarrow> Some (Err e, out, cw1)
          | Some (Panic m, cw1) \<Rightarrow> Some (Panic m, out, cw1)
          | Some (Ok response, cw1) \<Rightarrow>
              (case write_message jt out response of
                 (Ok _, out1) \<Rightarrow> mcp_loop net cd jt fuel lines eof out1 cw1
               | (Err e, out1) \<Rightarrow> Some (Err e, out1, cw1)
               | (Panic m, out1) \<Rightarrow> Some (Panic m, out1, cw1)))"

definition mcp_run ::
  "'w Net \<Rightarrow> Codec \<Rightarrow> Json_Text \<Rightarrow> nat \<Rightarrow> ConnectConfig \<Rightarrow> string list \<Rightarrow> error_kind option \<Rightarrow> Writer \<Rightarrow> 'w \<Rightarrow>
     ((unit, any_error) res \<times> Writer) option" where
  "mcp_run net cd jt fuel cfg lines eof out w =
     (case dc_connect net fuel cfg w of
        None \<Rightarrow> None
      | Some (Err e, w1) \<Rightarrow> Some (Err e, out)
      | Some (Panic m, w1) \<Rightarrow> Some (Panic m, out)
      | Some (Ok client, w1) \<Rightarrow>
          (case mcp_loop net cd jt fuel lines eof out (client, w1) of
             None \<Rightarrow> None
           | Some (r, out1, _) \<Rightarrow> Some (r, out1)))"

subsection \<open>Specification\<close>

text \<open>The lines that are answered, and the number the answer must carry.\<close>

definition answerable :: "Json_Text \<Rightarrow> string \<Rightarrow> bool" where
  "answerable jt line \<longleftrightarrow>
     trim line \<noteq> [] \<and> (case jt_parse jt line of Ok req \<Rightarrow> \<not> is_notification req | _ \<Rightarrow> True)"

definition answer_id :: "Json_Text \<Rightarrow> string \<Rightarrow> json" where
  "answer_id jt line = (case jt_parse jt line of Ok req \<Rightarrow> message_id req | _ \<Rightarrow> JNull)"

definition answer_shape :: "json \<Rightarrow> bool" where
  "answer_shape v \<longleftrightarrow> json_get ''jsonrpc'' v = Some (JString ''2.0'') \<and>
     ((json_get ''result'' v = None) \<noteq> (json_get ''error'' v = None))"

text \<open>Operations that answer or fail, and never panic.\<close>

definition calm :: "('a, 'e) res \<times> 'b \<Rightarrow> bool" where
  "calm x \<longleftrightarrow> (case fst x of Panic _ \<Rightarrow> False | _ \<Rightarrow> True)"

definition net_calm :: "'w Net \<Rightarrow> bool" where
  "net_calm net \<longleftrightarrow>
     (\<forall>s w. calm (net_connect net s w)) \<and> (\<forall>s b w. calm (net_write net s b w)) \<and>
     (\<forall>s w. calm (net_flush net s w)) \<and> (\<forall>s n w. calm (net_read net s n w)) \<and>
     (\<forall>p w. calm (net_ensure_socket_parent net p w)) \<and> (\<forall>p w. calm (net_open_append net p w)) \<and>
     (\<forall>n w. calm (net_try_clone net n w)) \<and> (\<forall>p as a b w. calm (net_spawn net p as a b w))"

definition codec_calm :: "Codec \<Rightarrow> Json_Text \<Rightarrow> bool" where
  "codec_calm cd jt \<longleftrightarrow>
     (\<forall>r m. cd_request cd r \<noteq> Panic m) \<and> (\<forall>b m. cd_response cd b \<noteq> Panic m) \<and>
     (\<forall>l m. jt_parse jt l \<noteq> Panic m)"

subsection \<open>Lemmas\<close>

lemma calm_simps [simp]: "calm (Ok a, w)" "calm (Err e, w)" "\<not> calm (Panic m, w)"
  by (simp_all add: calm_def)

lemma calm_io [simp]: "calm (io x) \<longleftrightarrow> calm x"
  by (cases x; cases "fst x") (simp_all add: io_def)

lemma calm_with_context [simp]: "calm (with_context c x) \<longleftrightarrow> calm x"
  by (cases x; cases "fst x") (simp_all add: with_context_def)

lemma calm_io_then: "calm x \<Longrightarrow> (\<And>a w. calm (f a w)) \<Longrightarrow> calm (io_then x f)"
  by (cases x; cases "fst x") (simp_all add: io_then_def)

lemma retry_loop_calm:
  assumes "net_calm net" "retry_loop net socket budget deadline fuel backoff w = Some x"
  shows "calm x"
  using assms(2)
proof (induction fuel arbitrary: backoff w)
  case (Suc fuel)
  obtain r w1 where c: "net_connect net socket w = (r, w1)" by (rule prod.exhaust)
  then have "calm (r, w1)" using assms(1) unfolding net_calm_def by metis
  then show ?case using Suc c by (cases r) (auto split: if_splits)
qed simp

lemma spawn_detached_calm: "net_calm net \<Longrightarrow> calm (spawn_detached net d r s l as w)"
  unfolding spawn_detached_def by (intro calm_io_then) (simp_all add: net_calm_def)

lemma connect_calm:
  assumes "net_calm net" "connect_with_autospawn net fuel cfg w = Some x"
  shows "calm x"
proof -
  have sp: "calm y" if sc: "spawn_and_connect net fuel cfg v = Some y" for v y
  proof -
    obtain r v1 where r: "with_context (''spawning '' @ from_utf8_lossy (resolve_daemon_bin net (cc_daemon_bin cfg) v))
        (spawn_detached net (resolve_daemon_bin net (cc_daemon_bin cfg) v) (cc_root cfg) (cc_socket cfg)
           (daemon_log_path (cc_socket cfg)) (cc_daemon_extra_args cfg) v) = (r, v1)"
      by (rule prod.exhaust)
    have "calm (r, v1)" unfolding r [symmetric] by (simp add: spawn_detached_calm assms(1))
    then show ?thesis
      using sc r retry_loop_calm [OF assms(1)]
      by (cases r) (auto simp: spawn_and_connect_def retry_connect_def Let_def)
  qed
  obtain r w1 where c: "net_connect net (cc_socket cfg) w = (r, w1)" by (rule prod.exhaust)
  then have "calm (r, w1)" using assms(1) unfolding net_calm_def by metis
  then show ?thesis
    using assms(2) c sp by (cases r) (auto simp: connect_with_autospawn_def split: if_splits)
qed

lemma exchange_calm:
  assumes "net_calm net" "\<And>b m. cd_response cd b \<noteq> Panic m"
  shows "calm (exchange net cd stream len payload w)"
  unfolding exchange_def Let_def
  using assms by (intro calm_io_then) (auto simp: net_calm_def intro!: calm_io_then split: res.splits option.splits)

lemma calm_iff: "calm (r, w) \<longleftrightarrow> (\<forall>m. r \<noteq> Panic m)"
  by (cases r) simp_all

lemma try_call_calm:
  assumes "net_calm net" "codec_calm cd jt" "try_call net cd fuel meth params cw = Some (r, cw')"
  shows "r \<noteq> Panic m"
proof -
  obtain c w where cw: "cw = (c, w)" by (rule prod.exhaust)
  have con: "connect_with_autospawn net fuel cfg v \<noteq> Some (Panic m', v')" for cfg v m' v'
    using connect_calm [OF assms(1)] by fastforce
  have ex: "exchange net cd s len p v \<noteq> (Panic m', v')" for s len p v m' v'
    using exchange_calm [OF assms(1), of cd s len p v] assms(2) by (auto simp: codec_calm_def)
  show ?thesis
    using assms(2,3) con ex
    by (auto simp: cw try_call_def codec_calm_def Let_def split: res.splits option.splits prod.splits)
qed

lemma call_calm:
  assumes "net_calm net" "codec_calm cd jt" "call net cd fuel meth params cw = Some (r, cw')"
  shows "r \<noteq> Panic m"
  using assms(3) try_call_calm [OF assms(1,2)]
  by (auto simp: call_def split: option.splits prod.splits res.splits if_splits)

lemma call_answers:
  assumes "clock_ok net" "11 \<le> fuel" "net_calm net" "codec_calm cd jt"
  shows "\<exists>r cw'. call net cd fuel meth params cw = Some (r, cw') \<and> calm (r, cw')"
proof -
  obtain x where x: "call net cd fuel meth params cw = Some x"
    using call_settles [OF assms(1)] assms(2) unfolding settles_def by blast
  then show ?thesis using call_calm [OF assms(3,4)] by (cases x) (auto simp: calm_iff)
qed

lemma message_shapes [simp]:
  "message_id (result_message i v) = i" "message_id (error_message i n s) = i"
  "answer_shape (result_message i v)" "answer_shape (error_message i n s)"
  by (simp_all add: message_id_def result_message_def error_message_def json_get_def answer_shape_def)

lemma respond_answers:
  assumes "clock_ok net" "11 \<le> fuel" "net_calm net" "codec_calm cd jt"
  shows "\<exists>v cw'. respond net cd jt fuel req cw = Some (Ok v, cw') \<and> message_id v = message_id req \<and> answer_shape v"
proof -
  have "\<exists>r cw'. tools_call net cd jt fuel params cw = Some (r, cw') \<and> calm (r, cw')" for params
  proof -
    let ?args = "case json_get ''arguments'' params of Some v \<Rightarrow> v | None \<Rightarrow> JObject []"
    have "\<exists>r cw'. call net cd fuel meth ?args cw = Some (r, cw') \<and> calm (r, cw')" for meth
      by (rule call_answers [OF assms])
    then obtain r cw' where "call net cd fuel meth ?args cw = Some (r meth, cw' meth)"
      "calm (r meth, cw' meth)" for meth by metis
    then show ?thesis
      by (auto simp: tools_call_def Let_def calm_iff split: option.splits res.splits)
  qed
  then have "\<exists>r cw'. mcp_handle net cd jt fuel (message_method req) (message_params req) cw = Some (r, cw') \<and> calm (r, cw')"
    by (simp add: mcp_handle_def)
  then obtain r cw' where "mcp_handle net cd jt fuel (message_method req) (message_params req) cw = Some (r, cw')"
    "calm (r, cw')" by blast
  then show ?thesis by (cases r) (simp_all add: respond_def)
qed

lemma write_message_unlimited:
  "wr_room out = None \<Longrightarrow> write_message jt out v = (Ok (), out\<lparr>wr_bytes := wr_bytes out @ jt_print jt v @ newline\<rparr>)"
  by (simp add: write_message_def write_two_unlimited)

lemma answered_line:
  assumes "clock_ok net" "11 \<le> fuel" "net_calm net" "codec_calm cd jt" "wr_room out = None"
  shows "\<exists>vs cw'. mcp_loop net cd jt fuel (line # lines) eof out cw =
                mcp_loop net cd jt fuel lines eof
                  (out\<lparr>wr_bytes := wr_bytes out @ concat (map (\<lambda>v. jt_print jt v @ newline) vs)\<rparr>) cw' \<and>
              map message_id vs = (if answerable jt line then [answer_id jt line] else []) \<and> list_all answer_shape vs"
proof (cases "answerable jt line")
  case False
  then show ?thesis
    using assms(4) by (intro exI [of _ "[]"] exI [of _ cw]) (auto simp: answerable_def codec_calm_def split: res.splits)
next
  case True
  then have ne: "trim line \<noteq> []" by (simp add: answerable_def)
  show ?thesis
  proof (cases "jt_parse jt line")
    case (Ok req)
    obtain v cw' where v: "respond net cd jt fuel req cw = Some (Ok v, cw')" "message_id v = message_id req" "answer_shape v"
      using respond_answers [OF assms(1-4)] by blast
    then show ?thesis
      using True ne Ok by (intro exI [of _ "[v]"] exI [of _ cw'])
        (simp add: answerable_def answer_id_def write_message_unlimited assms(5))
  next
    case (Err e)
    then show ?thesis
      using True ne by (intro exI [of _ "[error_message JNull (-32700) (''parse error: '' @ e)]"] exI [of _ cw])
        (simp add: answerable_def answer_id_def write_message_unlimited assms(5))
  next
    case (Panic m)
    then show ?thesis using assms(4) by (simp add: codec_calm_def)
  qed
qed

subsection \<open>Properties\<close>

text \<open>C12. The server answers every message but blank lines and notifications, malformed
  ones included, once and in the order of the messages, on a line of its own; the answer carries
  the message's number and either a result or an error. With input that ends, the server ends.\<close>

theorem mcp_answers_every_message:
  assumes "clock_ok net" "11 \<le> fuel" "net_calm net" "codec_calm cd jt" "wr_room out = None"
  shows "\<exists>vs cw'. mcp_loop net cd jt fuel lines eof out cw =
             Some (case eof of None \<Rightarrow> Ok () | Some k \<Rightarrow> Err (IoError k),
                   out\<lparr>wr_bytes := wr_bytes out @ concat (map (\<lambda>v. jt_print jt v @ newline) vs)\<rparr>, cw') \<and>
           map message_id vs = map (answer_id jt) (filter (answerable jt) lines) \<and> list_all answer_shape vs"
  using assms(5)
proof (induction lines arbitrary: out cw)
  case Nil
  then show ?case by (intro exI [of _ "[]"]) simp
next
  case (Cons line lines)
  let ?text = "\<lambda>vs. concat (map (\<lambda>v. jt_print jt v @ newline) vs)"
  obtain vs cw1 where 1: "mcp_loop net cd jt fuel (line # lines) eof out cw =
        mcp_loop net cd jt fuel lines eof (out\<lparr>wr_bytes := wr_bytes out @ ?text vs\<rparr>) cw1"
      "map message_id vs = (if answerable jt line then [answer_id jt line] else [])" "list_all answer_shape vs"
    using answered_line [OF assms(1-4) Cons.prems] by blast
  obtain vs' cw' where 2: "mcp_loop net cd jt fuel lines eof (out\<lparr>wr_bytes := wr_bytes out @ ?text vs\<rparr>) cw1 =
        Some (case eof of None \<Rightarrow> Ok () | Some k \<Rightarrow> Err (IoError k),
              out\<lparr>wr_bytes := (wr_bytes out @ ?text vs) @ ?text vs'\<rparr>, cw')"
      "map message_id vs' = map (answer_id jt) (filter (answerable jt) lines)" "list_all answer_shape vs'"
    using Cons.IH [of "out\<lparr>wr_bytes := wr_bytes out @ ?text vs\<rparr>" cw1] Cons.prems by auto
  show ?case
    using 1 2 by (intro exI [of _ "vs @ vs'"] exI [of _ cw']) simp
qed

definition demo_json :: Json_Text where
  "demo_json =
     \<lparr>jt_parse = (\<lambda>l. if l = ''x'' then Err ''bad''
                      else Ok (JObject [(''id'', JNumber (PosInt 7)), (''method'', JString ''ping'')])),
      jt_print = (\<lambda>_. ''m''), jt_pretty = (\<lambda>_. ''m'')\<rparr>"

lemma dead_net_ok: "clock_ok dead_net" "net_calm dead_net" "codec_calm name_codec demo_json"
  by (simp_all add: clock_ok_def net_calm_def codec_calm_def dead_net_def name_codec_def demo_json_def)

theorem mcp_answers_every_message_witness:
  "\<exists>vs cw'. mcp_loop dead_net name_codec demo_json 11 [''x'', '' '', ''p''] None empty_writer (some_client, 0) =
      Some (Ok (), empty_writer\<lparr>wr_bytes := concat (map (\<lambda>v. jt_print demo_json v @ newline) vs)\<rparr>, cw') \<and>
    map message_id vs = [JNull, JNumber (PosInt 7)]"
proof -
  have f: "filter (answerable demo_json) [''x'', '' '', ''p''] = [''x'', ''p'']"
    by (simp add: answerable_def demo_json_def trim_def trim_end_def trim_start.simps trim_back.simps ws_len_def
        ws_len_back_def byte_def is_notification_def message_id_def json_get_def)
  have i: "map (answer_id demo_json) [''x'', ''p''] = [JNull, JNumber (PosInt 7)]"
    by (simp add: answer_id_def demo_json_def message_id_def json_get_def)
  have e: "wr_room empty_writer = None" by (simp add: empty_writer_def)
  obtain vs cw' where "mcp_loop dead_net name_codec demo_json 11 [''x'', '' '', ''p''] None empty_writer (some_client, 0) =
      Some (case None of None \<Rightarrow> Ok () | Some k \<Rightarrow> Err (IoError k),
        empty_writer\<lparr>wr_bytes := wr_bytes empty_writer @ concat (map (\<lambda>v. jt_print demo_json v @ newline) vs)\<rparr>, cw')"
    "map message_id vs = [JNull, JNumber (PosInt 7)]"
    using mcp_answers_every_message [OF dead_net_ok(1) order_refl dead_net_ok(2,3) e,
        where lines = "[''x'', '' '', ''p'']" and eof = None and cw = "(some_client, 0)",
        unfolded f i] by (elim exE conjE)
  then show ?thesis
    by (intro exI [of _ vs] exI [of _ cw']) (simp add: empty_writer_def del: mcp_loop.simps)
qed

text \<open>The list of tools the server offers is the table of routes: each tool is listed once
  under the name it is called by and goes to a method of the daemon, every method but ping has a
  tool, each schema requires only properties it describes, and a call of a tool that is
  not listed is answered with an error and never reaches the daemon.\<close>

theorem tools_listed_and_routed:
  "map tool_name tool_definitions = map (\<lambda>r. Some (fst r)) tool_routes \<and> distinct (map fst tool_routes) \<and>
   PING # map snd tool_routes = all_methods \<and> list_all schema_ok tool_definitions \<and>
   (\<forall>name. Some name \<notin> set (map tool_name tool_definitions) \<longrightarrow>
      tools_call net cd jt fuel (JObject [(''name'', JString name)]) cw =
        Some (Err (Msg (''unknown tool: '' @ name)), cw))"
proof -
  have "daemon_method name = None" if "Some name \<notin> set (map tool_name tool_definitions)" for name
    using that unfolding tool_names daemon_method_def map_of_eq_None_iff by force
  then show ?thesis
    using tool_names distinct_tools routed_methods schemas_ok by (auto simp: tools_call_def json_get_def)
qed

theorem tools_listed_and_routed_witness:
  "tools_call dead_net name_codec demo_json 0 (JObject [(''name'', JString ''rm'')]) (some_client, 0) =
     Some (Err (Msg ''unknown tool: rm''), (some_client, 0))"
proof -
  have r: "Some ''rm'' \<notin> set (map tool_name tool_definitions)"
    unfolding tool_names by (simp add: tool_routes_def)
  have "\<forall>name. Some name \<notin> set (map tool_name tool_definitions) \<longrightarrow>
      tools_call dead_net name_codec demo_json 0 (JObject [(''name'', JString name)]) (some_client, 0) =
        Some (Err (Msg (''unknown tool: '' @ name)), (some_client, 0))"
    using tools_listed_and_routed [of dead_net name_codec demo_json 0 "(some_client, 0)"] by (elim conjE)
  from this [rule_format, OF r] show ?thesis by simp
qed

end
