(* ===== verification/Codex.thy ===== *)
theory Codex
  imports Bridge Mcp_Tools "HOL-Library.AList"
begin

text \<open>
  The registration with Codex, \<^verbatim>\<open>src/crates/mcp-cli/src/codex.rs\<close>: edits of the TOML document
  \<^verbatim>\<open>config.toml\<close>, and the handling of that file.

  TOML documents belong to the \<open>toml_edit\<close> crate. Its operations are the fields of a record
  \<open>Toml\<close>, over a type of tables \<open>'t\<close> (a document is a table) and a type of items \<open>'i\<close>;
  \<open>toml_laws\<close> states what the crate documents about them. A change made through a mutable
  reference into a table is the insertion of the changed table under its key.
\<close>

subsection \<open>TOML documents\<close>

record ('i, 't) Toml =
  tm_new :: 't
  tm_get :: "string \<Rightarrow> 't \<Rightarrow> 'i option"
  tm_insert :: "string \<Rightarrow> 'i \<Rightarrow> 't \<Rightarrow> 't"
  tm_remove :: "string \<Rightarrow> 't \<Rightarrow> 't"
  tm_is_empty :: "'t \<Rightarrow> bool"
  tm_table :: "'t \<Rightarrow> 'i"
  tm_as_table :: "'i \<Rightarrow> 't option"
  tm_str :: "string \<Rightarrow> 'i"
  tm_as_str :: "'i \<Rightarrow> string option"
  tm_bool :: "bool \<Rightarrow> 'i"
  tm_as_bool :: "'i \<Rightarrow> bool option"
  tm_empty_array :: 'i
  tm_parse :: "string \<Rightarrow> ('t, string) res"
  tm_print :: "'t \<Rightarrow> string"

definition toml_laws :: "('i, 't) Toml \<Rightarrow> bool" where
  "toml_laws T \<longleftrightarrow>
     (\<forall>k. tm_get T k (tm_new T) = None) \<and>
     (\<forall>k j v t. tm_get T k (tm_insert T j v t) = (if k = j then Some v else tm_get T k t)) \<and>
     (\<forall>k j t. tm_get T k (tm_remove T j t) = (if k = j then None else tm_get T k t)) \<and>
     (\<forall>t. tm_is_empty T t \<longleftrightarrow> (\<forall>k. tm_get T k t = None)) \<and>
     (\<forall>t. tm_as_table T (tm_table T t) = Some t) \<and>
     (\<forall>s. tm_as_str T (tm_str T s) = Some s) \<and>
     (\<forall>b. tm_as_bool T (tm_bool T b) = Some b)"

definition tm_sub :: "('i, 't) Toml \<Rightarrow> string \<Rightarrow> 't \<Rightarrow> 't option" where
  "tm_sub T k t = Option.bind (tm_get T k t) (tm_as_table T)"

definition tm_get_str :: "('i, 't) Toml \<Rightarrow> string \<Rightarrow> 't \<Rightarrow> string option" where
  "tm_get_str T k t = Option.bind (tm_get T k t) (tm_as_str T)"

subsection \<open>Edits\<close>

definition SERVER_NAME :: string where "SERVER_NAME = ''mcp-cli''"

definition MCP_CLI_TOOLS :: "string list" where
  "MCP_CLI_TOOLS =
     [''fs_read'', ''fs_read_batch'', ''fs_snapshot'', ''fs_changes'', ''fs_scan'', ''git_status'', ''search_grep'',
      ''code_outline'', ''code_outline_batch'', ''code_symbols'', ''code_symbols_batch'', ''metrics_gain'',
      ''metrics_tool_latency'']"

text \<open>The table the edits work on, and the document with it in place.\<close>

definition mcp_servers_table :: "('i, 't) Toml \<Rightarrow> 't \<Rightarrow> ('t \<times> 't, any_error) res" where
  "mcp_servers_table T doc =
     (let doc1 = (if tm_get T ''mcp_servers'' doc = None
                  then tm_insert T ''mcp_servers'' (tm_table T (tm_new T)) doc else doc)
      in case tm_sub T ''mcp_servers'' doc1 of
           Some servers \<Rightarrow> Ok (servers, doc1)
         | None \<Rightarrow> Panic ''just-inserted mcp_servers must be a table'')"

definition put_server :: "('i, 't) Toml \<Rightarrow> 't \<Rightarrow> 't \<Rightarrow> 't \<Rightarrow> 't" where
  "put_server T tbl servers doc =
     tm_insert T ''mcp_servers'' (tm_table T (tm_insert T SERVER_NAME (tm_table T tbl) servers)) doc"

definition fresh_server :: "('i, 't) Toml \<Rightarrow> string \<Rightarrow> 't" where
  "fresh_server T bridge_str =
     tm_insert T ''args'' (tm_empty_array T) (tm_insert T ''command'' (tm_str T bridge_str) (tm_new T))"

definition update_server :: "('i, 't) Toml \<Rightarrow> string \<Rightarrow> 't \<Rightarrow> 't \<times> bool" where
  "update_server T bridge_str tbl =
     (let current_cmd = (case tm_get_str T ''command'' tbl of Some s \<Rightarrow> s | None \<Rightarrow> []);
          (tbl1, changed1) =
            (if current_cmd \<noteq> bridge_str then (tm_insert T ''command'' (tm_str T bridge_str) tbl, True)
             else (tbl, False))
      in if tm_get T ''args'' tbl1 = None then (tm_insert T ''args'' (tm_empty_array T) tbl1, True)
         else (tbl1, changed1))"

definition upsert_server :: "('i, 't) Toml \<Rightarrow> 't \<Rightarrow> string \<Rightarrow> ('t \<times> bool, any_error) res" where
  "upsert_server T doc bridge =
     (let bridge_str = from_utf8_lossy bridge
      in res_bind (mcp_servers_table T doc) (\<lambda>(servers, doc1).
           case tm_get T SERVER_NAME servers of
             None \<Rightarrow> Ok (put_server T (fresh_server T bridge_str) servers doc1, True)
           | Some item \<Rightarrow>
               (case tm_as_table T item of
                  None \<Rightarrow> Ok (put_server T (fresh_server T bridge_str) servers doc1, True)
                | Some tbl \<Rightarrow>
                    (case update_server T bridge_str tbl of
                       (tbl1, changed) \<Rightarrow>
                         Ok (if changed then put_server T tbl1 servers doc1 else doc1, changed)))))"

fun approve_tools :: "('i, 't) Toml \<Rightarrow> string list \<Rightarrow> 't \<Rightarrow> bool \<Rightarrow> ('t \<times> bool, any_error) res" where
  "approve_tools T [] tools_tbl changed = Ok (tools_tbl, changed)"
| "approve_tools T (tool # tools) tools_tbl changed =
     (let tbl1 = (if tm_get T tool tools_tbl = None then tm_insert T tool (tm_table T (tm_new T)) tools_tbl
                  else tools_tbl)
      in case tm_sub T tool tbl1 of
           None \<Rightarrow> Panic ''tool entry must be a table''
         | Some entry \<Rightarrow>
             if tm_get_str T ''approval_mode'' entry \<noteq> Some ''approve''
             then approve_tools T tools
                    (tm_insert T tool (tm_table T (tm_insert T ''approval_mode'' (tm_str T ''approve'') entry)) tbl1) True
             else approve_tools T tools tbl1 changed)"

definition upsert_tool_approvals ::
  "('i, 't) Toml \<Rightarrow> 't \<Rightarrow> string list \<Rightarrow> ('t \<times> bool, any_error) res" where
  "upsert_tool_approvals T doc tools =
     res_bind (mcp_servers_table T doc) (\<lambda>(servers, doc1).
       case tm_sub T SERVER_NAME servers of
         None \<Rightarrow> Ok (doc1, False)
       | Some server_tbl \<Rightarrow>
           (let server1 = (if tm_get T ''tools'' server_tbl = None
                           then tm_insert T ''tools'' (tm_table T (tm_new T)) server_tbl else server_tbl)
            in case tm_sub T ''tools'' server1 of
                 None \<Rightarrow> Panic ''just-inserted tools must be a table''
               | Some tools_tbl \<Rightarrow>
                   res_bind (approve_tools T tools tools_tbl False) (\<lambda>(tools1, changed).
                     Ok (put_server T (tm_insert T ''tools'' (tm_table T tools1) server1) servers doc1, changed))))"

definition upsert_disable_shell_tool :: "('i, 't) Toml \<Rightarrow> 't \<Rightarrow> ('t \<times> bool, any_error) res" where
  "upsert_disable_shell_tool T doc =
     (let doc1 = (if tm_get T ''features'' doc = None
                  then tm_insert T ''features'' (tm_table T (tm_new T)) doc else doc)
      in case tm_sub T ''features'' doc1 of
           None \<Rightarrow> Panic ''just-inserted features must be a table''
         | Some features \<Rightarrow>
             if Option.bind (tm_get T ''shell_tool'' features) (tm_as_bool T) \<noteq> Some False
             then Ok (tm_insert T ''features''
                        (tm_table T (tm_insert T ''shell_tool'' (tm_bool T False) features)) doc1, True)
             else Ok (doc1, False))"

definition remove_server :: "('i, 't) Toml \<Rightarrow> 't \<Rightarrow> 't \<times> bool" where
  "remove_server T doc =
     (case tm_sub T ''mcp_servers'' doc of
        None \<Rightarrow> (doc, False)
      | Some servers \<Rightarrow>
          (if tm_get T SERVER_NAME servers = None then (doc, False)
           else let servers1 = tm_remove T SERVER_NAME servers
                in (if tm_is_empty T servers1 then tm_remove T ''mcp_servers'' doc
                    else tm_insert T ''mcp_servers'' (tm_table T servers1) doc, True)))"

definition has_server :: "('i, 't) Toml \<Rightarrow> 't \<Rightarrow> bool" where
  "has_server T doc \<longleftrightarrow> Option.bind (tm_sub T ''mcp_servers'' doc) (tm_get T SERVER_NAME) \<noteq> None"

text \<open>The edits of \<open>install\<close>.\<close>

definition install_edits :: "('i, 't) Toml \<Rightarrow> string \<Rightarrow> bool \<Rightarrow> 't \<Rightarrow> ('t \<times> bool, any_error) res" where
  "install_edits T bridge prefer_mcp doc =
     res_bind (upsert_server T doc bridge) (\<lambda>(doc1, changed1).
       if prefer_mcp then
         res_bind (upsert_tool_approvals T doc1 MCP_CLI_TOOLS) (\<lambda>(doc2, changed2).
         res_bind (upsert_disable_shell_tool T doc2) (\<lambda>(doc3, changed3).
           Ok (doc3, changed1 \<or> changed2 \<or> changed3)))
       else Ok (doc1, changed1))"

subsection \<open>What the document says\<close>

definition server_get :: "('i, 't) Toml \<Rightarrow> string \<Rightarrow> 't \<Rightarrow> 'i option" where
  "server_get T s doc = Option.bind (tm_sub T ''mcp_servers'' doc) (tm_get T s)"

definition server_of :: "('i, 't) Toml \<Rightarrow> 't \<Rightarrow> 't option" where
  "server_of T doc = Option.bind (server_get T SERVER_NAME doc) (tm_as_table T)"

definition approved :: "('i, 't) Toml \<Rightarrow> string \<Rightarrow> 't \<Rightarrow> bool" where
  "approved T tool tools_tbl \<longleftrightarrow>
     (case tm_sub T tool tools_tbl of
        Some entry \<Rightarrow> tm_get_str T ''approval_mode'' entry = Some ''approve''
      | None \<Rightarrow> False)"

lemma toml_lawsD [simp]:
  assumes "toml_laws T"
  shows "tm_get T k (tm_new T) = None"
    and "tm_get T k (tm_insert T j v t) = (if k = j then Some v else tm_get T k t)"
    and "tm_get T k (tm_remove T j t) = (if k = j then None else tm_get T k t)"
    and "tm_is_empty T t \<longleftrightarrow> (\<forall>k. tm_get T k t = None)"
    and "tm_as_table T (tm_table T t) = Some t"
    and "tm_as_str T (tm_str T s) = Some s"
    and "tm_as_bool T (tm_bool T b) = Some b"
  using assms unfolding toml_laws_def by auto

lemmas toml_defs = tm_sub_def tm_get_str_def server_get_def server_of_def put_server_def

lemma servers_table_Ok:
  assumes "toml_laws T" "mcp_servers_table T doc = Ok (servers, doc1)"
  shows "tm_sub T ''mcp_servers'' doc1 = Some servers" "k \<noteq> ''mcp_servers'' \<Longrightarrow> tm_get T k doc1 = tm_get T k doc"
    "server_get T s doc = tm_get T s servers" "tm_get T s servers \<noteq> None \<Longrightarrow> doc1 = doc"
  using assms by (auto simp: mcp_servers_table_def toml_defs Let_def split: if_splits option.splits)

lemma update_server:
  assumes "toml_laws T" "b \<noteq> []" "update_server T b tbl = (tbl', changed)"
  shows "tm_get_str T ''command'' tbl' = Some b" "tm_get T ''args'' tbl' \<noteq> None"
    "k \<notin> {''command'', ''args''} \<Longrightarrow> tm_get T k tbl' = tm_get T k tbl"
    "tm_get T ''args'' tbl \<noteq> None \<Longrightarrow> tm_get T ''args'' tbl' = tm_get T ''args'' tbl"
    "\<not> changed \<Longrightarrow> tbl' = tbl"
  using assms by (auto simp: update_server_def tm_get_str_def split: if_splits option.splits bind_splits)

lemma fresh_server:
  assumes "toml_laws T"
  shows "tm_get_str T ''command'' (fresh_server T b) = Some b" "tm_get T ''args'' (fresh_server T b) \<noteq> None"
  using assms by (auto simp: fresh_server_def tm_get_str_def)

lemma put_server:
  assumes "toml_laws T" "tm_sub T ''mcp_servers'' doc = Some servers"
  shows "server_of T (put_server T tbl servers doc) = Some tbl"
    "k \<noteq> ''mcp_servers'' \<Longrightarrow> tm_get T k (put_server T tbl servers doc) = tm_get T k doc"
    "s \<noteq> SERVER_NAME \<Longrightarrow> server_get T s (put_server T tbl servers doc) = tm_get T s servers"
    "tm_sub T ''mcp_servers'' (put_server T tbl servers doc) = Some (tm_insert T SERVER_NAME (tm_table T tbl) servers)"
  using assms by (auto simp: toml_defs)

text \<open>What a successful \<open>upsert_server\<close> did.\<close>

lemma upsert_server_cases:
  assumes "upsert_server T doc bridge = Ok (doc', changed)"
  obtains servers doc1 where "mcp_servers_table T doc = Ok (servers, doc1)" "tm_sub T SERVER_NAME servers = None"
      "doc' = put_server T (fresh_server T (from_utf8_lossy bridge)) servers doc1" "changed"
  | servers doc1 tbl tbl' where "mcp_servers_table T doc = Ok (servers, doc1)" "tm_sub T SERVER_NAME servers = Some tbl"
      "update_server T (from_utf8_lossy bridge) tbl = (tbl', changed)"
      "doc' = (if changed then put_server T tbl' servers doc1 else doc1)"
proof -
  obtain servers doc1 where st: "mcp_servers_table T doc = Ok (servers, doc1)"
    using assms by (cases "mcp_servers_table T doc") (auto simp: upsert_server_def Let_def)
  show ?thesis
  proof (cases "tm_sub T SERVER_NAME servers")
    case None
    then show ?thesis
      using assms st that(1) by (auto simp: upsert_server_def Let_def tm_sub_def split: option.splits bind_splits)
  next
    case (Some tbl)
    obtain tbl' c where u: "update_server T (from_utf8_lossy bridge) tbl = (tbl', c)" by (rule prod.exhaust)
    have "upsert_server T doc bridge = Ok (if c then put_server T tbl' servers doc1 else doc1, c)"
      using Some st u by (auto simp: upsert_server_def Let_def tm_sub_def split: option.splits bind_splits)
    then show ?thesis using assms st Some u that(2) by simp
  qed
qed

text \<open>The three states the edits establish; each makes its edit a no-op.\<close>

definition registered :: "('i, 't) Toml \<Rightarrow> string \<Rightarrow> 't \<Rightarrow> bool" where
  "registered T b doc \<longleftrightarrow>
     (\<exists>tbl. server_of T doc = Some tbl \<and> tm_get_str T ''command'' tbl = Some b \<and> tm_get T ''args'' tbl \<noteq> None)"

definition tools_approved :: "('i, 't) Toml \<Rightarrow> string list \<Rightarrow> 't \<Rightarrow> bool" where
  "tools_approved T tools doc \<longleftrightarrow>
     (\<exists>tbl tt. server_of T doc = Some tbl \<and> tm_sub T ''tools'' tbl = Some tt \<and> (\<forall>t \<in> set tools. approved T t tt))"

definition shell_off :: "('i, 't) Toml \<Rightarrow> 't \<Rightarrow> bool" where
  "shell_off T doc \<longleftrightarrow>
     (\<exists>f. tm_sub T ''features'' doc = Some f \<and>
          Option.bind (tm_get T ''shell_tool'' f) (tm_as_bool T) = Some False)"

lemma server_of_servers:
  assumes "server_of T doc = Some tbl"
  obtains servers where "mcp_servers_table T doc = Ok (servers, doc)" "tm_sub T ''mcp_servers'' doc = Some servers"
    "tm_sub T SERVER_NAME servers = Some tbl"
proof -
  obtain servers where "tm_sub T ''mcp_servers'' doc = Some servers" "tm_sub T SERVER_NAME servers = Some tbl"
    using assms by (auto simp: server_of_def server_get_def tm_sub_def split: bind_splits)
  moreover from this have "mcp_servers_table T doc = Ok (servers, doc)"
    by (auto simp: mcp_servers_table_def tm_sub_def Let_def split: bind_splits)
  ultimately show ?thesis using that by blast
qed

lemma upsert_server_noop:
  assumes "registered T (from_utf8_lossy bridge) doc"
  shows "upsert_server T doc bridge = Ok (doc, False)"
proof -
  obtain tbl where tbl: "server_of T doc = Some tbl" "tm_get_str T ''command'' tbl = Some (from_utf8_lossy bridge)"
    "tm_get T ''args'' tbl \<noteq> None" using assms by (auto simp: registered_def)
  obtain servers where sv: "mcp_servers_table T doc = Ok (servers, doc)" "tm_sub T SERVER_NAME servers = Some tbl"
    using server_of_servers [OF tbl(1)] by blast
  have "update_server T (from_utf8_lossy bridge) tbl = (tbl, False)"
    using tbl(2,3) by (simp add: update_server_def)
  then show ?thesis
    using sv by (auto simp: upsert_server_def Let_def tm_sub_def split: bind_splits)
qed

lemma upsert_server_registered:
  assumes "toml_laws T" "from_utf8_lossy bridge \<noteq> []" "upsert_server T doc bridge = Ok (doc', changed)"
  shows "registered T (from_utf8_lossy bridge) doc'"
  using assms(3)
proof (cases rule: upsert_server_cases)
  case (1 servers doc1)
  then show ?thesis
    using put_server(1) [OF assms(1) servers_table_Ok(1) [OF assms(1)]] fresh_server [OF assms(1)]
    by (auto simp: registered_def)
next
  case (2 servers doc1 tbl tbl')
  have "server_of T doc1 = Some tbl"
    using servers_table_Ok(1) [OF assms(1) 2(1)] 2(2) by (simp add: toml_defs)
  then show ?thesis
    using put_server(1) [OF assms(1) servers_table_Ok(1) [OF assms(1) 2(1)]] update_server [OF assms(1,2) 2(3)] 2(4)
    by (auto simp: registered_def)
qed

lemma approve_tools:
  assumes "toml_laws T"
  shows "approve_tools T tools tt ch = Ok (tt', ch') \<Longrightarrow>
     (\<forall>t. t \<in> set tools \<or> approved T t tt \<longrightarrow> approved T t tt')"
proof (induction tools arbitrary: tt ch)
  case (Cons tool tools)
  define tbl1 where "tbl1 = (if tm_get T tool tt = None then tm_insert T tool (tm_table T (tm_new T)) tt else tt)"
  obtain entry where e: "tm_sub T tool tbl1 = Some entry"
    using Cons.prems by (auto simp: tbl1_def Let_def split: option.splits)
  define tbl2 where "tbl2 =
    (if tm_get_str T ''approval_mode'' entry \<noteq> Some ''approve''
     then tm_insert T tool (tm_table T (tm_insert T ''approval_mode'' (tm_str T ''approve'') entry)) tbl1 else tbl1)"
  have rec: "\<exists>c. approve_tools T tools tbl2 c = Ok (tt', ch')"
    using Cons.prems e by (auto simp: tbl1_def tbl2_def Let_def split: if_splits)
  have "approved T t tbl2" if "t = tool \<or> approved T t tt" for t
    using that e assms by (auto simp: approved_def tbl1_def tbl2_def tm_sub_def tm_get_str_def split: if_splits)
  then show ?case using Cons.IH rec by auto
qed simp

lemma approve_tools_noop:
  "\<forall>t \<in> set tools. approved T t tt \<Longrightarrow> approve_tools T tools tt ch = Ok (tt, ch)"
  by (induction tools) (auto simp: approved_def tm_sub_def Let_def split: option.splits bind_splits)

lemma upsert_tool_approvals:
  assumes "toml_laws T" "upsert_tool_approvals T doc tools = Ok (doc', ch)" "registered T b doc"
  shows "registered T b doc'" "tools_approved T tools doc'" "k \<noteq> ''mcp_servers'' \<Longrightarrow> tm_get T k doc' = tm_get T k doc"
    "tools_approved T tools doc \<Longrightarrow> \<not> ch"
proof -
  obtain tbl where tbl: "server_of T doc = Some tbl" "tm_get_str T ''command'' tbl = Some b" "tm_get T ''args'' tbl \<noteq> None"
    using assms(3) by (auto simp: registered_def)
  obtain servers where sv: "mcp_servers_table T doc = Ok (servers, doc)" "tm_sub T ''mcp_servers'' doc = Some servers"
    "tm_sub T SERVER_NAME servers = Some tbl" using server_of_servers [OF tbl(1)] by blast
  define server1 where "server1 =
    (if tm_get T ''tools'' tbl = None then tm_insert T ''tools'' (tm_table T (tm_new T)) tbl else tbl)"
  obtain tt where tt: "tm_sub T ''tools'' server1 = Some tt"
    using assms(2) sv by (auto simp: upsert_tool_approvals_def server1_def Let_def split: option.splits)
  obtain tt' where tt': "approve_tools T tools tt False = Ok (tt', ch)"
      "doc' = put_server T (tm_insert T ''tools'' (tm_table T tt') server1) servers doc"
    using assms(2) sv tt by (cases "approve_tools T tools tt False") (auto simp: upsert_tool_approvals_def server1_def Let_def)
  note put = put_server [OF assms(1) sv(2), where tbl = "tm_insert T ''tools'' (tm_table T tt') server1", folded tt'(2)]
  show "registered T b doc'"
    using put(1) tbl(2,3) assms(1) by (auto simp: registered_def server1_def tm_get_str_def)
  show "tools_approved T tools doc'"
    using put(1) approve_tools [OF assms(1) tt'(1)] assms(1) by (auto simp: tools_approved_def tm_sub_def)
  show "k \<noteq> ''mcp_servers'' \<Longrightarrow> tm_get T k doc' = tm_get T k doc" by (rule put(2))
  show "\<not> ch" if "tools_approved T tools doc"
  proof -
    have "server1 = tbl" using that tbl(1) by (auto simp: tools_approved_def server1_def tm_sub_def)
    then have "\<forall>t \<in> set tools. approved T t tt" using that tbl(1) tt by (auto simp: tools_approved_def)
    then show ?thesis using approve_tools_noop tt'(1) by fastforce
  qed
qed

lemma upsert_tool_approvals_noop:
  assumes "tools_approved T tools doc"
  shows "\<exists>doc'. upsert_tool_approvals T doc tools = Ok (doc', False)"
proof -
  obtain tbl tt where tbl: "server_of T doc = Some tbl" "tm_sub T ''tools'' tbl = Some tt"
    "\<forall>t \<in> set tools. approved T t tt" using assms by (auto simp: tools_approved_def)
  obtain servers where sv: "mcp_servers_table T doc = Ok (servers, doc)" "tm_sub T SERVER_NAME servers = Some tbl"
    using server_of_servers [OF tbl(1)] by blast
  have "tm_get T ''tools'' tbl \<noteq> None" using tbl(2) by (auto simp: tm_sub_def split: bind_splits)
  then show ?thesis
    using sv tbl(2) approve_tools_noop [OF tbl(3)] by (auto simp: upsert_tool_approvals_def)
qed

lemma upsert_disable_shell_tool:
  assumes "toml_laws T" "upsert_disable_shell_tool T doc = Ok (doc', ch)"
  shows "shell_off T doc'" "k \<noteq> ''features'' \<Longrightarrow> tm_get T k doc' = tm_get T k doc"
  using assms
  by (auto simp: upsert_disable_shell_tool_def shell_off_def tm_sub_def Let_def split: if_splits option.splits)

lemma upsert_disable_shell_tool_noop: "shell_off T doc \<Longrightarrow> upsert_disable_shell_tool T doc = Ok (doc, False)"
  by (auto simp: upsert_disable_shell_tool_def shell_off_def tm_sub_def Let_def split: bind_splits)

lemma kept_by_other_keys:
  assumes "tm_get T ''mcp_servers'' doc' = tm_get T ''mcp_servers'' doc"
  shows "registered T b doc' = registered T b doc" "tools_approved T tools doc' = tools_approved T tools doc"
  using assms by (simp_all add: registered_def tools_approved_def toml_defs)

lemma shell_off_kept: "tm_get T ''features'' doc' = tm_get T ''features'' doc \<Longrightarrow> shell_off T doc' = shell_off T doc"
  by (simp add: shell_off_def tm_sub_def)

lemma install_edits_establish:
  assumes "toml_laws T" "from_utf8_lossy bridge \<noteq> []" "install_edits T bridge prefer_mcp doc = Ok (doc', ch)"
  shows "registered T (from_utf8_lossy bridge) doc'"
    and "prefer_mcp \<Longrightarrow> tools_approved T MCP_CLI_TOOLS doc' \<and> shell_off T doc'"
proof -
  obtain doc1 c1 where u: "upsert_server T doc bridge = Ok (doc1, c1)"
    using assms(3) by (cases "upsert_server T doc bridge") (auto simp: install_edits_def)
  note r1 = upsert_server_registered [OF assms(1,2) u]
  have *: "registered T (from_utf8_lossy bridge) doc' \<and> tools_approved T MCP_CLI_TOOLS doc' \<and> shell_off T doc'"
    if p: prefer_mcp
  proof -
    obtain doc2 c2 where a: "upsert_tool_approvals T doc1 MCP_CLI_TOOLS = Ok (doc2, c2)"
      using assms(3) u p by (cases "upsert_tool_approvals T doc1 MCP_CLI_TOOLS") (auto simp: install_edits_def)
    obtain c3 where d: "upsert_disable_shell_tool T doc2 = Ok (doc', c3)"
      using assms(3) u p a by (cases "upsert_disable_shell_tool T doc2") (auto simp: install_edits_def)
    note kept = kept_by_other_keys [OF upsert_disable_shell_tool(2) [OF assms(1) d, of "''mcp_servers''"]]
    show ?thesis
      using upsert_tool_approvals(1,2) [OF assms(1) a r1] upsert_disable_shell_tool(1) [OF assms(1) d] kept by simp
  qed
  show "registered T (from_utf8_lossy bridge) doc'"
    using * r1 assms(3) u by (cases prefer_mcp) (auto simp: install_edits_def)
  show "prefer_mcp \<Longrightarrow> tools_approved T MCP_CLI_TOOLS doc' \<and> shell_off T doc'" using * by blast
qed

lemma server_of_has_server: "server_of T doc = Some tbl \<Longrightarrow> has_server T doc"
  by (auto simp: has_server_def server_of_def server_get_def split: bind_splits)

subsection \<open>Properties of the edits\<close>

text \<open>Installing registers the bridge and touches nothing else: every other key of the
  document, every other server and every other setting of this server keeps its value, arguments
  the user has set survive, and an edit that reports no change has changed nothing.\<close>

theorem install_keeps_other_settings:
  assumes "toml_laws T" "from_utf8_lossy bridge \<noteq> []" "upsert_server T doc bridge = Ok (doc', changed)"
  shows "\<exists>tbl. server_of T doc' = Some tbl \<and> has_server T doc' \<and>
      tm_get_str T ''command'' tbl = Some (from_utf8_lossy bridge) \<and> tm_get T ''args'' tbl \<noteq> None \<and>
      (\<forall>k. k \<noteq> ''mcp_servers'' \<longrightarrow> tm_get T k doc' = tm_get T k doc) \<and>
      (\<forall>s. s \<noteq> SERVER_NAME \<longrightarrow> server_get T s doc' = server_get T s doc) \<and>
      (\<forall>old. server_of T doc = Some old \<longrightarrow>
         (\<forall>k. k \<notin> {''command'', ''args''} \<longrightarrow> tm_get T k tbl = tm_get T k old) \<and>
         (tm_get T ''args'' old \<noteq> None \<longrightarrow> tm_get T ''args'' tbl = tm_get T ''args'' old)) \<and>
      (\<not> changed \<longrightarrow> doc' = doc)"
  using assms(3)
proof (cases rule: upsert_server_cases)
  case (1 servers doc1)
  note st = servers_table_Ok [OF assms(1) 1(1)] and put = put_server [OF assms(1) servers_table_Ok(1) [OF assms(1) 1(1)]]
  have "server_of T doc = None" using st(3) 1(2) by (simp add: server_of_def tm_sub_def)
  then show ?thesis
    using st(2,3) put fresh_server [OF assms(1)] 1(3,4) by (auto dest: server_of_has_server)
next
  case (2 servers doc1 tbl tbl')
  note st = servers_table_Ok [OF assms(1) 2(1)] and put = put_server [OF assms(1) servers_table_Ok(1) [OF assms(1) 2(1)]]
  have old: "server_of T doc = Some tbl" using st(3) 2(2) by (simp add: server_of_def tm_sub_def)
  have "tm_get T SERVER_NAME servers \<noteq> None" using 2(2) by (auto simp: tm_sub_def split: bind_splits)
  then have doc1: "doc1 = doc" by (rule st(4))
  show ?thesis
  proof (cases changed)
    case True
    then show ?thesis
      using st(3) put [where tbl = tbl'] update_server [OF assms(1,2) 2(3)] 2(4) old doc1
      by (auto dest: server_of_has_server)
  next
    case False
    then show ?thesis
      using update_server [OF assms(1,2) 2(3)] 2(4) old doc1
      by (auto dest: server_of_has_server)
  qed
qed

text \<open>Installing twice is installing once: whatever the first run did, the second finds
  nothing to do, with and without the option that prefers the tools of the bridge.\<close>

theorem install_idempotent:
  assumes "toml_laws T" "from_utf8_lossy bridge \<noteq> []" "install_edits T bridge prefer_mcp doc = Ok (doc', changed)"
  shows "\<exists>doc''. install_edits T bridge prefer_mcp doc' = Ok (doc'', False)"
proof -
  note est = install_edits_establish [OF assms]
  note u = upsert_server_noop [OF est(1)]
  show ?thesis
  proof (cases prefer_mcp)
    case False
    then show ?thesis using u by (simp add: install_edits_def)
  next
    case True
    then obtain doc2 where a: "upsert_tool_approvals T doc' MCP_CLI_TOOLS = Ok (doc2, False)"
      using upsert_tool_approvals_noop [where T = T and doc = doc' and tools = MCP_CLI_TOOLS] est(2) by auto
    have "shell_off T doc2"
      using est(2) [OF True] shell_off_kept [OF upsert_tool_approvals(3) [OF assms(1) a est(1), of "''features''"]] by simp
    from upsert_disable_shell_tool_noop [OF this] show ?thesis using True u a by (simp add: install_edits_def)
  qed
qed


text \<open>A document whose table of servers is not a table, as one written inline, makes the
  installer panic.\<close>

lemma inline_servers_panic:
  "tm_get T ''mcp_servers'' doc = Some item \<Longrightarrow> tm_as_table T item = None \<Longrightarrow>
     upsert_server T doc bridge = Panic ''just-inserted mcp_servers must be a table''"
  by (simp add: upsert_server_def mcp_servers_table_def tm_sub_def)

text \<open>The list of tools that are approved on request is not the list of tools the bridge
  offers: it names thirteen of them, and sixteen, among them every writing tool, stay
  unapproved.\<close>

theorem approvals_out_of_sync:
  "set MCP_CLI_TOOLS \<subseteq> fst ` set tool_routes \<and> length MCP_CLI_TOOLS = 13 \<and>
   length (filter (\<lambda>r. fst r \<notin> set MCP_CLI_TOOLS) tool_routes) = 16 \<and>
   {''fs_apply_patch'', ''fs_replace_all'', ''tool_run'', ''pipe''} \<inter> set MCP_CLI_TOOLS = {}"
  by (auto simp: MCP_CLI_TOOLS_def tool_routes_def)

subsection \<open>An instance\<close>

text \<open>Documents as association lists, to show that the laws can hold.\<close>

datatype demo_item = D_Str string | D_Bool bool | D_Array | D_Table "(string \<times> demo_item) list"

definition demo_toml :: "(demo_item, (string \<times> demo_item) list) Toml" where
  "demo_toml =
     \<lparr>tm_new = [],
      tm_get = (\<lambda>k t. map_of t k),
      tm_insert = AList.update,
      tm_remove = AList.delete,
      tm_is_empty = (\<lambda>t. t = []),
      tm_table = D_Table,
      tm_as_table = (\<lambda>i. case i of D_Table t \<Rightarrow> Some t | _ \<Rightarrow> None),
      tm_str = D_Str,
      tm_as_str = (\<lambda>i. case i of D_Str s \<Rightarrow> Some s | _ \<Rightarrow> None),
      tm_bool = D_Bool,
      tm_as_bool = (\<lambda>i. case i of D_Bool b \<Rightarrow> Some b | _ \<Rightarrow> None),
      tm_empty_array = D_Array,
      tm_parse = (\<lambda>s. if s = [] then Ok [] else Err ''not TOML''),
      tm_print = (\<lambda>_. ''toml'')\<rparr>"

lemma demo_toml_laws: "toml_laws demo_toml"
proof -
  have "t = [] \<longleftrightarrow> (\<forall>k. map_of t k = None)" for t :: "(string \<times> demo_item) list"
    by (cases t) (auto split: if_splits)
  then show ?thesis
    by (auto simp: toml_laws_def demo_toml_def AList.update_conv' delete_conv')
qed

lemma demo_bridge: "from_utf8_lossy ''/b'' = ''/b''"
  by (simp add: from_utf8_lossy.simps utf8_scan_def byte_at_def byte_def)

lemma demo_upsert:
  "upsert_server demo_toml [] ''/b'' =
     Ok ([(''mcp_servers'', D_Table [(''mcp-cli'', D_Table [(''command'', D_Str ''/b''), (''args'', D_Array)])])], True)"
  by (simp add: upsert_server_def demo_bridge mcp_servers_table_def put_server_def fresh_server_def tm_sub_def
      demo_toml_def SERVER_NAME_def)

theorem install_keeps_other_settings_witness:
  "\<exists>tbl. server_of demo_toml
      [(''mcp_servers'', D_Table [(''mcp-cli'', D_Table [(''command'', D_Str ''/b''), (''args'', D_Array)])])] = Some tbl \<and>
    tm_get_str demo_toml ''command'' tbl = Some ''/b''"
  using install_keeps_other_settings [OF demo_toml_laws _ demo_upsert] demo_bridge by auto

theorem install_idempotent_witness:
  "\<exists>doc''. install_edits demo_toml ''/b'' False
      [(''mcp_servers'', D_Table [(''mcp-cli'', D_Table [(''command'', D_Str ''/b''), (''args'', D_Array)])])] = Ok (doc'', False)"
proof -
  have "install_edits demo_toml ''/b'' False [] =
      Ok ([(''mcp_servers'', D_Table [(''mcp-cli'', D_Table [(''command'', D_Str ''/b''), (''args'', D_Array)])])], True)"
    by (simp add: install_edits_def demo_upsert)
  from install_idempotent [OF demo_toml_laws _ this] show ?thesis by (simp add: demo_bridge)
qed


end
