(* ===== verification/Installer.thy ===== *)
theory Installer
  imports Codex
begin

text \<open>
  The installer, \<^verbatim>\<open>src/crates/mcp-cli/src/main.rs\<close>, with its two targets: the file handling of
  \<^verbatim>\<open>src/crates/mcp-cli/src/codex.rs\<close>, whose edits are in \<open>Codex\<close>, and
  \<^verbatim>\<open>src/crates/mcp-cli/src/claude_code.rs\<close>, which runs the \<open>claude\<close> command.

  Files, the environment, other programs and the terminal are operations on a world \<open>'w\<close>,
  collected in a record \<open>Host\<close>. \<open>fs_laws\<close> states what is relied on of the file system.
\<close>

subsection \<open>The outside\<close>

record 'w Host =
  ho_var :: "string \<Rightarrow> 'w \<Rightarrow> string option"
  ho_exists :: "string \<Rightarrow> 'w \<Rightarrow> bool"
  ho_is_file :: "string \<Rightarrow> 'w \<Rightarrow> bool"
  ho_read_to_string :: "string \<Rightarrow> 'w \<Rightarrow> (string, error_kind) res"
  ho_create_dir_all :: "string \<Rightarrow> 'w \<Rightarrow> (unit, error_kind) res \<times> 'w"
  ho_write :: "string \<Rightarrow> string \<Rightarrow> 'w \<Rightarrow> (unit, error_kind) res \<times> 'w"
  ho_rename :: "string \<Rightarrow> string \<Rightarrow> 'w \<Rightarrow> (unit, error_kind) res \<times> 'w"
  ho_canonicalize :: "string \<Rightarrow> 'w \<Rightarrow> (string, error_kind) res"
  ho_current_exe :: "'w \<Rightarrow> (string, error_kind) res"
  ho_run :: "string \<Rightarrow> string list \<Rightarrow> 'w \<Rightarrow> (bool \<times> string \<times> string, error_kind) res \<times> 'w"
  ho_println :: "string \<Rightarrow> 'w \<Rightarrow> 'w"
  ho_eprintln :: "string \<Rightarrow> 'w \<Rightarrow> 'w"
  ho_err_str :: "error_kind \<Rightarrow> string"

text \<open>\<open>ho_run\<close> answers whether the program succeeded, the text of its exit status and what it
  printed. A finished operation with a message.\<close>

definition say :: "'w Host \<Rightarrow> string \<Rightarrow> 'w \<Rightarrow> (unit, any_error) res \<times> 'w" where
  "say ho msg w = (Ok (), ho_println ho msg w)"

definition em_dash :: string where "em_dash = [CHR 0xE2, CHR 0x80, CHR 0x94]"
definition backtick :: string where "backtick = [CHR 0x60]"

text \<open>\<open>Path::parent\<close> and \<open>Path::display\<close>.\<close>

definition path_parent :: "string \<Rightarrow> string option" where
  "path_parent p =
     (let t = rev (trim_path (rev p))
      in if path_components t = [] then None
         else Some (rev (trim_path (dropWhile (\<lambda>c. c \<noteq> CHR ''/'') (rev t)))))"

definition display :: "string \<Rightarrow> string" where
  "display p = from_utf8_lossy p"

subsection \<open>The configuration file of Codex\<close>

definition config_path :: "'w Host \<Rightarrow> 'w \<Rightarrow> (string, any_error) res" where
  "config_path ho w =
     (case ho_var ho ''CODEX_HOME'' w of
        Some codex_home \<Rightarrow> Ok (path_join codex_home ''config.toml'')
      | None \<Rightarrow>
          (case ho_var ho ''HOME'' w of
             None \<Rightarrow> Err (Msg ''HOME is not set'')
           | Some home \<Rightarrow> Ok (path_join (path_join home ''.codex'') ''config.toml'')))"

definition read_or_empty :: "'w Host \<Rightarrow> string \<Rightarrow> 'w \<Rightarrow> (string, any_error) res \<times> 'w" where
  "read_or_empty ho path w =
     (if \<not> ho_exists ho path w then (Ok [], w)
      else with_context (''reading '' @ display path) (io (ho_read_to_string ho path w, w)))"

definition toml_tmp :: "string \<Rightarrow> string" where
  "toml_tmp path = set_extension path ''toml.tmp''"

definition write_atomic :: "'w Host \<Rightarrow> string \<Rightarrow> string \<Rightarrow> 'w \<Rightarrow> (unit, any_error) res \<times> 'w" where
  "write_atomic ho path content w =
     io_then (case path_parent path of
                None \<Rightarrow> (Ok (), w)
              | Some parent \<Rightarrow>
                  with_context (''creating '' @ display parent) (io (ho_create_dir_all ho parent w))) (\<lambda>_ w.
       let tmp = toml_tmp path
       in io_then (with_context (''writing '' @ display tmp) (io (ho_write ho tmp content w))) (\<lambda>_ w.
            with_context (''renaming '' @ display tmp @ '' -> '' @ display path) (io (ho_rename ho tmp path w))))"

definition parse_doc :: "('i, 't) Toml \<Rightarrow> string \<Rightarrow> string \<Rightarrow> 'w \<Rightarrow> ('t, any_error) res \<times> 'w" where
  "parse_doc T path original w =
     with_context (''parsing '' @ display path)
       (case tm_parse T original of Ok d \<Rightarrow> Ok d | Err e \<Rightarrow> Err (Msg e) | Panic m \<Rightarrow> Panic m, w)"

record InstallOpts =
  io_bridge :: string
  io_dry_run :: bool
  io_prefer_mcp :: bool

definition codex_install :: "'w Host \<Rightarrow> ('i, 't) Toml \<Rightarrow> InstallOpts \<Rightarrow> 'w \<Rightarrow> (unit, any_error) res \<times> 'w" where
  "codex_install ho T opts w =
     io_then (config_path ho w, w) (\<lambda>path w.
     io_then (read_or_empty ho path w) (\<lambda>original w.
     io_then (parse_doc T path original w) (\<lambda>doc w.
     io_then (install_edits T (io_bridge opts) (io_prefer_mcp opts) doc, w) (\<lambda>(doc1, changed) w.
       if \<not> changed then say ho (''codex: '' @ SERVER_NAME @ '' already registered '' @ em_dash @ '' nothing to do.'') w
       else let updated = tm_print T doc1
            in if io_dry_run opts
               then say ho updated (ho_println ho ''---- updated ----'' (ho_println ho original
                      (ho_println ho ''---- current ----''
                        (ho_println ho (''codex: would write '' @ display path @ '':'') w))))
               else io_then (with_context (''writing '' @ display path) (write_atomic ho path updated w)) (\<lambda>_ w.
                      say ho (''codex: registered '' @ SERVER_NAME @ '' -> '' @ display (io_bridge opts) @
                              '' (in '' @ display path @ '')'') w)))))"

definition codex_uninstall :: "'w Host \<Rightarrow> ('i, 't) Toml \<Rightarrow> bool \<Rightarrow> 'w \<Rightarrow> (unit, any_error) res \<times> 'w" where
  "codex_uninstall ho T dry_run w =
     io_then (config_path ho w, w) (\<lambda>path w.
       if \<not> ho_exists ho path w
       then say ho (''codex: '' @ display path @ '' does not exist '' @ em_dash @ '' nothing to do.'') w
       else
     io_then (read_or_empty ho path w) (\<lambda>original w.
     io_then (parse_doc T path original w) (\<lambda>doc w.
       case remove_server T doc of (doc1, removed) \<Rightarrow>
         if \<not> removed then say ho (''codex: '' @ SERVER_NAME @ '' not registered '' @ em_dash @ '' nothing to do.'') w
         else let updated = tm_print T doc1
              in if dry_run
                 then say ho updated (ho_println ho (''codex: would write '' @ display path @ '':'') w)
                 else io_then (with_context (''writing '' @ display path) (write_atomic ho path updated w)) (\<lambda>_ w.
                        say ho (''codex: removed '' @ SERVER_NAME @ '' from '' @ display path) w))))"

definition codex_status :: "'w Host \<Rightarrow> ('i, 't) Toml \<Rightarrow> 'w \<Rightarrow> (unit, any_error) res \<times> 'w" where
  "codex_status ho T w =
     io_then (config_path ho w, w) (\<lambda>path w.
       if \<not> ho_exists ho path w
       then say ho (''codex: '' @ SERVER_NAME @ '' is NOT registered (no config file).'') w
       else
     io_then (read_or_empty ho path w) (\<lambda>original w.
     io_then (parse_doc T path original w) (\<lambda>doc w.
       if has_server T doc then say ho (''codex: '' @ SERVER_NAME @ '' is registered.'') w
       else say ho (''codex: '' @ SERVER_NAME @ '' is NOT registered.'') w)))"

subsection \<open>The command of Claude Code\<close>

fun find_in_dirs :: "'w Host \<Rightarrow> string list \<Rightarrow> 'w \<Rightarrow> string option" where
  "find_in_dirs ho [] w = None"
| "find_in_dirs ho (dir # dirs) w =
     (let candidate = path_join dir ''claude''
      in if ho_is_file ho candidate w then Some (display candidate) else find_in_dirs ho dirs w)"

definition find_claude_cli :: "'w Host \<Rightarrow> 'w \<Rightarrow> string option" where
  "find_claude_cli ho w =
     (case ho_var ho ''PATH'' w of
        None \<Rightarrow> None
      | Some path_var \<Rightarrow> find_in_dirs ho (split_on (CHR '':'') path_var) w)"

definition names_server :: "string \<Rightarrow> bool" where
  "names_server line \<longleftrightarrow>
     (let trimmed = trim_start line
      in starts_with (SERVER_NAME @ '':'') trimmed \<or> starts_with (SERVER_NAME @ '' '') trimmed)"

definition is_registered :: "'w Host \<Rightarrow> string \<Rightarrow> 'w \<Rightarrow> (bool, any_error) res \<times> 'w" where
  "is_registered ho claude w =
     io_then (with_context (''running '' @ claude @ '' mcp list'') (io (ho_run ho claude [''mcp'', ''list''] w)))
       (\<lambda>(success, _, stdout) w.
          (Ok (success \<and> list_ex names_server (str_lines (from_utf8_lossy stdout))), w))"

definition claude_install :: "'w Host \<Rightarrow> InstallOpts \<Rightarrow> 'w \<Rightarrow> (unit, any_error) res \<times> 'w" where
  "claude_install ho opts w =
     (case find_claude_cli ho w of
        None \<Rightarrow>
          (Ok (), ho_eprintln ho (''  To register manually, run: claude mcp add '' @ SERVER_NAME @ '' '' @ display (io_bridge opts))
             (ho_eprintln ho (''claude-code: '' @ backtick @ ''claude'' @ backtick @ '' CLI not found on PATH. Skipping.'') w))
      | Some claude \<Rightarrow>
          io_then (is_registered ho claude w) (\<lambda>registered w.
            if registered
            then say ho (''claude-code: '' @ SERVER_NAME @ '' already registered '' @ em_dash @ '' nothing to do.'') w
            else if io_dry_run opts
            then say ho (''claude-code: would run '' @ backtick @ claude @ '' mcp add '' @ SERVER_NAME @ '' '' @
                         display (io_bridge opts) @ backtick) w
            else
          io_then (with_context (''running '' @ claude @ '' mcp add'')
                     (io (ho_run ho claude [''mcp'', ''add'', SERVER_NAME, io_bridge opts] w)))
            (\<lambda>(success, status, _) w.
               if \<not> success then (Err (Msg (backtick @ ''claude mcp add'' @ backtick @ '' exited with '' @ status)), w)
               else say ho (''claude-code: registered '' @ SERVER_NAME @ '' -> '' @ display (io_bridge opts)) w)))"

definition claude_uninstall :: "'w Host \<Rightarrow> bool \<Rightarrow> 'w \<Rightarrow> (unit, any_error) res \<times> 'w" where
  "claude_uninstall ho dry_run w =
     (case find_claude_cli ho w of
        None \<Rightarrow>
          (Ok (), ho_eprintln ho (''claude-code: '' @ backtick @ ''claude'' @ backtick @ '' CLI not found on PATH. Skipping.'') w)
      | Some claude \<Rightarrow>
          io_then (is_registered ho claude w) (\<lambda>registered w.
            if \<not> registered
            then say ho (''claude-code: '' @ SERVER_NAME @ '' not registered '' @ em_dash @ '' nothing to do.'') w
            else if dry_run
            then say ho (''claude-code: would run '' @ backtick @ claude @ '' mcp remove '' @ SERVER_NAME @ backtick) w
            else
          io_then (with_context (''running '' @ claude @ '' mcp remove'')
                     (io (ho_run ho claude [''mcp'', ''remove'', SERVER_NAME] w)))
            (\<lambda>(success, status, _) w.
               if \<not> success then (Err (Msg (backtick @ ''claude mcp remove'' @ backtick @ '' exited with '' @ status)), w)
               else say ho (''claude-code: removed '' @ SERVER_NAME) w)))"

definition claude_status :: "'w Host \<Rightarrow> 'w \<Rightarrow> (unit, any_error) res \<times> 'w" where
  "claude_status ho w =
     (case find_claude_cli ho w of
        None \<Rightarrow> say ho (''claude-code: '' @ backtick @ ''claude'' @ backtick @ '' CLI not found on PATH.'') w
      | Some claude \<Rightarrow>
          io_then (is_registered ho claude w) (\<lambda>registered w.
            if registered then say ho (''claude-code: '' @ SERVER_NAME @ '' is registered.'') w
            else say ho (''claude-code: '' @ SERVER_NAME @ '' is NOT registered.'') w))"

subsection \<open>The commands\<close>

datatype Target = ClaudeCode | Codex | All

fun target_iter :: "Target \<Rightarrow> Target list" where
  "target_iter All = [ClaudeCode, Codex]"
| "target_iter t = [t]"

fun target_name :: "Target \<Rightarrow> string" where
  "target_name ClaudeCode = ''claude-code''"
| "target_name Codex = ''codex''"
| "target_name All = ''all''"

fun error_chain :: "'w Host \<Rightarrow> any_error \<Rightarrow> string" where
  "error_chain ho (Msg s) = s"
| "error_chain ho (IoError k) = ho_err_str ho k"
| "error_chain ho (WithContext c e) = c @ '': '' @ error_chain ho e"

fun run_targets ::
  "'w Host \<Rightarrow> Target list \<Rightarrow> (Target \<Rightarrow> 'w \<Rightarrow> (unit, any_error) res \<times> 'w) \<Rightarrow> any_error option \<Rightarrow> 'w \<Rightarrow>
     (unit, any_error) res \<times> 'w" where
  "run_targets ho [] f first_err w = (case first_err of Some e \<Rightarrow> Err e | None \<Rightarrow> Ok (), w)"
| "run_targets ho (t # ts) f first_err w =
     (case f t w of
        (Panic m, w1) \<Rightarrow> (Panic m, w1)
      | (Ok _, w1) \<Rightarrow> run_targets ho ts f first_err w1
      | (Err e, w1) \<Rightarrow>
          run_targets ho ts f (case first_err of None \<Rightarrow> Some e | Some _ \<Rightarrow> first_err)
            (ho_eprintln ho (target_name t @ '': '' @ error_chain ho e) w1))"

definition run_each ::
  "'w Host \<Rightarrow> Target \<Rightarrow> (Target \<Rightarrow> 'w \<Rightarrow> (unit, any_error) res \<times> 'w) \<Rightarrow> 'w \<Rightarrow> (unit, any_error) res \<times> 'w" where
  "run_each ho target f w = run_targets ho (target_iter target) f None w"

definition bridge_fallback :: string where
  "bridge_fallback = ''warning: mcp-cli-bridge not found next to mcp-cli; falling back to bare name. '' @
     ''Agents must find it on PATH or you should pass --bridge-path.''"

definition resolve_bridge_path :: "'w Host \<Rightarrow> string option \<Rightarrow> 'w \<Rightarrow> (string, any_error) res \<times> 'w" where
  "resolve_bridge_path ho explicit w =
     (case explicit of
        Some p \<Rightarrow> with_context (''canonicalize '' @ display p) (io (ho_canonicalize ho p w, w))
      | None \<Rightarrow>
          io_then (with_context ''resolving current_exe'' (io (ho_current_exe ho w, w))) (\<lambda>self_exe w.
            let fallback = (Ok (bin_name ''mcp-cli-bridge''), ho_eprintln ho bridge_fallback w)
            in case path_parent self_exe of
                 None \<Rightarrow> fallback
               | Some parent \<Rightarrow>
                   (let candidate = path_join parent (bin_name ''mcp-cli-bridge'')
                    in if ho_exists ho candidate w
                       then with_context (''canonicalize '' @ display candidate) (io (ho_canonicalize ho candidate w, w))
                       else fallback)))"

datatype Command =
    Install Target "string option" bool bool
  | Uninstall Target bool
  | Status Target

definition cli_main :: "'w Host \<Rightarrow> ('i, 't) Toml \<Rightarrow> Command \<Rightarrow> 'w \<Rightarrow> (unit, any_error) res \<times> 'w" where
  "cli_main ho T cmd w =
     (case cmd of
        Install target bridge_path dry_run prefer_mcp \<Rightarrow>
          io_then (resolve_bridge_path ho bridge_path w) (\<lambda>bridge w.
            let opts = \<lparr>io_bridge = bridge, io_dry_run = dry_run, io_prefer_mcp = prefer_mcp\<rparr>
            in run_each ho target (\<lambda>t w. case t of
                 ClaudeCode \<Rightarrow> claude_install ho opts w
               | Codex \<Rightarrow> codex_install ho T opts w
               | All \<Rightarrow> (Panic ''internal error: entered unreachable code'', w)) w)
      | Uninstall target dry_run \<Rightarrow>
          run_each ho target (\<lambda>t w. case t of
              ClaudeCode \<Rightarrow> claude_uninstall ho dry_run w
            | Codex \<Rightarrow> codex_uninstall ho T dry_run w
            | All \<Rightarrow> (Panic ''internal error: entered unreachable code'', w)) w
      | Status target \<Rightarrow>
          run_each ho target (\<lambda>t w. case t of
              ClaudeCode \<Rightarrow> claude_status ho w
            | Codex \<Rightarrow> codex_status ho T w
            | All \<Rightarrow> (Panic ''internal error: entered unreachable code'', w)) w)"

subsection \<open>The file system\<close>

text \<open>What is relied on: messages and directories leave the contents of files alone, writing a
  file leaves the other files alone, and renaming replaces the target or does nothing.\<close>

definition fs_laws :: "'w Host \<Rightarrow> ('w \<Rightarrow> string \<Rightarrow> string option) \<Rightarrow> bool" where
  "fs_laws ho content \<longleftrightarrow>
     (\<forall>m w. content (ho_println ho m w) = content w) \<and>
     (\<forall>p w. content (snd (ho_create_dir_all ho p w)) = content w) \<and>
     (\<forall>p s w q. q \<noteq> p \<longrightarrow> content (snd (ho_write ho p s w)) q = content w q) \<and>
     (\<forall>p s w u. fst (ho_write ho p s w) = Ok u \<longrightarrow> content (snd (ho_write ho p s w)) p = Some s) \<and>
     (\<forall>a b w u. fst (ho_rename ho a b w) = Ok u \<longrightarrow>
        content (snd (ho_rename ho a b w)) = (content w)(a := None, b := content w a)) \<and>
     (\<forall>a b w. (\<forall>u. fst (ho_rename ho a b w) \<noteq> Ok u) \<longrightarrow> content (snd (ho_rename ho a b w)) = content w) \<and>
     (\<forall>p w. \<not> ho_exists ho p w \<longrightarrow> content w p = None) \<and>
     (\<forall>p w s. ho_read_to_string ho p w = Ok s \<longrightarrow> content w p = Some s)"

lemma snd_io [simp]: "snd (io x) = snd x"
  by (simp add: io_def)

lemma snd_with_context [simp]: "snd (with_context c x) = snd x"
  by (simp add: with_context_def)

lemma fst_io [simp]: "fst (io x) = Ok a \<longleftrightarrow> fst x = Ok a"
  by (cases "fst x") (simp_all add: io_def)

lemma fst_with_context [simp]: "fst (with_context c x) = Ok a \<longleftrightarrow> fst x = Ok a"
  by (cases "fst x") (simp_all add: with_context_def)

lemma snd_io_then: "snd (io_then x f) = (case fst x of Ok a \<Rightarrow> snd (f a (snd x)) | _ \<Rightarrow> snd x)"
  by (cases x; cases "fst x") (simp_all add: io_then_def)

lemma fst_io_then: "fst (io_then x f) = Ok b \<longleftrightarrow> (\<exists>a. fst x = Ok a \<and> fst (f a (snd x)) = Ok b)"
  by (cases x; cases "fst x") (simp_all add: io_then_def)

text \<open>The temporary file is another file.\<close>

lemma split_on_nonempty [simp]: "split_on d s \<noteq> []"
  by (induction s) (auto split: list.splits)

lemma split_on_last: "d \<notin> set f \<Longrightarrow> \<exists>ps. split_on d (a @ d # f) = ps @ [f]"
proof (induction a)
  case Nil
  moreover have "split_on d f = [f]" using Nil by (induction f) auto
  ultimately show ?case by simp
next
  case (Cons c a)
  then obtain ps where ps: "split_on d (a @ d # f) = ps @ [f]" by blast
  show ?case
  proof (cases ps)
    case Nil
    then have "split_on d (a @ d # f) = [f]" using ps by simp
    moreover have "1 < length (split_on d (a @ d # f))" by (induction a) (auto split: list.splits)
    ultimately show ?thesis by simp
  next
    case (Cons q qs)
    then show ?thesis using ps by (cases "c = d") auto
  qed
qed

lemma config_toml_name:
  "path_file_name (path_join p ''config.toml'') = Some ''config.toml''"
proof -
  have "\<exists>ps. split_on (CHR ''/'') (path_join p ''config.toml'') = ps @ [''config.toml'']"
  proof (cases "p = [] \<or> ends_with ''/'' p")
    case True
    then consider "p = []" | a where "p = a @ ''/''"
      by (cases p rule: rev_cases) (auto simp: ends_with_def)
    then show ?thesis
      using split_on_last [of "CHR ''/''" "''config.toml''"]
      by cases (auto simp: path_join_def is_absolute_def starts_with_def ends_with_def)
  next
    case False
    then show ?thesis
      using split_on_last [of "CHR ''/''" "''config.toml''" p]
      by (auto simp: path_join_def is_absolute_def starts_with_def)
  qed
  then obtain ps where "split_on (CHR ''/'') (path_join p ''config.toml'') = ps @ [''config.toml'']" by blast
  then show ?thesis by (simp add: path_file_name_def path_components_def Let_def)
qed

lemma path_join_config: "\<exists>q. path_join p ''config.toml'' = q @ ''config.toml''"
  by (auto simp: path_join_def is_absolute_def starts_with_def)

lemma toml_tmp_other: "toml_tmp (path_join p ''config.toml'') \<noteq> path_join p ''config.toml''"
proof -
  obtain q where q: "path_join p ''config.toml'' = q @ ''config.toml''" using path_join_config by blast
  have "\<exists>r. toml_tmp (path_join p ''config.toml'') = r @ ''toml.tmp''"
    by (simp add: toml_tmp_def set_extension_def config_toml_name Let_def)
  then obtain r where r: "toml_tmp (path_join p ''config.toml'') = r @ ''toml.tmp''" by blast
  have "last (q @ ''config.toml'') \<noteq> last (r @ ''toml.tmp'')" by simp
  then show ?thesis using q r by metis
qed

lemma config_path_tmp: "config_path ho w = Ok path \<Longrightarrow> toml_tmp path \<noteq> path"
  using toml_tmp_other by (auto simp: config_path_def split: option.splits)

subsection \<open>Properties\<close>

lemma write_atomic:
  fixes w :: 'w and new :: string
  assumes "fs_laws ho content" "toml_tmp path \<noteq> path"
  defines "w' \<equiv> snd (write_atomic ho path new w)"
  shows "content w' path = content w path \<or> content w' path = Some new"
    and "q \<noteq> path \<Longrightarrow> q \<noteq> toml_tmp path \<Longrightarrow> content w' q = content w q"
    and "fst (write_atomic ho path new w) = Ok () \<Longrightarrow> content w' path = Some new"
proof -
  define mk where "mk = (case path_parent path of None \<Rightarrow> (Ok (), w)
    | Some parent \<Rightarrow> with_context (''creating '' @ display parent) (io (ho_create_dir_all ho parent w)))"
  define wr where "wr = ho_write ho (toml_tmp path) new (snd mk)"
  define mv where "mv = ho_rename ho (toml_tmp path) path (snd wr)"
  have mk: "content (snd mk) = content w"
    using assms(1) by (auto simp: mk_def fs_laws_def split: option.splits)
  have wr: "content (snd wr) q = content w q" if "q \<noteq> toml_tmp path" for q
    using assms(1) that mk unfolding wr_def fs_laws_def by simp
  have ok: "content (snd wr) (toml_tmp path) = Some new" if "fst wr = Ok u" for u
    using assms(1) that unfolding wr_def fs_laws_def by blast
  have mv: "content (snd mv) = (if \<exists>u. fst mv = Ok u
      then (content (snd wr))(toml_tmp path := None, path := content (snd wr) (toml_tmp path)) else content (snd wr))"
    using assms(1) unfolding mv_def fs_laws_def by simp
  have w': "w' = (case fst mk of Ok _ \<Rightarrow> (case fst wr of Ok _ \<Rightarrow> snd mv | _ \<Rightarrow> snd wr) | _ \<Rightarrow> snd mk)"
    by (simp add: w'_def write_atomic_def mk_def [symmetric] snd_io_then Let_def wr_def mv_def io_def with_context_def
        split: res.splits)
  have r: "fst (write_atomic ho path new w) = Ok () \<longleftrightarrow> fst mk = Ok () \<and> fst wr = Ok () \<and> fst mv = Ok ()"
    by (simp add: write_atomic_def mk_def [symmetric] fst_io_then Let_def wr_def mv_def)
  show "content w' path = content w path \<or> content w' path = Some new"
    using mk wr [of path] ok mv assms(2) by (auto simp: w' split: res.splits if_splits)
  show "q \<noteq> path \<Longrightarrow> q \<noteq> toml_tmp path \<Longrightarrow> content w' q = content w q"
    using mk wr [of q] mv by (auto simp: w' split: res.splits if_splits)
  show "fst (write_atomic ho path new w) = Ok () \<Longrightarrow> content w' path = Some new"
    using r ok mv assms(2) by (auto simp: w')
qed

lemma snd_reads [simp]: "snd (read_or_empty ho path w) = w" "snd (parse_doc T path original w) = w"
  by (simp_all add: read_or_empty_def parse_doc_def)

lemma snd_say [simp]: "snd (say ho m w) = ho_println ho m w"
  by (simp add: say_def)

lemma fst_parse_doc: "fst (parse_doc T path original w) = Ok d \<longleftrightarrow> tm_parse T original = Ok d"
  by (cases "tm_parse T original") (simp_all add: parse_doc_def with_context_def)

lemma read_or_empty_content:
  assumes "fs_laws ho content" "fst (read_or_empty ho path w) = Ok original"
  shows "content w path = Some original \<or> content w path = None \<and> original = []"
  using assms by (auto simp: read_or_empty_def fs_laws_def split: if_splits)

text \<open>What a command may do to the files: nothing, or the careful replacement of the
  configuration.\<close>

definition only_config :: "('w \<Rightarrow> string \<Rightarrow> string option) \<Rightarrow> string \<Rightarrow> (string \<Rightarrow> bool) \<Rightarrow> 'w \<Rightarrow> 'w \<Rightarrow> bool" where
  "only_config content path new w w' \<longleftrightarrow>
     (content w' path = content w path \<or> (\<exists>s. new s \<and> content w' path = Some s)) \<and>
     (\<forall>q. q \<noteq> path \<and> q \<noteq> toml_tmp path \<longrightarrow> content w' q = content w q)"

lemma only_config_refl: "content w' = content w \<Longrightarrow> only_config content path new w w'"
  by (simp add: only_config_def)

lemma only_config_write:
  assumes "fs_laws ho content" "toml_tmp path \<noteq> path" "new s"
  shows "only_config content path new w (snd (io_then (with_context c (write_atomic ho path s w)) (\<lambda>_ w. say ho m w)))"
proof -
  let ?w = "snd (write_atomic ho path s w)"
  have "content (snd (io_then (with_context c (write_atomic ho path s w)) (\<lambda>_ w. say ho m w))) = content ?w"
    using assms(1) by (auto simp: snd_io_then fs_laws_def split: res.splits)
  then show ?thesis
    using write_atomic(1,2) [OF assms(1,2), where new = s and w = w] assms(3) by (auto simp: only_config_def)
qed

text \<open>The text of the configuration before a command, none standing for the empty text, and the
  texts \<open>install\<close> and \<open>uninstall\<close> make of it.\<close>

definition config_text :: "string option \<Rightarrow> string" where
  "config_text c = (case c of Some s \<Rightarrow> s | None \<Rightarrow> [])"

definition installed_text :: "('i, 't) Toml \<Rightarrow> InstallOpts \<Rightarrow> string \<Rightarrow> string \<Rightarrow> bool" where
  "installed_text T opts original s \<longleftrightarrow>
     (\<exists>doc doc1. tm_parse T original = Ok doc \<and> s = tm_print T doc1 \<and>
        install_edits T (io_bridge opts) (io_prefer_mcp opts) doc = Ok (doc1, True))"

definition removed_text :: "('i, 't) Toml \<Rightarrow> string \<Rightarrow> string \<Rightarrow> bool" where
  "removed_text T original s \<longleftrightarrow>
     (\<exists>doc doc1. tm_parse T original = Ok doc \<and> remove_server T doc = (doc1, True) \<and> s = tm_print T doc1)"

lemma read_config_text:
  "fs_laws ho content \<Longrightarrow> fst (read_or_empty ho path w) = Ok original \<Longrightarrow> config_text (content w path) = original"
  using read_or_empty_content [of ho content path w original] by (auto simp: config_text_def)

lemma codex_install_files:
  assumes "fs_laws ho content" "config_path ho w = Ok path"
  shows "only_config content path
           (\<lambda>s. \<not> io_dry_run opts \<and> installed_text T opts (config_text (content w path)) s)
           w (snd (codex_install ho T opts w))"
    (is "only_config content path ?new w _")
proof (cases "\<exists>original doc doc1 changed. fst (read_or_empty ho path w) = Ok original \<and> tm_parse T original = Ok doc \<and>
    install_edits T (io_bridge opts) (io_prefer_mcp opts) doc = Ok (doc1, changed) \<and> changed \<and> \<not> io_dry_run opts")
  case True
  then obtain original doc doc1 where s: "fst (read_or_empty ho path w) = Ok original" "tm_parse T original = Ok doc"
      "install_edits T (io_bridge opts) (io_prefer_mcp opts) doc = Ok (doc1, True)" "\<not> io_dry_run opts" by auto
  have pd: "fst (parse_doc T path original w) = Ok doc" using s(2) by (simp add: fst_parse_doc)
  have "?new (tm_print T doc1)"
    using s read_config_text [OF assms(1) s(1)] by (auto simp: installed_text_def)
  from only_config_write [where new = ?new, OF assms(1) config_path_tmp [OF assms(2)] this] s assms(2) pd
  show ?thesis by (simp add: codex_install_def snd_io_then)
next
  case False
  have nf: "io_dry_run opts" if "fst (read_or_empty ho path w) = Ok original" "tm_parse T original = Ok doc"
      "install_edits T (io_bridge opts) (io_prefer_mcp opts) doc = Ok (doc1, True)" for original doc doc1
    using False that by blast
  have "content (snd (codex_install ho T opts w)) = content w"
    using assms(1,2) nf
    by (auto simp: codex_install_def snd_io_then fs_laws_def fst_parse_doc Let_def split: res.splits if_splits)
  then show ?thesis by (rule only_config_refl)
qed

lemma codex_uninstall_files:
  assumes "fs_laws ho content" "config_path ho w = Ok path"
  shows "only_config content path
           (\<lambda>s. \<not> dry_run \<and> removed_text T (config_text (content w path)) s)
           w (snd (codex_uninstall ho T dry_run w))"
    (is "only_config content path ?new w _")
proof (cases "ho_exists ho path w \<and> \<not> dry_run \<and> (\<exists>original doc doc1. fst (read_or_empty ho path w) = Ok original \<and>
    tm_parse T original = Ok doc \<and> remove_server T doc = (doc1, True))")
  case True
  then obtain original doc doc1 where s: "fst (read_or_empty ho path w) = Ok original" "tm_parse T original = Ok doc"
      "remove_server T doc = (doc1, True)" "\<not> dry_run" "ho_exists ho path w" by auto
  have pd: "fst (parse_doc T path original w) = Ok doc" using s(2) by (simp add: fst_parse_doc)
  have "?new (tm_print T doc1)"
    using s read_config_text [OF assms(1) s(1)] by (auto simp: removed_text_def)
  from only_config_write [where new = ?new, OF assms(1) config_path_tmp [OF assms(2)] this] s assms(2) pd
  show ?thesis by (simp add: codex_uninstall_def snd_io_then)
next
  case False
  have nf: "dry_run" if "ho_exists ho path w" "fst (read_or_empty ho path w) = Ok original" "tm_parse T original = Ok doc"
      "remove_server T doc = (doc1, True)" for original doc doc1
    using False that by blast
  have "content (snd (codex_uninstall ho T dry_run w)) = content w"
    using assms(1,2) nf
    by (auto simp: codex_uninstall_def snd_io_then fs_laws_def fst_parse_doc Let_def split: res.splits if_splits prod.splits)
  then show ?thesis by (rule only_config_refl)
qed


text \<open>A world that is the contents of its files.\<close>

definition demo_host :: "(string \<Rightarrow> string option) Host" where
  "demo_host =
     \<lparr>ho_var = (\<lambda>v _. if v = ''CODEX_HOME'' then Some ''/c'' else None),
      ho_exists = (\<lambda>p w. w p \<noteq> None),
      ho_is_file = (\<lambda>p w. w p \<noteq> None),
      ho_read_to_string = (\<lambda>p w. case w p of Some s \<Rightarrow> Ok s | None \<Rightarrow> Err NotFound),
      ho_create_dir_all = (\<lambda>_ w. (Ok (), w)),
      ho_write = (\<lambda>p s w. (Ok (), w(p := Some s))),
      ho_rename = (\<lambda>a b w. if w a = None then (Err NotFound, w) else (Ok (), w(a := None, b := w a))),
      ho_canonicalize = (\<lambda>p _. Ok p),
      ho_current_exe = (\<lambda>_. Err NotFound),
      ho_run = (\<lambda>_ _ w. (Err NotFound, w)),
      ho_println = (\<lambda>_ w. w),
      ho_eprintln = (\<lambda>_ w. w),
      ho_err_str = (\<lambda>_. [])\<rparr>"

lemma demo_fs_laws: "fs_laws demo_host (\<lambda>w. w)"
  by (auto simp: fs_laws_def demo_host_def split: if_splits option.splits)

lemma demo_config_path: "config_path demo_host w = Ok ''/c/config.toml''"
  by (simp add: config_path_def demo_host_def path_join_def is_absolute_def starts_with_def ends_with_def)


end
