(* ===== verification/Dispatch_Contract.thy ===== *)
theory Dispatch_Contract
  imports Server
begin

text \<open>
  What the server loop and the pipe rely on of \<open>dispatch_method\<close>, as a guarantee relation: a
  reflexive and transitive relation that every single dispatch and every recorded metric
  respects is respected by a pipe of any shape, by the dispatch of a request and by a whole
  connection. The locale \<open>method_table\<close> is interpreted in \<open>Daemon\<close> on the daemon's own table, for
  the files the daemon may touch, for the order of its caches and its log and for its job table.
\<close>

locale method_table =
  fixes disp :: "'s dispatcher" and R :: "'s \<Rightarrow> 's \<Rightarrow> bool"
  assumes keep [simp, intro]: "R s s"
    and chain: "R s t \<Longrightarrow> R t u \<Longrightarrow> R s u"
    and disp_respects: "R s (snd (disp m p s))"
begin

lemma respects_pair: "R s (snd x) \<Longrightarrow> x = (r, s') \<Longrightarrow> R s s'"
  by simp

lemmas disp_step = respects_pair [OF disp_respects]

lemma run_tasks_respects: "R s (snd (run_tasks disp m resolved is s))"
proof (induction "is" arbitrary: s)
  case (Cons i "is")
  let ?one = "case resolved ! i of Ok params \<Rightarrow> disp m params s | Err e \<Rightarrow> (Err e, s) | Panic x \<Rightarrow> (Panic x, s)"
  obtain r s1 where one: "?one = (r, s1)" by fastforce
  then have "R s s1" by (auto split: res.splits intro: disp_step)
  also from Cons.IH have "R s1 (snd (run_tasks disp m resolved is s1))" .
  finally (chain) show ?case using one by (auto split: prod.splits)
qed simp

lemma run_for_each_respects: "R s (snd (run_for_each disp jp sched step items s))"
  by (auto simp: run_for_each_def Let_def split: prod.splits intro: respects_pair [OF run_tasks_respects])

lemma run_step_respects: "R s (snd (run_step disp jp sched step rs s))"
proof (cases "ps_for_each step")
  case None
  then show ?thesis
    by (auto simp: run_step_def split: res.splits prod.splits intro: disp_step)
next
  case (Some expr)
  then show ?thesis
    by (auto simp: run_step_def Let_def split: res.splits prod.splits json.splits
        intro: respects_pair [OF run_for_each_respects])
qed

lemma and_then_respects:
  assumes "R s (snd x)" "\<And>a t. R t (snd (f a t))"
  shows "R s (snd (and_then x f))"
  using assms by (cases x; cases "fst x") (auto intro: chain)

lemma pipe_loop_respects: "R s (snd (pipe_loop disp jp sched steps rs resp s))"
proof (induction steps arbitrary: rs resp s)
  case (Cons step steps)
  then show ?case
    by (auto intro!: and_then_respects run_step_respects split: prod.splits)
qed simp

lemma pipe_respects: "R s (snd (pipe dec enc disp jp sched params s))"
  unfolding pipe_def by (auto intro!: and_then_respects pipe_loop_respects)

end

text \<open>With the recording of metrics: a request, and a connection.\<close>

locale served_table = method_table +
  fixes rec :: "metric_event \<Rightarrow> 's \<Rightarrow> 's"
  assumes rec_respects: "R s (rec ev s)"
begin

lemma dispatch_respects:
  "R s (snd (dispatch disp (pipe dec enc disp jp sched) rec us req s))"
proof -
  let ?one = "if req_method req = PIPE then pipe dec enc disp jp sched (req_params req) s
              else disp (req_method req) (req_params req) s"
  obtain r s1 where one: "?one = (r, s1)" by fastforce
  then have s1: "R s s1"
    by (auto split: if_splits intro: disp_step respects_pair [OF pipe_respects])
  have "R s (rec ev s1)" for ev using chain [OF s1 rec_respects] .
  then show ?thesis using one s1 by (cases r) (simp_all add: dispatch_def Let_def)
qed

lemma answer_respects:
  assumes "\<And>req d. R d (snd (h req d))"
  shows "R d (snd (answer dec h payload d))"
  using assms by (auto simp: answer_def split: res.splits)

lemma handle_conn_respects:
  assumes h: "\<And>req d. R d (snd (h req d))"
  shows "R d (snd (snd (snd (handle_conn alloc dec enc h reader w pl d))))"
  using h
proof (induction alloc dec enc h reader w pl d rule: handle_conn.induct)
  case (1 alloc dec enc h reader w pl d)
  obtain rr reader1 pl1 where rd: "read_pooled alloc reader pl = (rr, reader1, pl1)"
    by (rule prod_cases3)
  show ?case
  proof (cases "\<exists>data. rr = Ok (Some data)")
    case False
    then show ?thesis
      using rd by (cases rr) (auto simp: handle_conn.simps [of alloc] split: option.splits)
  next
    case True
    then obtain data where rr: "rr = Ok (Some data)" by blast
    obtain a d1 where a: "answer dec h data d = (a, d1)" by fastforce
    have d1: "R d d1" using respects_pair [OF answer_respects a] "1.prems" by blast
    show ?thesis
    proof (cases a)
      case (Ok resp)
      obtain wr w1 pl2 where wp: "write_response_pooled alloc enc resp w pl1 = (wr, w1, pl2)"
        by (rule prod_cases3)
      show ?thesis
      proof (cases wr)
        case w: (Ok u)
        have "R d1 (snd (snd (snd (handle_conn alloc dec enc h reader1 w1 pl2 d1))))"
          using "1.IH" rd rr a Ok wp w "1.prems" by (metis snd_conv)
        then show ?thesis
          using rd rr a Ok wp w chain [OF d1] by (simp add: handle_conn.simps [of alloc _ _ _ reader])
      qed (use rd rr a Ok wp d1 in \<open>simp_all add: handle_conn.simps [of alloc]\<close>)
    qed (use rd rr a d1 in \<open>simp_all add: handle_conn.simps [of alloc]\<close>)
  qed
qed

end

end
