(* ===== verification/Daemon.thy ===== *)
theory Daemon
  imports Dispatch_Contract Tool_Run Jobs Search Code_Handlers Imports Git Mcp_Tools
begin

text \<open>
  The daemon as a whole, \<^verbatim>\<open>src/crates/daemon/src/server.rs\<close>: the shared state (\<open>Daemon\<close>), the table from
  method names to handlers (\<open>dispatch_method\<close>), the JSON wrappers of the handlers whose work
  another theory models on decoded parameters, and what \<open>serve\<close> makes of its configuration.

  Every handler works on its part of one state; the files are one component of it that all
  handlers share, the programs that \<open>tool.run\<close> and \<open>tool.gh\<close> start may change them too. Serde's
  decoding and encoding of the request and result structures are parameters (\<open>Decoders\<close>,
  \<open>Encoders\<close>), and so is the environment (\<open>Services\<close>): the operating system, ripgrep's search, libgit2,
  the grammars and the running of programs. The frame and arena pools are in \<open>Server\<close>.
\<close>

subsection \<open>State and environment\<close>

type_synonym files = "path \<Rightarrow> file_node option"

record ('t, 'w) Daemon =
  dm_fs :: FsState
  dm_search_cache :: SearchCache
  dm_tool_run_cache :: "string \<rightharpoonup> ToolRunResult"
  dm_parse_cache :: "'t ParseCache"
  dm_metrics :: ToolMetrics
  dm_jobs :: JobTable
  dm_world :: 'w

record ('t, 'w) Services =
  sv_os :: Os
  sv_rg :: "files Ripgrep"
  sv_lg :: "files \<Rightarrow> Libgit"
  sv_sx :: "'t code_syntax"
  sv_exists :: "files \<Rightarrow> string \<Rightarrow> bool"
  sv_walk :: "files \<Rightarrow> path \<Rightarrow> path option list"
  sv_exec :: "('w \<times> files) exec"
  sv_spawn :: "Command \<Rightarrow> (Child, string) res"
  sv_render :: Render
  sv_search_size :: "SearchGrepResult \<Rightarrow> nat"
  sv_ratio :: "nat \<Rightarrow> nat \<Rightarrow> f64"

record Decoders =
  dec_fs_read :: "json \<Rightarrow> (FsReadParams, string) res"
  dec_fs_read_batch :: "json \<Rightarrow> (FsReadBatchParams, string) res"
  dec_fs_apply_patch :: "json \<Rightarrow> (FsApplyPatchParams, string) res"
  dec_fs_replace_all :: "json \<Rightarrow> (FsReplaceAllParams, string) res"
  dec_fs_changes :: "json \<Rightarrow> (FsChangesParams, string) res"
  dec_fs_scan :: "json \<Rightarrow> (FsScanParams, string) res"
  dec_git_status :: "json \<Rightarrow> (GitStatusParams, string) res"
  dec_git_log :: "json \<Rightarrow> (GitLogParams, string) res"
  dec_git_diff :: "json \<Rightarrow> (GitDiffParams, string) res"
  dec_git_blame :: "json \<Rightarrow> (GitBlameParams, string) res"
  dec_git_history :: "json \<Rightarrow> (GitHistoryParams, string) res"
  dec_search_grep :: "json \<Rightarrow> (SearchGrepParams, string) res"
  dec_code_outline :: "json \<Rightarrow> (CodeOutlineParams, string) res"
  dec_code_outline_batch :: "json \<Rightarrow> (CodeOutlineBatchParams, string) res"
  dec_code_symbols :: "json \<Rightarrow> (CodeSymbolsParams, string) res"
  dec_code_symbols_batch :: "json \<Rightarrow> (CodeSymbolsBatchParams, string) res"
  dec_code_imports :: "json \<Rightarrow> (CodeImportsParams, string) res"
  dec_code_dependencies :: "json \<Rightarrow> (CodeDependenciesParams, string) res"
  dec_code_find_occurrences :: "json \<Rightarrow> (CodeFindOccurrencesParams, string) res"
  dec_fs_read_skeleton :: "json \<Rightarrow> (FsReadSkeletonParams, string) res"
  dec_tool_run :: "json \<Rightarrow> (ToolRunParams, string) res"
  dec_tool_gh :: "json \<Rightarrow> (ToolGhParams, string) res"
  dec_tool_spawn :: "json \<Rightarrow> (ToolSpawnParams, string) res"
  dec_tool_read_logs :: "json \<Rightarrow> (ToolReadLogsParams, string) res"
  dec_tool_kill :: "json \<Rightarrow> (ToolKillParams, string) res"
  dec_metrics_gain :: "json \<Rightarrow> (unit, string) res"
  dec_metrics_tool_latency :: "json \<Rightarrow> (unit, string) res"
  dec_pipe :: "json \<Rightarrow> (PipeParams, string) res"

record Encoders =
  enc_fs_read :: "FsReadResult \<Rightarrow> json"
  enc_fs_read_batch :: "FsReadBatchResult \<Rightarrow> json"
  enc_fs_apply_patch :: "FsApplyPatchResult \<Rightarrow> json"
  enc_fs_replace_all :: "FsReplaceAllResult \<Rightarrow> json"
  enc_fs_snapshot :: "FsSnapshotResult \<Rightarrow> json"
  enc_fs_changes :: "FsChangesResult \<Rightarrow> json"
  enc_fs_scan :: "FsScanResult \<Rightarrow> json"
  enc_git_status :: "GitStatusResult \<Rightarrow> json"
  enc_git_log :: "GitLogResult \<Rightarrow> json"
  enc_git_diff :: "GitDiffResult \<Rightarrow> json"
  enc_git_blame :: "GitBlameResult \<Rightarrow> json"
  enc_git_history :: "GitHistoryResult \<Rightarrow> json"
  enc_search_grep :: "SearchGrepResult \<Rightarrow> json"
  enc_code_outline :: "CodeOutlineResult \<Rightarrow> json"
  enc_code_outline_batch :: "CodeOutlineBatchResult \<Rightarrow> json"
  enc_code_symbols :: "CodeSymbolsResult \<Rightarrow> json"
  enc_code_symbols_batch :: "CodeSymbolsBatchResult \<Rightarrow> json"
  enc_code_imports :: "CodeImportsResult \<Rightarrow> json"
  enc_code_dependencies :: "CodeDependenciesResult \<Rightarrow> json"
  enc_code_find_occurrences :: "CodeFindOccurrencesResult \<Rightarrow> json"
  enc_fs_read_skeleton :: "FsReadSkeletonResult \<Rightarrow> json"
  enc_tool_run :: "ToolRunResult \<Rightarrow> json"
  enc_tool_gh :: "ToolGhResult \<Rightarrow> json"
  enc_tool_spawn :: "ToolSpawnResult \<Rightarrow> json"
  enc_tool_read_logs :: "ToolReadLogsResult \<Rightarrow> json"
  enc_tool_kill :: "ToolKillResult \<Rightarrow> json"
  enc_metrics_gain :: "MetricsGainResult \<Rightarrow> json"
  enc_metrics_tool_latency :: "MetricsToolLatencyResult \<Rightarrow> json"
  enc_pipe :: "PipeResult \<Rightarrow> json"

abbreviation root_of :: "('t, 'w) Daemon \<Rightarrow> path" where
  "root_of d \<equiv> st_root (dm_fs d)"

abbreviation files_of :: "('t, 'w) Daemon \<Rightarrow> files" where
  "files_of d \<equiv> st_files (dm_fs d)"

abbreviation log_of :: "('t, 'w) Daemon \<Rightarrow> ChangeLog" where
  "log_of d \<equiv> st_changelog (dm_fs d)"

text \<open>What \<open>stat\<close> and \<open>read\<close> answer for a path, given as a string, on the daemon's files. The parse
  cache keeps nanoseconds in full width, unlike \<open>metadata_mtime_ns\<close>.\<close>

definition file_stamp :: "file_node \<Rightarrow> FileStamp option" where
  "file_stamp f =
     (case fl_stat_fault f of
        Some _ \<Rightarrow> None
      | None \<Rightarrow> map_option (\<lambda>t. \<lparr>fst_mtime_ns = t, fst_size = length (fl_bytes f)\<rparr>) (fl_mtime f))"

definition view_of :: "files \<Rightarrow> string \<Rightarrow> file_view" where
  "view_of fs p =
     (case fs (filter (\<lambda>c. c \<noteq> []) (split_on CHR ''/'' p)) of
        None \<Rightarrow> \<lparr>fv_stamp = None, fv_read = Err not_found\<rparr>
      | Some f \<Rightarrow>
          \<lparr>fv_stamp = file_stamp f,
           fv_read = (case fl_read_fault f of Some e \<Rightarrow> Err e | None \<Rightarrow> Ok (fl_bytes f))\<rparr>)"

definition backends :: "('t, 'w) Services \<Rightarrow> files \<Rightarrow> 't ParseCache BackendRegistry" where
  "backends sv fs = register (tree_sitter_backend (sx_ts (sv_sx sv)) (view_of fs)) registry_new"

subsection \<open>Handlers on the daemon's state\<close>

definition read_fs :: "('p \<Rightarrow> FsState \<Rightarrow> 'r rpc) \<Rightarrow> 'p \<Rightarrow> ('t, 'w) Daemon \<Rightarrow> 'r rpc \<times> ('t, 'w) Daemon" where
  "read_fs h p d = (h p (dm_fs d), d)"

definition on_fs ::
  "('p \<Rightarrow> FsState \<Rightarrow> 'r rpc \<times> FsState) \<Rightarrow> 'p \<Rightarrow> ('t, 'w) Daemon \<Rightarrow> 'r rpc \<times> ('t, 'w) Daemon" where
  "on_fs h p d = (case h p (dm_fs d) of (r, st) \<Rightarrow> (r, d\<lparr>dm_fs := st\<rparr>))"

definition on_git ::
  "(Libgit \<Rightarrow> path \<Rightarrow> 'p \<Rightarrow> ToolMetrics \<Rightarrow> 'r rpc \<times> ToolMetrics) \<Rightarrow> ('t, 'w) Services \<Rightarrow> 'p \<Rightarrow> ('t, 'w) Daemon \<Rightarrow>
     'r rpc \<times> ('t, 'w) Daemon" where
  "on_git h sv p d =
     (case h (sv_lg sv (files_of d)) (root_of d) p (dm_metrics d) of (r, m) \<Rightarrow> (r, d\<lparr>dm_metrics := m\<rparr>))"

definition on_search ::
  "(files \<Rightarrow> 'p \<Rightarrow> SearchState \<Rightarrow> 'r rpc \<times> SearchState) \<Rightarrow> 'p \<Rightarrow> ('t, 'w) Daemon \<Rightarrow>
     'r rpc \<times> ('t, 'w) Daemon" where
  "on_search h p d =
     (case h (files_of d) p \<lparr>ss_root = root_of d, ss_changelog = log_of d, ss_cache = dm_search_cache d,
                             ss_metrics = dm_metrics d\<rparr> of
        (r, st) \<Rightarrow> (r, d\<lparr>dm_search_cache := ss_cache st, dm_metrics := ss_metrics st\<rparr>))"

definition on_code ::
  "(FsState \<Rightarrow> 'p \<Rightarrow> 't ParseCache \<Rightarrow> 'r rpc \<times> 't ParseCache) \<Rightarrow> 'p \<Rightarrow> ('t, 'w) Daemon \<Rightarrow>
     'r rpc \<times> ('t, 'w) Daemon" where
  "on_code h p d = (case h (dm_fs d) p (dm_parse_cache d) of (r, g) \<Rightarrow> (r, d\<lparr>dm_parse_cache := g\<rparr>))"

definition on_tools ::
  "('p \<Rightarrow> ToolState \<times> 'w \<times> files \<Rightarrow> 'r rpc \<times> ToolState \<times> 'w \<times> files) \<Rightarrow> 'p \<Rightarrow> ('t, 'w) Daemon \<Rightarrow>
     'r rpc \<times> ('t, 'w) Daemon" where
  "on_tools h p d =
     (case h p (\<lparr>ts_root = root_of d, ts_changelog = log_of d, ts_tool_run_cache = dm_tool_run_cache d,
                 ts_metrics = dm_metrics d\<rparr>, dm_world d, files_of d) of
        (r, st, w, fs) \<Rightarrow>
          (r, d\<lparr>dm_fs := (dm_fs d)\<lparr>st_files := fs\<rparr>, dm_tool_run_cache := ts_tool_run_cache st,
                dm_metrics := ts_metrics st, dm_world := w\<rparr>))"

definition on_jobs ::
  "(path \<Rightarrow> 'p \<Rightarrow> JobTable \<Rightarrow> 'r rpc \<times> JobTable) \<Rightarrow> 'p \<Rightarrow> ('t, 'w) Daemon \<Rightarrow> 'r rpc \<times> ('t, 'w) Daemon" where
  "on_jobs h p d = (case h (root_of d) p (dm_jobs d) of (r, t) \<Rightarrow> (r, d\<lparr>dm_jobs := t\<rparr>))"

subsection \<open>JSON wrappers\<close>

text \<open>The wrappers whose work is a function of its own in the source.\<close>

definition fs_read ::
  "('t, 'w) Services \<Rightarrow> Decoders \<Rightarrow> Encoders \<Rightarrow> json \<Rightarrow> ('t, 'w) Daemon \<Rightarrow> json rpc \<times> ('t, 'w) Daemon" where
  "fs_read sv de en = json_handler (dec_fs_read de) (enc_fs_read en) (read_fs (fs_read_inner (sv_os sv)))"

definition code_outline ::
  "('t, 'w) Services \<Rightarrow> Decoders \<Rightarrow> Encoders \<Rightarrow> json \<Rightarrow> ('t, 'w) Daemon \<Rightarrow> json rpc \<times> ('t, 'w) Daemon" where
  "code_outline sv de en = json_handler (dec_code_outline de) (enc_code_outline en)
     (on_code (\<lambda>st. code_outline_inner (sv_os sv) (st_root st) (backends sv (st_files st))))"

definition code_symbols ::
  "('t, 'w) Services \<Rightarrow> Decoders \<Rightarrow> Encoders \<Rightarrow> json \<Rightarrow> ('t, 'w) Daemon \<Rightarrow> json rpc \<times> ('t, 'w) Daemon" where
  "code_symbols sv de en = json_handler (dec_code_symbols de) (enc_code_symbols en)
     (on_code (\<lambda>st. code_symbols_inner (sv_os sv) (st_root st) (backends sv (st_files st))))"

definition code_imports ::
  "('t, 'w) Services \<Rightarrow> Decoders \<Rightarrow> Encoders \<Rightarrow> json \<Rightarrow> ('t, 'w) Daemon \<Rightarrow> json rpc \<times> ('t, 'w) Daemon" where
  "code_imports sv de en = json_handler (dec_code_imports de) (enc_code_imports en)
     (read_fs (\<lambda>p st. code_imports_inner (sv_os sv) (sv_exists sv (st_files st)) (cip_path p) st))"

definition metrics_gain ::
  "('t, 'w) Services \<Rightarrow> Decoders \<Rightarrow> Encoders \<Rightarrow> json \<Rightarrow> ('t, 'w) Daemon \<Rightarrow> json rpc \<times> ('t, 'w) Daemon" where
  "metrics_gain sv de en = json_handler (dec_metrics_gain de) (enc_metrics_gain en)
     (\<lambda>_ d. (Ok (metrics_snapshot (sv_ratio sv) (dm_metrics d)), d))"

definition metrics_tool_latency ::
  "Decoders \<Rightarrow> Encoders \<Rightarrow> json \<Rightarrow> ('t, 'w) Daemon \<Rightarrow> json rpc \<times> ('t, 'w) Daemon" where
  "metrics_tool_latency de en = json_handler (dec_metrics_tool_latency de) (enc_metrics_tool_latency en)
     (\<lambda>_ d. (Ok (metrics_snapshot_latency (dm_metrics d)), d))"

text \<open>The parameters of \<open>fs.snapshot\<close> are not looked at.\<close>

definition fs_snapshot_json ::
  "Encoders \<Rightarrow> json \<Rightarrow> ('t, 'w) Daemon \<Rightarrow> json rpc \<times> ('t, 'w) Daemon" where
  "fs_snapshot_json en params d =
     and_then (fs_snapshot (dm_fs d), d) (\<lambda>r d. (Ok (enc_fs_snapshot en r), d))"

subsection \<open>The method table\<close>

definition PROTOCOL_VERSION :: string where "PROTOCOL_VERSION = ''0.1''"

definition dispatch_method ::
  "('t, 'w) Services \<Rightarrow> Decoders \<Rightarrow> Encoders \<Rightarrow> ('t, 'w) Daemon dispatcher" where
  "dispatch_method sv de en meth params d =
     (let os = sv_os sv in
      if meth = PING
      then (Ok (JObject [(''ok'', JBool True), (''version'', JString PROTOCOL_VERSION)]), d)
      else if meth = FS_READ then fs_read sv de en params d
      else if meth = FS_READ_BATCH then
        json_handler (dec_fs_read_batch de) (enc_fs_read_batch en) (read_fs (fs_read_batch os)) params d
      else if meth = FS_APPLY_PATCH then
        json_handler (dec_fs_apply_patch de) (enc_fs_apply_patch en) (on_fs (fs_apply_patch os)) params d
      else if meth = FS_REPLACE_ALL then
        json_handler (dec_fs_replace_all de) (enc_fs_replace_all en) (on_fs (fs_replace_all os)) params d
      else if meth = FS_SNAPSHOT then fs_snapshot_json en params d
      else if meth = FS_CHANGES then
        json_handler (dec_fs_changes de) (enc_fs_changes en) (read_fs fs_changes) params d
      else if meth = FS_SCAN then
        json_handler (dec_fs_scan de) (enc_fs_scan en)
          (read_fs (\<lambda>p st. fs_scan os (sv_rg sv) (st_files st) p (st_root st) (st_changelog st))) params d
      else if meth = GIT_STATUS then
        json_handler (dec_git_status de) (enc_git_status en) (on_git (git_status os) sv) params d
      else if meth = GIT_LOG then
        json_handler (dec_git_log de) (enc_git_log en) (on_git (git_log os) sv) params d
      else if meth = GIT_DIFF then
        json_handler (dec_git_diff de) (enc_git_diff en) (on_git (git_diff os) sv) params d
      else if meth = GIT_BLAME then
        json_handler (dec_git_blame de) (enc_git_blame en) (on_git (git_blame os) sv) params d
      else if meth = GIT_HISTORY then
        json_handler (dec_git_history de) (enc_git_history en) (on_git (git_history os) sv) params d
      else if meth = SEARCH_GREP then
        json_handler (dec_search_grep de) (enc_search_grep en)
          (on_search (search_grep os (sv_rg sv) (sv_search_size sv))) params d
      else if meth = CODE_OUTLINE then code_outline sv de en params d
      else if meth = CODE_OUTLINE_BATCH then
        json_handler (dec_code_outline_batch de) (enc_code_outline_batch en)
          (on_code (\<lambda>st. code_outline_batch os (st_root st) (backends sv (st_files st)))) params d
      else if meth = CODE_SYMBOLS then code_symbols sv de en params d
      else if meth = CODE_SYMBOLS_BATCH then
        json_handler (dec_code_symbols_batch de) (enc_code_symbols_batch en)
          (on_code (\<lambda>st. code_symbols_batch os (st_root st) (backends sv (st_files st)))) params d
      else if meth = CODE_IMPORTS then code_imports sv de en params d
      else if meth = CODE_DEPENDENCIES then
        json_handler (dec_code_dependencies de) (enc_code_dependencies en)
          (read_fs (\<lambda>p st. code_dependencies os (sv_exists sv (st_files st))
                              (sv_walk sv (st_files st) (st_root st)) p st)) params d
      else if meth = CODE_FIND_OCCURRENCES then
        json_handler (dec_code_find_occurrences de) (enc_code_find_occurrences en)
          (on_code (\<lambda>st. code_find_occurrences os (st_root st) (sv_sx sv) (view_of (st_files st))
                            (sv_walk sv (st_files st) (st_root st)))) params d
      else if meth = FS_READ_SKELETON then
        json_handler (dec_fs_read_skeleton de) (enc_fs_read_skeleton en)
          (on_code (\<lambda>st p. fs_read_skeleton os (backends sv (st_files st)) p st)) params d
      else if meth = TOOL_RUN then
        json_handler (dec_tool_run de) (enc_tool_run en)
          (on_tools (tool_run os (sv_render sv) (sv_exec sv))) params d
      else if meth = TOOL_GH then
        json_handler (dec_tool_gh de) (enc_tool_gh en)
          (on_tools (tool_gh (sv_render sv) (sv_exec sv))) params d
      else if meth = TOOL_SPAWN then
        json_handler (dec_tool_spawn de) (enc_tool_spawn en)
          (on_jobs (\<lambda>root. tool_spawn os root (sv_spawn sv))) params d
      else if meth = TOOL_READ_LOGS then
        json_handler (dec_tool_read_logs de) (enc_tool_read_logs en) (on_jobs (\<lambda>_. tool_read_logs)) params d
      else if meth = TOOL_KILL then
        json_handler (dec_tool_kill de) (enc_tool_kill en) (on_jobs (\<lambda>_. tool_kill)) params d
      else if meth = METRICS_GAIN then metrics_gain sv de en params d
      else if meth = METRICS_TOOL_LATENCY then metrics_tool_latency de en params d
      else if meth = PIPE
      then (Err (rpc_error (-32601) ''nested pipe not supported; flatten composition at the caller''), d)
      else (Err (rpc_error (-32601) (''unknown method: '' @ meth)), d))"

text \<open>A request: \<open>elapsed\<close> is the time the call took, \<open>jp\<close> the JSONPath engine and \<open>sched\<close> the schedule
  of a fan-out.\<close>

definition daemon_record :: "metric_event \<Rightarrow> ('t, 'w) Daemon \<Rightarrow> ('t, 'w) Daemon" where
  "daemon_record ev d = d\<lparr>dm_metrics := metrics_record ev (dm_metrics d)\<rparr>"

definition daemon_pipe ::
  "('t, 'w) Services \<Rightarrow> Decoders \<Rightarrow> Encoders \<Rightarrow> jsonpath \<Rightarrow> schedule \<Rightarrow> json \<Rightarrow> ('t, 'w) Daemon \<Rightarrow>
     json rpc \<times> ('t, 'w) Daemon" where
  "daemon_pipe sv de en jp sched = pipe (dec_pipe de) (enc_pipe en) (dispatch_method sv de en) jp sched"

definition daemon_request ::
  "('t, 'w) Services \<Rightarrow> Decoders \<Rightarrow> Encoders \<Rightarrow> jsonpath \<Rightarrow> schedule \<Rightarrow> (Request \<Rightarrow> ('t, 'w) Daemon \<Rightarrow> nat) \<Rightarrow>
     Request \<Rightarrow> ('t, 'w) Daemon \<Rightarrow> (Response, string) res \<times> ('t, 'w) Daemon" where
  "daemon_request sv de en jp sched elapsed req d =
     dispatch (dispatch_method sv de en) (daemon_pipe sv de en jp sched) daemon_record (elapsed req d) req d"

subsection \<open>The state a configuration starts with\<close>

record Config =
  cfg_socket :: string
  cfg_root :: path
  cfg_changelog_capacity :: nat
  cfg_search_cache_capacity :: nat
  cfg_parse_cache_capacity :: nat
  cfg_prewarm_enabled :: bool
  cfg_idle_timeout :: "nat option"
  cfg_io_uring_enabled :: bool

definition daemon_new :: "Config \<Rightarrow> files \<Rightarrow> nat option \<Rightarrow> 'w \<Rightarrow> ('t, 'w) Daemon" where
  "daemon_new cfg fs now w =
     \<lparr>dm_fs = \<lparr>st_root = cfg_root cfg, st_files = fs, st_now = now,
               st_changelog = changelog_with_capacity (cfg_changelog_capacity cfg)\<rparr>,
      dm_search_cache = search_cache_new (cfg_search_cache_capacity cfg),
      dm_tool_run_cache = Map.empty,
      dm_parse_cache = parse_cache_new (cfg_parse_cache_capacity cfg),
      dm_metrics = [], dm_jobs = job_table_new, dm_world = w\<rparr>"

definition pools_new :: pools where
  "pools_new = \<lparr>pl_frame = buffer_pool_new 32 FRAME_BUFFER_RECYCLE_CAP, pl_arena = 0\<rparr>"

end
