(* ===== verification/Daemon_Run.thy ===== *)
theory Daemon_Run
  imports Daemon
begin

text \<open>
  What the daemon as a whole guarantees: the effect of every method on the shared state, the files
  a connection can touch, the invariant of every state the daemon reaches by calls, watcher
  events and the work of other programs, and the visibility of a write in the change log and in
  the next search.
\<close>

subsection \<open>The effect of a method\<close>

lemma json_handler_snd:
  "snd (json_handler dec enc h params s) =
     (case dec params of Ok p \<Rightarrow> snd (h p s) | _ \<Rightarrow> s)"
proof (cases "dec params")
  case (Ok p)
  obtain r s' where "h p s = (r, s')" by (rule prod.exhaust)
  with Ok show ?thesis by (cases r) (simp_all add: json_handler_def map_err_def)
qed (simp_all add: json_handler_def map_err_def)

text \<open>The handlers of the code methods use the parse cache only through \<open>get_or_parse\<close>.\<close>

inductive parse_later :: "'t grammar \<Rightarrow> 't ParseCache \<Rightarrow> 't ParseCache \<Rightarrow> bool" for gr where
  same: "parse_later gr g g"
| parsed: "parse_later gr g g1 \<Longrightarrow> get_or_parse gr fv path g1 = (r, g2) \<Longrightarrow> parse_later gr g g2"

lemmas parse_later_simps [simp, intro] = parse_later.same

lemma parse_later_trans: "parse_later gr g1 g2 \<Longrightarrow> parse_later gr g0 g1 \<Longrightarrow> parse_later gr g0 g2"
  by (induction rule: parse_later.induct) (auto intro: parse_later.parsed)

lemma ts_parse_later:
  "parse_later (ts_grammar ts) g0 g \<Longrightarrow> parse_later (ts_grammar ts) g0 (snd (ts_parse ts fs path g))"
  by (cases "get_or_parse (ts_grammar ts) (fs path) path g"; cases "fst (get_or_parse (ts_grammar ts) (fs path) path g)")
    (auto simp: ts_parse_def intro: parse_later.parsed)

lemma registry_later:
  assumes "parse_later (ts_grammar (sx_ts (sv_sx sv))) g0 g"
  shows "parse_later (ts_grammar (sx_ts (sv_sx sv))) g0 (snd (registry_outline (backends sv fs) path sg g))"
    "parse_later (ts_grammar (sx_ts (sv_sx sv))) g0 (snd (registry_symbols (backends sv fs) path g))"
  using ts_parse_later [OF assms, of "view_of fs" path] assms
  by (auto simp: registry_outline_def registry_symbols_def backends_def register_def registry_new_def
      for_language_def tree_sitter_backend_def map_some_def ts_outline_def ts_symbols_def
      split: option.splits prod.splits)

abbreviation later :: "('t, 'w) Services \<Rightarrow> 't ParseCache \<Rightarrow> 't ParseCache \<Rightarrow> bool" where
  "later sv \<equiv> parse_later (ts_grammar (sx_ts (sv_sx sv)))"

lemmas later_then = and_then_inv [where I = "parse_later gr g0" for gr g0]

lemma code_outline_later:
  "later sv g0 g \<Longrightarrow> later sv g0 (snd (code_outline_inner os root (backends sv fs) p g))"
  unfolding code_outline_inner_def by (auto intro!: later_then registry_later)

lemma code_symbols_later:
  "later sv g0 g \<Longrightarrow> later sv g0 (snd (code_symbols_inner os root (backends sv fs) p g))"
  unfolding code_symbols_inner_def by (auto intro!: later_then registry_later)

lemma batch_inv:
  assumes "\<And>q s. I s \<Longrightarrow> I (snd (handler q s))" "I s"
  shows "I (snd (batch handler item qs s))"
  using assms(2)
proof (induction qs arbitrary: s)
  case (Cons q qs)
  obtain r s' where h: "handler q s = (r, s')" by (rule prod.exhaust)
  then have "I s'" using assms(1) [OF Cons.prems, of q] by simp
  then have "I (snd (batch handler item qs s'))" by (rule Cons.IH)
  then have "I (snd (and_then (batch handler item qs s') (\<lambda>is s. (Ok (x # is), s))))" for x
    by (cases "batch handler item qs s'"; cases "fst (batch handler item qs s')") simp_all
  then show ?case using h \<open>I s'\<close> by (cases r) simp_all
qed simp

lemmas later_batch = batch_inv [where I = "parse_later gr g0" for gr g0]

lemma code_outline_batch_later: "later sv g (snd (code_outline_batch os root (backends sv fs) p g))"
  unfolding code_outline_batch_def
  by (rule later_then, rule later_batch) (auto intro: code_outline_later)

lemma code_symbols_batch_later: "later sv g (snd (code_symbols_batch os root (backends sv fs) p g))"
  unfolding code_symbols_batch_def
  by (rule later_then, rule later_batch) (auto intro: code_symbols_later)

lemma occurrences_later:
  "later sv g0 g \<Longrightarrow> later sv g0 (snd (occurrences_in os root (sv_sx sv) fs needle mx rels occ g))"
  by (induction rels arbitrary: occ g)
    (auto intro!: later_then ts_parse_later split: option.splits)

lemma code_find_later:
  "later sv g (snd (code_find_occurrences os root (sv_sx sv) fs walk p g))"
  by (auto simp: code_find_occurrences_def Let_def intro!: later_then occurrences_later)

lemma skeleton_later:
  "later sv g (snd (fs_read_skeleton os (backends sv fs) p st g))"
  unfolding fs_read_skeleton_def
  by (auto intro!: later_then code_outline_later split: prod.splits)

lemmas code_later =
  code_outline_later [OF parse_later.same] code_symbols_later [OF parse_later.same]
  code_outline_batch_later code_symbols_batch_later code_find_later skeleton_later

text \<open>The git handlers only count.\<close>

definition counted :: "ToolMetrics \<Rightarrow> ToolMetrics \<Rightarrow> bool" where
  "counted m m' \<longleftrightarrow> (\<exists>evs. m' = fold metrics_record evs m)"

lemma counted_refl [simp, intro]: "counted m m"
  unfolding counted_def by (rule exI [of _ "[]"]) simp

lemma counted_record: "counted m m' \<Longrightarrow> counted m (metrics_record ev m')"
  unfolding counted_def by (elim exE, rule_tac x = "evs @ [ev]" in exI) simp

lemma counted_one [simp, intro]: "counted m (metrics_record ev m)"
  by (rule counted_record) simp


lemma git_counts:
  "counted m (snd (git_status os lg root p1 m))" "counted m (snd (git_log os lg root p2 m))"
  "counted m (snd (git_diff os lg root p3 m))" "counted m (snd (git_blame os lg root p4 m))"
  by (auto simp: git_status_def git_log_def git_diff_def git_blame_def Let_def split: res.splits prod.splits)

lemma git_history_counts: "counted m (snd (git_history os lg root p m))"
  unfolding git_history_def Let_def
  by (rule and_then_inv [where I = "counted m"]) (auto intro: counted_record git_counts)

text \<open>Every method changes one part of the state, in a way its handler is responsible for.\<close>

inductive daemon_effect ::
  "('t, 'w) Services \<Rightarrow> string \<Rightarrow> ('t, 'w) Daemon \<Rightarrow> ('t, 'w) Daemon \<Rightarrow> bool" for sv where
  none: "daemon_effect sv m d d"
| patched: "daemon_effect sv FS_APPLY_PATCH d (d\<lparr>dm_fs := snd (fs_apply_patch (sv_os sv) p (dm_fs d))\<rparr>)"
| replaced: "daemon_effect sv FS_REPLACE_ALL d (d\<lparr>dm_fs := snd (fs_replace_all (sv_os sv) p (dm_fs d))\<rparr>)"
| counts: "counted (dm_metrics d) c \<Longrightarrow> daemon_effect sv m d (d\<lparr>dm_metrics := c\<rparr>)"
| searches: "daemon_effect sv SEARCH_GREP d
     (snd (on_search (search_grep (sv_os sv) (sv_rg sv) (sv_search_size sv)) p d))"
| parses: "later sv (dm_parse_cache d) g \<Longrightarrow> daemon_effect sv m d (d\<lparr>dm_parse_cache := g\<rparr>)"
| runs: "daemon_effect sv TOOL_RUN d
     (snd (on_tools (tool_run (sv_os sv) (sv_render sv) (sv_exec sv)) p d))"
| runs_gh: "daemon_effect sv TOOL_GH d (snd (on_tools (tool_gh (sv_render sv) (sv_exec sv)) p d))"
| spawns: "daemon_effect sv TOOL_SPAWN d
     (d\<lparr>dm_jobs := snd (tool_spawn (sv_os sv) (root_of d) (sv_spawn sv) p (dm_jobs d))\<rparr>)"
| reads_logs: "daemon_effect sv TOOL_READ_LOGS d (d\<lparr>dm_jobs := snd (tool_read_logs p (dm_jobs d))\<rparr>)"
| kills: "daemon_effect sv TOOL_KILL d (d\<lparr>dm_jobs := snd (tool_kill p (dm_jobs d))\<rparr>)"

inductive_cases daemon_effectE: "daemon_effect sv m d d'"

lemma json_handler_effect:
  "daemon_effect sv m d (snd (json_handler dec enc h params d))"
  if "\<And>p. daemon_effect sv m d (snd (h p d))"
  using that by (simp add: json_handler_snd daemon_effect.none split: res.splits)

lemma lift_snd:
  "snd (read_fs h1 p1 d) = d"
  "snd (on_fs h2 p2 d) = d\<lparr>dm_fs := snd (h2 p2 (dm_fs d))\<rparr>"
  "snd (on_git h3 sv p3 d) =
     d\<lparr>dm_metrics := snd (h3 (sv_lg sv (files_of d)) (root_of d) p3 (dm_metrics d))\<rparr>"
  "snd (on_code h4 p4 d) = d\<lparr>dm_parse_cache := snd (h4 (dm_fs d) p4 (dm_parse_cache d))\<rparr>"
  "snd (on_jobs h5 p5 d) = d\<lparr>dm_jobs := snd (h5 (root_of d) p5 (dm_jobs d))\<rparr>"
  by (simp_all add: read_fs_def on_fs_def on_git_def on_code_def on_jobs_def split: prod.splits)

lemma effect_branch:
  "(m = k \<Longrightarrow> daemon_effect sv k d (snd a)) \<Longrightarrow> (m \<noteq> k \<Longrightarrow> daemon_effect sv m d (snd b)) \<Longrightarrow>
     daemon_effect sv m d (snd (if m = k then a else b))"
  by simp

lemma dispatch_method_effect: "daemon_effect sv m d (snd (dispatch_method sv de en m params d))"
  unfolding dispatch_method_def Let_def fs_read_def code_outline_def code_symbols_def code_imports_def
    metrics_gain_def metrics_tool_latency_def fs_snapshot_json_def
  by (intro effect_branch json_handler_effect)
    (auto simp: lift_snd fs_snapshot_def split: prod.splits
      intro: daemon_effect.intros git_counts git_history_counts code_later)

subsection \<open>The files a connection can touch\<close>

text \<open>Programs started by \<open>tool.run\<close> and \<open>tool.gh\<close> may do anything; \<open>programs_confined\<close> says that they
  leave the files outside a directory alone.\<close>

definition programs_confined :: "('t, 'w) Services \<Rightarrow> path \<Rightarrow> bool" where
  "programs_confined sv root \<longleftrightarrow>
     (\<forall>cmd w fs q. \<not> prefix root q \<longrightarrow> snd (snd (sv_exec sv cmd (w, fs))) q = fs q)"

definition stays_in_root ::
  "('t, 'w) Services \<Rightarrow> ('t, 'w) Daemon \<Rightarrow> ('t, 'w) Daemon \<Rightarrow> bool" where
  "stays_in_root sv d d' \<longleftrightarrow>
     root_of d' = root_of d \<and>
     (programs_confined sv (root_of d) \<longrightarrow> (\<forall>q. \<not> prefix (root_of d) q \<longrightarrow> files_of d' q = files_of d q))"

lemma confined_refl: "confined (st_root st) (st_files st) st"
  by (simp add: confined_def)

text \<open>A command gets the world and the files, and nothing else of the state changes but the result
  cache and the counters.\<close>

definition ran :: "'w exec \<Rightarrow> 'w \<Rightarrow> 'w \<Rightarrow> bool" where
  "ran exec w w' \<longleftrightarrow> w' = w \<or> (\<exists>cmd. w' = snd (exec cmd w))"

lemma ranI: "ran exec w w" "exec cmd w = (r, w') \<Longrightarrow> ran exec w w'"
  unfolding ran_def by (simp, metis snd_conv)

lemma tool_run_world: "ran exec w (snd (snd (tool_run os rd exec p (st, w))))"
  by (auto simp: tool_run_def tool_run_inner_def Let_def intro: ranI
      split: res.splits option.splits prod.splits)

lemma tool_gh_world: "ran exec w (snd (snd (tool_gh rd exec p (st, w))))"
  by (auto simp: tool_gh_def Let_def intro: ranI split: res.splits option.splits prod.splits)

lemma on_tools_fs:
  "dm_fs (snd (on_tools h p d)) = (dm_fs d)\<lparr>st_files := snd (snd (snd (h p
     (\<lparr>ts_root = root_of d, ts_changelog = log_of d, ts_tool_run_cache = dm_tool_run_cache d,
       ts_metrics = dm_metrics d\<rparr>, dm_world d, files_of d))))\<rparr>"
  by (simp add: on_tools_def split: prod.splits)

lemma on_tools_in_root:
  assumes "\<And>st w. ran (sv_exec sv) w (snd (snd (h p (st, w))))"
  shows "stays_in_root sv d (snd (on_tools h p d))"
proof -
  let ?st = "\<lparr>ts_root = root_of d, ts_changelog = log_of d, ts_tool_run_cache = dm_tool_run_cache d,
       ts_metrics = dm_metrics d\<rparr>"
  from assms [of "(dm_world d, files_of d)" ?st] show ?thesis
    by (auto simp: stays_in_root_def on_tools_fs programs_confined_def ran_def)
qed

lemma effect_in_root: "daemon_effect sv m d d' \<Longrightarrow> stays_in_root sv d d'"
proof (erule daemon_effectE, goal_cases)
  case (2 p)
  then show ?case
    using fs_apply_patch_confined [OF confined_refl] by (simp add: stays_in_root_def confined_def)
next
  case (3 p)
  then show ?case
    using fs_replace_all_confined [OF confined_refl] by (simp add: stays_in_root_def confined_def)
next
  case (7 p)
  then show ?case by (auto intro!: on_tools_in_root tool_run_world)
next
  case (8 p)
  then show ?case by (auto intro!: on_tools_in_root tool_gh_world)
qed (simp_all add: stays_in_root_def on_search_def split: prod.splits)

interpretation in_root: served_table "dispatch_method sv de en" "stays_in_root sv" daemon_record for sv de en
proof unfold_locales
  fix d :: "('a, 'b) Daemon" and m p
  show "stays_in_root sv d (snd (dispatch_method sv de en m p d))"
    by (rule effect_in_root [OF dispatch_method_effect])
qed (auto simp: stays_in_root_def daemon_record_def)

subsection \<open>Runs\<close>

text \<open>What happens to the daemon, one critical section after another: a call of a method (the steps of
  a pipe are calls too, and calls of several connections interleave), the counting of a request, a
  change the watcher reports (it forgets the parsed file and records the change), the work of other
  programs, which change files and let time pass, and the output or end of a background job.\<close>

datatype 'w daemon_event =
  Call string json
| Counted metric_event
| Watched string string ChangeKind
| Disturbed files "nat option" 'w
| Job_Progress nat BackgroundJob

fun daemon_step ::
  "('t, 'w) Services \<Rightarrow> Decoders \<Rightarrow> Encoders \<Rightarrow> 'w daemon_event \<Rightarrow> ('t, 'w) Daemon \<Rightarrow> ('t, 'w) Daemon" where
  "daemon_step sv de en (Call m p) d = snd (dispatch_method sv de en m p d)"
| "daemon_step sv de en (Counted ev) d = daemon_record ev d"
| "daemon_step sv de en (Watched p rel k) d =
     d\<lparr>dm_parse_cache := evict p (dm_parse_cache d),
       dm_fs := (dm_fs d)\<lparr>st_changelog := changelog_record rel k (log_of d)\<rparr>\<rparr>"
| "daemon_step sv de en (Disturbed fs now w) d =
     d\<lparr>dm_fs := (dm_fs d)\<lparr>st_files := fs, st_now := now\<rparr>, dm_world := w\<rparr>"
| "daemon_step sv de en (Job_Progress i job) d =
     (if i \<in> dom (jt_jobs (dm_jobs d))
      then d\<lparr>dm_jobs := (dm_jobs d)\<lparr>jt_jobs := (jt_jobs (dm_jobs d))(i \<mapsto> job)\<rparr>\<rparr> else d)"

definition daemon_run ::
  "('t, 'w) Services \<Rightarrow> Decoders \<Rightarrow> Encoders \<Rightarrow> 'w daemon_event list \<Rightarrow> ('t, 'w) Daemon \<Rightarrow> ('t, 'w) Daemon" where
  "daemon_run sv de en evs d = fold (daemon_step sv de en) evs d"

definition some_run ::
  "('t, 'w) Services \<Rightarrow> Decoders \<Rightarrow> Encoders \<Rightarrow> ('t, 'w) Daemon \<Rightarrow> ('t, 'w) Daemon \<Rightarrow> bool" where
  "some_run sv de en d d' \<longleftrightarrow> (\<exists>evs. d' = daemon_run sv de en evs d)"

lemma some_run_step: "some_run sv de en d (daemon_step sv de en ev d)"
  unfolding some_run_def daemon_run_def by (rule exI [of _ "[ev]"]) simp

interpretation runs: served_table "dispatch_method sv de en" "some_run sv de en" daemon_record for sv de en
proof unfold_locales
  fix d t u :: "('a, 'b) Daemon" and m p ev
  show "some_run sv de en d d" unfolding some_run_def daemon_run_def by (rule exI [of _ "[]"]) simp
  show "some_run sv de en d u" if "some_run sv de en d t" "some_run sv de en t u"
    using that unfolding some_run_def daemon_run_def by (metis comp_apply fold_append)
  show "some_run sv de en d (snd (dispatch_method sv de en m p d))"
    using some_run_step [of sv de en d "Call m p"] by simp
  show "some_run sv de en d (daemon_record ev d)"
    using some_run_step [of sv de en d "Counted ev"] by simp
qed

subsection \<open>The invariant of the daemon\<close>

text \<open>\<open>n\<close> bounds the number of events so far.\<close>

definition daemon_inv :: "Config \<Rightarrow> nat \<Rightarrow> ('t, 'w) Daemon \<Rightarrow> bool" where
  "daemon_inv cfg n d \<longleftrightarrow>
     root_of d = cfg_root cfg \<and>
     cl_capacity (log_of d) = cfg_changelog_capacity cfg \<and>
     length (cl_entries (log_of d)) \<le> cfg_changelog_capacity cfg \<and>
     (\<forall>e \<in> set (cl_entries (log_of d)). ce_version e \<le> cl_version (log_of d)) \<and>
     cl_overflow_high_water (log_of d) \<le> cl_version (log_of d) \<and>
     cl_version (log_of d) \<le> n \<and>
     search_cache_inv (dm_search_cache d) \<and>
     sc_capacity (dm_search_cache d) = cfg_search_cache_capacity cfg \<and>
     sc_version (dm_search_cache d) \<le> cl_version (log_of d) \<and>
     pc_capacity (dm_parse_cache d) = cfg_parse_cache_capacity cfg \<and>
     length (pc_entries (dm_parse_cache d)) \<le> cfg_parse_cache_capacity cfg \<and>
     distinct (map fst (dm_metrics d)) \<and>
     ids_ok n (dm_jobs d)"

text \<open>One conjunct for each part of the state, so that an effect on one part concerns one of them.\<close>

definition log_ok :: "nat \<Rightarrow> nat \<Rightarrow> ChangeLog \<Rightarrow> bool" where
  "log_ok c n l \<longleftrightarrow>
     cl_capacity l = c \<and> length (cl_entries l) \<le> c \<and> cl_version l \<le> n \<and>
     (\<forall>e \<in> set (cl_entries l). ce_version e \<le> cl_version l) \<and> cl_overflow_high_water l \<le> cl_version l"

definition search_ok :: "nat \<Rightarrow> ChangeLog \<Rightarrow> SearchCache \<Rightarrow> bool" where
  "search_ok c l g \<longleftrightarrow> search_cache_inv g \<and> sc_capacity g = c \<and> sc_version g \<le> cl_version l"

definition parse_ok :: "nat \<Rightarrow> 't ParseCache \<Rightarrow> bool" where
  "parse_ok c g \<longleftrightarrow> pc_capacity g = c \<and> length (pc_entries g) \<le> c"

lemma daemon_inv_parts:
  "daemon_inv cfg n d \<longleftrightarrow>
     root_of d = cfg_root cfg \<and> log_ok (cfg_changelog_capacity cfg) n (log_of d) \<and>
     search_ok (cfg_search_cache_capacity cfg) (log_of d) (dm_search_cache d) \<and>
     parse_ok (cfg_parse_cache_capacity cfg) (dm_parse_cache d) \<and>
     distinct (map fst (dm_metrics d)) \<and> ids_ok n (dm_jobs d)"
  by (auto simp: daemon_inv_def log_ok_def search_ok_def parse_ok_def)

lemma log_ok_record:
  "log_ok c n l \<Longrightarrow> 0 < c \<Longrightarrow> Suc n < 2 ^ 64 \<Longrightarrow>
     log_ok c (Suc n) (changelog_record p k l) \<and> cl_version (changelog_record p k l) = Suc (cl_version l)"
  by (fastforce simp: log_ok_def changelog_record_def Let_def split: list.splits)

lemma log_ok_mono: "log_ok c n l \<Longrightarrow> n \<le> n' \<Longrightarrow> log_ok c n' l"
  by (simp add: log_ok_def)

lemma ids_ok_mono: "ids_ok n t \<Longrightarrow> n \<le> n' \<Longrightarrow> ids_ok n' t"
  by (simp add: ids_ok_def)

lemma search_ok_record:
  "search_ok c l g \<Longrightarrow> cl_version l \<le> cl_version l' \<Longrightarrow> search_ok c l' g"
  by (simp add: search_ok_def)

lemma evict_ok: "parse_ok c g \<Longrightarrow> parse_ok c (evict p g)"
  by (auto simp: parse_ok_def evict_def remove_at_def split: option.splits)

lemma get_or_parse_ok:
  assumes "get_or_parse gr fv path g = (r, g')" "parse_ok c g"
  shows "parse_ok c g'"
proof -
  have look: "parse_cache_lookup sl path g = (x, h) \<Longrightarrow> parse_ok c h" for sl x h
    using assms(2)
    by (auto simp: parse_cache_lookup_def parse_ok_def Let_def remove_at_def pos_simps
        split: option.splits if_splits dest: position_SomeD)
  have store: "parse_ok c h \<Longrightarrow> parse_ok c (parse_cache_store sl path st h)" for sl st h
    using length_pop_front_until [of "pc_capacity h" "pc_entries h"]
    by (auto simp: parse_cache_store_def parse_ok_def)
  show ?thesis
    using assms(1,2)
    by (auto simp: get_or_parse_def intro: look store split: option.splits prod.splits res.splits)
qed

lemma later_ok: "parse_later gr g g' \<Longrightarrow> parse_ok c g \<Longrightarrow> parse_ok c g'"
  by (induction rule: parse_later.induct) (auto dest: get_or_parse_ok)

lemma counted_distinct: "counted m m' \<Longrightarrow> distinct (map fst m) \<Longrightarrow> distinct (map fst m')"
proof -
  have "distinct (map fst m) \<Longrightarrow> distinct (map fst (fold metrics_record evs m))" for evs
    by (induction evs arbitrary: m) (auto intro: distinct_record)
  then show "counted m m' \<Longrightarrow> distinct (map fst m) \<Longrightarrow> distinct (map fst m')"
    by (auto simp: counted_def)
qed

text \<open>The cache takes the version of the log it is used at, or keeps its own.\<close>

lemma search_get_ok:
  "search_ok c l g \<Longrightarrow> search_cache_get (cl_version l) k g = (x, g') \<Longrightarrow> search_ok c l g'"
  using cache_step_inv [of g "Get (cl_version l) k"]
  by (auto simp: search_ok_def cache_step_def search_cache_get_def Let_def split: if_splits option.splits)

lemma search_insert_ok:
  "search_ok c l g \<Longrightarrow> search_ok c l (search_cache_insert (cl_version l) k r g)"
  using cache_step_inv [of g "Insert (cl_version l) k r"]
  by (auto simp: search_ok_def cache_step_def search_cache_insert_def Let_def split: if_splits option.splits)

lemmas search_miss_ok = search_insert_ok [OF search_get_ok]

lemma search_grep_ok:
  assumes "search_grep os rg sz tree p st = (r, st')" "search_ok c (ss_changelog st) (ss_cache st)"
  shows "search_ok c (ss_changelog st) (ss_cache st') \<and> counted (ss_metrics st) (ss_metrics st')"
  using assms
  by (auto simp: search_grep_def changelog_snapshot_def finalize_search_def Let_def
      intro: search_miss_ok search_get_ok split: option.splits res.splits prod.splits)

lemma tool_run_counts:
  "counted (ts_metrics st) (ts_metrics (fst (snd (tool_run os rd exec p (st, w)))))"
  by (auto simp: tool_run_def tool_run_inner_def Let_def split: res.splits option.splits prod.splits)

lemma tool_gh_counts:
  "counted (ts_metrics st) (ts_metrics (fst (snd (tool_gh rd exec p (st, w)))))"
  by (auto simp: tool_gh_def Let_def split: res.splits option.splits prod.splits)

lemma tool_spawn_ids:
  assumes "ids_ok n t" "Suc (Suc n) < 2 ^ 64"
  shows "ids_ok (Suc n) (snd (tool_spawn os root spawn p t))"
proof -
  have "u64_add (jt_next_id t) 1 = Suc (jt_next_id t)"
    using assms by (subst u64_add_small) (auto simp: ids_ok_def)
  then show ?thesis
    using assms(1) by (auto simp: tool_spawn_def ids_ok_def Let_def split: res.splits)
qed

lemma ids_ok_upd:
  "ids_ok n t \<Longrightarrow> jt_jobs t i = Some job \<Longrightarrow> ids_ok n (t\<lparr>jt_jobs := (jt_jobs t)(i \<mapsto> job')\<rparr>)"
  by (auto simp: ids_ok_def)

lemma tool_read_logs_ids:
  assumes "ids_ok n t"
  shows "ids_ok n (snd (tool_read_logs p t))"
proof -
  obtain r t' where run: "tool_read_logs p t = (r, t')" by (rule prod.exhaust)
  then have "ids_ok n t'" using assms by (elim tool_read_logs_table) (auto intro: ids_ok_upd)
  then show ?thesis using run by simp
qed

lemma tool_kill_ids:
  assumes "ids_ok n t"
  shows "ids_ok n (snd (tool_kill p t))"
proof -
  obtain r t' where run: "tool_kill p t = (r, t')" by (rule prod.exhaust)
  then have "ids_ok n t'" using assms by (elim tool_kill_table) (auto intro: ids_ok_upd)
  then show ?thesis using run by simp
qed

text \<open>A write records at most one change.\<close>

definition recorded_once :: "FsState \<Rightarrow> FsState \<Rightarrow> bool" where
  "recorded_once st st' \<longleftrightarrow>
     st_root st' = st_root st \<and>
     (st_changelog st' = st_changelog st \<or>
      (\<exists>p k. st_changelog st' = changelog_record p k (st_changelog st)))"

lemma commit_write_recorded: "recorded_once st (snd (commit_write p b st))"
proof -
  obtain r st1 where w: "write_file_checked p b st = (r, st1)" by (rule prod.exhaust)
  from write_file_checked_frame [OF w] show ?thesis
    by (cases r) (auto simp: commit_write_def w recorded_once_def record_daemon_write_def)
qed

lemmas recorded_then = and_then_inv [where I = "recorded_once st" for st]

lemma fs_apply_patch_recorded: "recorded_once st (snd (fs_apply_patch os p st))"
proof (cases "patch_plan os p st")
  case (Ok pb)
  then show ?thesis
    using commit_write_recorded [of st "fst pb" "snd pb"]
    unfolding fs_apply_patch_def Ok and_then_simps
    by (auto simp: and_then_pure intro!: recorded_then split: prod.splits)
qed (simp_all add: fs_apply_patch_def recorded_once_def)

lemma fs_replace_all_recorded: "recorded_once st (snd (fs_replace_all os p st))"
proof (cases "replace_plan os p st")
  case (Ok pb)
  have "recorded_once st st" by (simp add: recorded_once_def)
  then show ?thesis
    using commit_write_recorded [of st "fst pb" "snd (snd pb)"]
    unfolding fs_replace_all_def Ok and_then_simps
    by (auto simp: and_then_pure intro!: recorded_then split: prod.splits)
qed (simp_all add: fs_replace_all_def recorded_once_def)

lemma recorded_once_inv:
  assumes "recorded_once (dm_fs d) st" "daemon_inv cfg n d" "0 < cfg_changelog_capacity cfg" "Suc n < 2 ^ 64"
  shows "daemon_inv cfg (Suc n) (d\<lparr>dm_fs := st\<rparr>)"
proof -
  from assms(1) consider "st_changelog st = log_of d"
    | p k where "st_changelog st = changelog_record p k (log_of d)" by (auto simp: recorded_once_def)
  then show ?thesis
  proof cases
    case 1
    then show ?thesis
      using assms(1,2) by (auto simp: daemon_inv_parts recorded_once_def intro: log_ok_mono ids_ok_mono)
  next
    case 2
    then show ?thesis
      using assms log_ok_record [of "cfg_changelog_capacity cfg" n "log_of d" p k]
      by (auto simp: daemon_inv_parts recorded_once_def intro: ids_ok_mono search_ok_record)
  qed
qed

lemma daemon_inv_mono: "daemon_inv cfg n d \<Longrightarrow> n \<le> n' \<Longrightarrow> daemon_inv cfg n' d"
  by (auto simp: daemon_inv_parts intro: log_ok_mono ids_ok_mono)

lemma on_tools_inv:
  assumes "\<And>st w. counted (ts_metrics st) (ts_metrics (fst (snd (h p (st, w)))))" "daemon_inv cfg n d"
  shows "daemon_inv cfg n (snd (on_tools h p d))"
proof -
  let ?st = "\<lparr>ts_root = root_of d, ts_changelog = log_of d, ts_tool_run_cache = dm_tool_run_cache d,
       ts_metrics = dm_metrics d\<rparr>"
  from assms(1) [of ?st "(dm_world d, files_of d)"] assms(2) show ?thesis
    by (auto simp: daemon_inv_parts on_tools_def split: prod.splits dest: counted_distinct)
qed

lemma on_search_inv:
  assumes "daemon_inv cfg n d"
  shows "daemon_inv cfg n (snd (on_search (search_grep os rg sz) p d))"
proof -
  let ?st = "\<lparr>ss_root = root_of d, ss_changelog = log_of d, ss_cache = dm_search_cache d, ss_metrics = dm_metrics d\<rparr>"
  obtain r st' where g: "search_grep os rg sz (files_of d) p ?st = (r, st')" by (rule prod.exhaust)
  then have "snd (on_search (search_grep os rg sz) p d) =
      d\<lparr>dm_search_cache := ss_cache st', dm_metrics := ss_metrics st'\<rparr>"
    by (simp add: on_search_def)
  then show ?thesis
    using search_grep_ok [OF g, of "cfg_search_cache_capacity cfg"] assms
    by (auto simp: daemon_inv_parts dest: counted_distinct)
qed

lemma effect_inv:
  assumes "daemon_effect sv m d d'" "daemon_inv cfg n d" "0 < cfg_changelog_capacity cfg" "Suc (Suc n) < 2 ^ 64"
  shows "daemon_inv cfg (Suc n) d'"
  using assms(1)
proof cases
  case (patched p)
  then show ?thesis using recorded_once_inv [OF fs_apply_patch_recorded assms(2,3)] assms(4) by simp
next
  case (replaced p)
  then show ?thesis using recorded_once_inv [OF fs_replace_all_recorded assms(2,3)] assms(4) by simp
next
  case (searches p)
  then show ?thesis using daemon_inv_mono [OF on_search_inv [OF assms(2)]] by simp
next
  case (runs p)
  then show ?thesis
    by (auto intro!: daemon_inv_mono [OF on_tools_inv [OF _ assms(2)]] tool_run_counts)
next
  case (runs_gh p)
  then show ?thesis
    by (auto intro!: daemon_inv_mono [OF on_tools_inv [OF _ assms(2)]] tool_gh_counts)
next
  case (spawns p)
  then show ?thesis
    using assms(2,4) by (auto simp: daemon_inv_parts intro: log_ok_mono tool_spawn_ids)
qed (use assms(2) in \<open>auto simp: daemon_inv_parts intro: log_ok_mono ids_ok_mono later_ok counted_distinct
      tool_read_logs_ids tool_kill_ids\<close>)

lemma daemon_step_inv:
  assumes "daemon_inv cfg n d" "0 < cfg_changelog_capacity cfg" "Suc (Suc n) < 2 ^ 64"
  shows "daemon_inv cfg (Suc n) (daemon_step sv de en ev d)"
proof (cases ev)
  case (Call m p)
  then show ?thesis using effect_inv [OF dispatch_method_effect assms] by simp
next
  case (Watched p rel k)
  have "recorded_once (dm_fs d) ((dm_fs d)\<lparr>st_changelog := changelog_record rel k (log_of d)\<rparr>)"
    by (auto simp: recorded_once_def)
  from recorded_once_inv [OF this assms(1,2)] assms(3) show ?thesis
    by (simp add: Watched daemon_inv_parts evict_ok)
next
  case (Job_Progress i job)
  then show ?thesis
    using assms(1) by (auto simp: daemon_inv_parts intro: log_ok_mono ids_ok_mono ids_ok_mono [OF ids_ok_upd])
qed (use assms(1) in \<open>auto simp: daemon_inv_parts daemon_record_def distinct_record intro: log_ok_mono ids_ok_mono\<close>)

lemma daemon_new_inv: "daemon_inv cfg 0 (daemon_new cfg fs now w)"
  by (simp add: daemon_inv_def daemon_new_def changelog_with_capacity_def search_cache_new_def
      search_cache_inv_def parse_cache_new_def job_table_new_def ids_ok_def)

lemma daemon_run_snoc [simp]:
  "daemon_run sv de en [] d = d"
  "daemon_run sv de en (evs @ [ev]) d = daemon_step sv de en ev (daemon_run sv de en evs d)"
  by (simp_all add: daemon_run_def)

lemma daemon_run_inv:
  assumes "0 < cfg_changelog_capacity cfg"
  shows "Suc (length evs) < 2 ^ 64 \<Longrightarrow>
    daemon_inv cfg (length evs) (daemon_run sv de en evs (daemon_new cfg fs now w))"
proof (induction evs rule: rev_induct)
  case Nil
  then show ?case by (simp add: daemon_new_inv)
next
  case (snoc ev evs)
  then show ?case using daemon_step_inv [OF snoc.IH assms] by simp
qed

subsection \<open>A write and what follows it\<close>

lemma record_version: "cl_version (changelog_record p k l) = u64_add (cl_version l) 1"
  by (simp add: changelog_record_def Let_def split: list.splits)

lemma changes_since_one:
  assumes "log_ok c n l" "Suc n < 2 ^ 64"
  shows "changes_since (cl_version l) (changelog_record p k l) =
    (Suc (cl_version l), [\<lparr>ce_path = p, ce_kind = k, ce_version = Suc (cl_version l)\<rparr>], False)"
proof -
  let ?e = "\<lparr>ce_path = p, ce_kind = k, ce_version = Suc (cl_version l)\<rparr>"
  have v: "u64_add (cl_version l) 1 = Suc (cl_version l)" using assms by (auto simp: log_ok_def)
  have "filter (\<lambda>e. cl_version l < ce_version e) (cl_entries l) = []"
    using assms(1) by (auto simp: log_ok_def filter_empty_conv)
  then have new: "filter (\<lambda>e. cl_version l < ce_version e) (cl_entries (changelog_record p k l)) = [?e]"
    using v by (auto simp: changelog_record_def Let_def split: list.splits if_splits)
  have "cl_overflow_high_water (changelog_record p k l) \<le> cl_version l"
    using assms(1) by (auto simp: log_ok_def changelog_record_def Let_def split: list.splits)
  then show ?thesis
    using v record_version [of p k l]
    by (auto simp: changes_since_def new Let_def coalesced_row_def List.map_filter_simps al_or_insert_def)
qed

text \<open>A search at a version the cache does not have is a search without a cache.\<close>

lemma search_grep_fresh:
  assumes "sc_version (ss_cache st) \<noteq> cl_version (ss_changelog st)" "sc_capacity none = 0"
  shows "fst (search_grep os rg sz tree p st) = fst (search_grep os rg sz tree p (st\<lparr>ss_cache := none\<rparr>))"
proof (cases "search_root os (ss_root st) (sgp_path p)")
  case (Ok sr)
  obtain c where "search_cache_get (cl_version (ss_changelog st)) (search_key p) (ss_cache st) = (None, c)"
    using assms(1) by (cases "sc_capacity (ss_cache st) = 0") (simp_all add: search_cache_get_def)
  then show ?thesis
    using Ok assms(2)
    by (cases "sgp_path p"; cases "search_tree rg tree (ss_root st) sr p")
      (simp_all add: search_grep_def search_root_def changelog_snapshot_def finalize_search_def Let_def)
next
  case (Err e)
  then show ?thesis by (cases "sgp_path p") (simp_all add: search_grep_def search_root_def)
next
  case (Panic e)
  then show ?thesis by (cases "sgp_path p") (simp_all add: search_grep_def search_root_def)
qed

lemma json_handler_fst:
  assumes "\<And>p. fst (h p s) = fst (h p s')"
  shows "fst (json_handler dec enc h params s) = fst (json_handler dec enc h params s')"
proof (cases "dec params")
  case (Ok p)
  obtain r t t' where "h p s = (r, t)" "h p s' = (r, t')"
    using assms [of p] by (metis fst_conv prod.exhaust)
  with Ok show ?thesis by (cases r) (simp_all add: json_handler_def map_err_def)
qed (simp_all add: json_handler_def map_err_def)

subsection \<open>Methods and their parameters\<close>

definition decode_error :: "(json \<Rightarrow> ('a, string) res) \<Rightarrow> json \<Rightarrow> string option" where
  "decode_error dec p = (case dec p of Err e \<Rightarrow> Some e | _ \<Rightarrow> None)"

text \<open>The methods that decode their parameters, each with its decoder.\<close>

definition parameter_checks :: "Decoders \<Rightarrow> (string \<times> (json \<Rightarrow> string option)) list" where
  "parameter_checks de =
     [(FS_READ, decode_error (dec_fs_read de)), (FS_READ_BATCH, decode_error (dec_fs_read_batch de)),
      (FS_APPLY_PATCH, decode_error (dec_fs_apply_patch de)),
      (FS_REPLACE_ALL, decode_error (dec_fs_replace_all de)), (FS_CHANGES, decode_error (dec_fs_changes de)),
      (FS_SCAN, decode_error (dec_fs_scan de)), (GIT_STATUS, decode_error (dec_git_status de)),
      (GIT_LOG, decode_error (dec_git_log de)), (GIT_DIFF, decode_error (dec_git_diff de)),
      (GIT_BLAME, decode_error (dec_git_blame de)), (GIT_HISTORY, decode_error (dec_git_history de)),
      (SEARCH_GREP, decode_error (dec_search_grep de)), (CODE_OUTLINE, decode_error (dec_code_outline de)),
      (CODE_OUTLINE_BATCH, decode_error (dec_code_outline_batch de)),
      (CODE_SYMBOLS, decode_error (dec_code_symbols de)),
      (CODE_SYMBOLS_BATCH, decode_error (dec_code_symbols_batch de)),
      (CODE_IMPORTS, decode_error (dec_code_imports de)),
      (CODE_DEPENDENCIES, decode_error (dec_code_dependencies de)),
      (CODE_FIND_OCCURRENCES, decode_error (dec_code_find_occurrences de)),
      (FS_READ_SKELETON, decode_error (dec_fs_read_skeleton de)), (TOOL_RUN, decode_error (dec_tool_run de)),
      (TOOL_GH, decode_error (dec_tool_gh de)), (TOOL_SPAWN, decode_error (dec_tool_spawn de)),
      (TOOL_READ_LOGS, decode_error (dec_tool_read_logs de)), (TOOL_KILL, decode_error (dec_tool_kill de)),
      (METRICS_GAIN, decode_error (dec_metrics_gain de)),
      (METRICS_TOOL_LATENCY, decode_error (dec_metrics_tool_latency de))]"

lemma json_handler_rejects:
  "decode_error dec params = Some e \<Longrightarrow>
     json_handler dec enc h params s = (Err (rpc_error (-32602) (''invalid params: '' @ e)), s)"
  by (auto simp: json_handler_def decode_error_def map_err_def split: res.splits)

text \<open>No two names are the same, in the order in which the table compares them.\<close>

lemma method_names_differ: "distinct (rev all_methods)"
  using distinct_all_methods by simp

lemmas method_neqs = method_names_differ [unfolded all_methods_def, simplified]

lemma dispatch_method_rejects:
  assumes "(m, chk) \<in> set (parameter_checks de)" "chk params = Some e"
  shows "dispatch_method sv de en m params d =
    (Err (rpc_error (-32602) (''invalid params: '' @ e)), d)"
  using assms unfolding parameter_checks_def list.set
  by (elim insertE emptyE Pair_inject; hypsubst)
    (simp_all add: dispatch_method_def method_neqs Let_def json_handler_rejects
      fs_read_def code_outline_def code_symbols_def code_imports_def metrics_gain_def metrics_tool_latency_def)

lemma dispatch_method_unknown:
  assumes "m \<notin> set all_methods"
  shows "dispatch_method sv de en m params d = (Err (rpc_error (-32601) (''unknown method: '' @ m)), d)"
  using assms by (simp add: all_methods_def dispatch_method_def Let_def)

lemma json_handler_okE:
  assumes "json_handler dec enc h params s = (Ok v, s')"
  obtains p r where "dec params = Ok p" "h p s = (Ok r, s')" "v = enc r"
  using assms by (auto simp: json_handler_def and_then_Ok_iff)

lemma dispatch_patchE:
  assumes "dispatch_method sv de en FS_APPLY_PATCH params d = (Ok v, d')"
  obtains p r st where "dec_fs_apply_patch de params = Ok p"
    "fs_apply_patch (sv_os sv) p (dm_fs d) = (Ok r, st)" "d' = d\<lparr>dm_fs := st\<rparr>"
proof -
  have "json_handler (dec_fs_apply_patch de) (enc_fs_apply_patch en) (on_fs (fs_apply_patch (sv_os sv))) params d =
      (Ok v, d')"
    using assms by (simp add: dispatch_method_def method_neqs)
  then show thesis
    by (rule json_handler_okE) (auto simp: on_fs_def split: prod.splits intro: that)
qed

lemma dispatch_search:
  "dispatch_method sv de en SEARCH_GREP params d =
     json_handler (dec_search_grep de) (enc_search_grep en)
       (on_search (search_grep (sv_os sv) (sv_rg sv) (sv_search_size sv))) params d"
  by (simp add: dispatch_method_def method_neqs)

lemma apply_patch_records:
  assumes "fs_apply_patch os p st = (Ok r, st')"
  obtains path where "resolve_within os (st_root st) (fapp_path p) = Ok path"
    "st_root st' = st_root st"
    "st_changelog st' = changelog_record (relative_str (st_root st) path) Modified (st_changelog st)"
proof -
  from assms obtain path patched where plan: "patch_plan os p st = Ok (path, patched)"
    and commit: "commit_write path patched st = (Ok (), st')"
    by (auto simp: fs_apply_patch_def and_then_Ok_iff split: prod.splits)
  from commit obtain st0 where w: "write_file_checked path patched st = (Ok (), st0)"
    and st': "st' = record_daemon_write path st0"
    by (auto simp: commit_write_def and_then_Ok_iff)
  have "resolve_within os (st_root st) (fapp_path p) = Ok path"
    using plan by (auto simp: patch_plan_def res_simps)
  then show thesis
    using that write_file_checked_frame [OF w] st' by (simp add: record_daemon_write_def)
qed

text \<open>A recorded change, whoever records it, is the one change since the version before, and no search
  is answered from before it.\<close>

lemma recorded_change_visible:
  assumes "daemon_inv cfg n d" "0 < cfg_changelog_capacity cfg" "Suc n < 2 ^ 64"
    and "log_of d1 = changelog_record rel k (log_of d)" "dm_search_cache d1 = dm_search_cache d"
  shows "changes_since (cl_version (log_of d)) (log_of d1) =
      (Suc (cl_version (log_of d)), [\<lparr>ce_path = rel, ce_kind = k, ce_version = Suc (cl_version (log_of d))\<rparr>], False)"
    and "fst (dispatch_method sv de en SEARCH_GREP query d1) =
      fst (dispatch_method sv de en SEARCH_GREP query (d1\<lparr>dm_search_cache := search_cache_new 0\<rparr>))"
proof -
  from assms(1) have ok: "log_ok (cfg_changelog_capacity cfg) n (log_of d)"
    and cache: "sc_version (dm_search_cache d) \<le> cl_version (log_of d)"
    by (auto simp: daemon_inv_parts search_ok_def)
  show "changes_since (cl_version (log_of d)) (log_of d1) =
      (Suc (cl_version (log_of d)), [\<lparr>ce_path = rel, ce_kind = k, ce_version = Suc (cl_version (log_of d))\<rparr>], False)"
    unfolding assms(4) by (rule changes_since_one [OF ok assms(3)])
  have "cl_version (log_of d1) = Suc (cl_version (log_of d))"
    using log_ok_record [OF ok assms(2,3)] assms(4) by simp
  then have stale: "sc_version (dm_search_cache d1) \<noteq> cl_version (log_of d1)" using cache assms(5) by simp
  have "fst (on_search (search_grep (sv_os sv) (sv_rg sv) (sv_search_size sv)) q d1) =
      fst (on_search (search_grep (sv_os sv) (sv_rg sv) (sv_search_size sv)) q
        (d1\<lparr>dm_search_cache := search_cache_new 0\<rparr>))" for q
    using search_grep_fresh [where st = "\<lparr>ss_root = root_of d1, ss_changelog = log_of d1,
        ss_cache = dm_search_cache d1, ss_metrics = dm_metrics d1\<rparr>" and none = "search_cache_new 0"] stale
    by (simp add: on_search_def search_cache_new_def split_beta)
  then show "fst (dispatch_method sv de en SEARCH_GREP query d1) =
      fst (dispatch_method sv de en SEARCH_GREP query (d1\<lparr>dm_search_cache := search_cache_new 0\<rparr>))"
    unfolding dispatch_search by (rule json_handler_fst)
qed

subsection \<open>A small daemon\<close>

definition demo_sv :: "(unit, unit) Services" where
  "demo_sv =
     \<lparr>sv_os = demo_os,
      sv_rg = \<lparr>rg_regex = (\<lambda>_ _. Ok ()), rg_glob_add = (\<lambda>_. Ok ()), rg_glob_build = (\<lambda>_. Ok ()),
               rg_walk = (\<lambda>_ _ _ _. []), rg_search = (\<lambda>_ _ _ _ _. [])\<rparr>,
      sv_lg = (\<lambda>_. demo_git), sv_sx = demo_syntax, sv_exists = (\<lambda>_ _. False), sv_walk = (\<lambda>_ _. []),
      sv_exec = (\<lambda>_ w. (Err not_found, w)), sv_spawn = (\<lambda>_. Err not_found),
      sv_render = demo_render, sv_search_size = (\<lambda>_. 0), sv_ratio = (\<lambda>_ _. 0)\<rparr>"

text \<open>Decoders that accept one patch and one search, and no other parameters.\<close>

definition demo_de :: Decoders where
  "demo_de =
     \<lparr>dec_fs_read = (\<lambda>_. Err ''x''), dec_fs_read_batch = (\<lambda>_. Err ''x''),
      dec_fs_apply_patch = (\<lambda>_. Ok (demo_patch ''a'' (Some 0))), dec_fs_replace_all = (\<lambda>_. Err ''x''),
      dec_fs_changes = (\<lambda>_. Err ''x''), dec_fs_scan = (\<lambda>_. Err ''x''), dec_git_status = (\<lambda>_. Err ''x''),
      dec_git_log = (\<lambda>_. Err ''x''), dec_git_diff = (\<lambda>_. Err ''x''), dec_git_blame = (\<lambda>_. Err ''x''),
      dec_git_history = (\<lambda>_. Err ''x''), dec_search_grep = (\<lambda>_. Ok demo_query),
      dec_code_outline = (\<lambda>_. Err ''x''), dec_code_outline_batch = (\<lambda>_. Err ''x''),
      dec_code_symbols = (\<lambda>_. Err ''x''), dec_code_symbols_batch = (\<lambda>_. Err ''x''),
      dec_code_imports = (\<lambda>_. Err ''x''), dec_code_dependencies = (\<lambda>_. Err ''x''),
      dec_code_find_occurrences = (\<lambda>_. Err ''x''), dec_fs_read_skeleton = (\<lambda>_. Err ''x''),
      dec_tool_run = (\<lambda>_. Err ''x''), dec_tool_gh = (\<lambda>_. Err ''x''), dec_tool_spawn = (\<lambda>_. Err ''x''),
      dec_tool_read_logs = (\<lambda>_. Err ''x''), dec_tool_kill = (\<lambda>_. Err ''x''), dec_metrics_gain = (\<lambda>_. Err ''x''),
      dec_metrics_tool_latency = (\<lambda>_. Err ''x''), dec_pipe = (\<lambda>_. Err ''x'')\<rparr>"

definition demo_en :: Encoders where
  "demo_en =
     \<lparr>enc_fs_read = (\<lambda>_. JNull), enc_fs_read_batch = (\<lambda>_. JNull), enc_fs_apply_patch = (\<lambda>_. JNull),
      enc_fs_replace_all = (\<lambda>_. JNull), enc_fs_snapshot = (\<lambda>_. JNull), enc_fs_changes = (\<lambda>_. JNull),
      enc_fs_scan = (\<lambda>_. JNull), enc_git_status = (\<lambda>_. JNull), enc_git_log = (\<lambda>_. JNull),
      enc_git_diff = (\<lambda>_. JNull), enc_git_blame = (\<lambda>_. JNull), enc_git_history = (\<lambda>_. JNull),
      enc_search_grep = (\<lambda>_. JNull), enc_code_outline = (\<lambda>_. JNull), enc_code_outline_batch = (\<lambda>_. JNull),
      enc_code_symbols = (\<lambda>_. JNull), enc_code_symbols_batch = (\<lambda>_. JNull), enc_code_imports = (\<lambda>_. JNull),
      enc_code_dependencies = (\<lambda>_. JNull), enc_code_find_occurrences = (\<lambda>_. JNull),
      enc_fs_read_skeleton = (\<lambda>_. JNull), enc_tool_run = (\<lambda>_. JNull), enc_tool_gh = (\<lambda>_. JNull),
      enc_tool_spawn = (\<lambda>_. JNull), enc_tool_read_logs = (\<lambda>_. JNull), enc_tool_kill = (\<lambda>_. JNull),
      enc_metrics_gain = (\<lambda>_. JNull), enc_metrics_tool_latency = (\<lambda>_. JNull), enc_pipe = (\<lambda>_. JNull)\<rparr>"

definition demo_cfg :: Config where
  "demo_cfg = \<lparr>cfg_socket = ''/s'', cfg_root = [''r''], cfg_changelog_capacity = 4,
     cfg_search_cache_capacity = 2, cfg_parse_cache_capacity = 2, cfg_prewarm_enabled = False,
     cfg_idle_timeout = None, cfg_io_uring_enabled = False\<rparr>"

definition demo_daemon :: "(unit, unit) Daemon" where
  "demo_daemon = daemon_new demo_cfg [[''r'', ''a''] \<mapsto> demo_file] (Some 9) ()"

lemma demo_daemon_fs: "dm_fs demo_daemon = demo_state"
  by (simp add: demo_daemon_def daemon_new_def demo_cfg_def demo_state_def)

lemma demo_confined: "programs_confined demo_sv root"
  by (simp add: programs_confined_def demo_sv_def)

lemma demo_patched:
  "dispatch_method demo_sv demo_de demo_en FS_APPLY_PATCH JNull demo_daemon =
     (Ok JNull, demo_daemon\<lparr>dm_fs := demo_state1\<rparr>)"
proof -
  have "fs_apply_patch (sv_os demo_sv) (demo_patch ''a'' (Some 0)) (dm_fs demo_daemon) =
     (Ok \<lparr>fapr_path = ''a'', fapr_applied = True, fapr_version = 1, fapr_mtime_ns = 9\<rparr>, demo_state1)"
    using demo_run [of "Some 0"] by (simp add: demo_daemon_fs demo_sv_def)
  then show ?thesis
    by (simp add: dispatch_method_def method_neqs json_handler_def demo_de_def demo_en_def on_fs_def map_err_def)
qed

subsection \<open>Properties\<close>

text \<open>C4. Whatever a client sends over a connection - any bytes, any requests, pipes with any steps and
  fan-out - no file outside the project root changes, and the root stays what it is, as long as
  the programs the client has the daemon run keep to the root themselves.\<close>

theorem connection_stays_in_root:
  assumes "handle_conn alloc dec enc (daemon_request sv de en jp sched elapsed) reader w pl d = (r, w', pl', d')"
    and "programs_confined sv (root_of d)" "\<not> prefix (root_of d) q"
  shows "files_of d' q = files_of d q \<and> root_of d' = root_of d"
proof -
  have "stays_in_root sv d (snd (daemon_request sv de en jp sched elapsed req d))" for req d
    unfolding daemon_request_def daemon_pipe_def by (rule in_root.dispatch_respects)
  then have "stays_in_root sv d (snd (snd (snd
      (handle_conn alloc dec enc (daemon_request sv de en jp sched elapsed) reader w pl d))))"
    by (rule in_root.handle_conn_respects)
  then show ?thesis using assms by (simp add: stays_in_root_def)
qed

theorem connection_stays_in_root_witness:
  "\<exists>r w' pl' d'. handle_conn (\<lambda>n. n) (\<lambda>_. Ok \<lparr>req_id = 1, req_method = FS_APPLY_PATCH, req_params = JNull\<rparr>)
      (\<lambda>_. ''x'') (daemon_request demo_sv demo_de demo_en (\<lambda>_. Err ''p'') (\<lambda>n. ([], [])) (\<lambda>_ _. 5))
      (bytes_reader (frame_of ''q'')) empty_writer pools_new demo_daemon = (r, w', pl', d') \<and>
     files_of d' [''e'', ''b''] = None \<and> root_of d' = [''r'']"
proof -
  obtain r w' pl' d' where run: "handle_conn (\<lambda>n. n)
      (\<lambda>_. Ok \<lparr>req_id = 1, req_method = FS_APPLY_PATCH, req_params = JNull\<rparr>)
      (\<lambda>_. ''x'') (daemon_request demo_sv demo_de demo_en (\<lambda>_. Err ''p'') (\<lambda>n. ([], [])) (\<lambda>_ _. 5))
      (bytes_reader (frame_of ''q'')) empty_writer pools_new demo_daemon = (r, w', pl', d')"
    by (rule prod_cases4)
  have "\<not> prefix (root_of demo_daemon) [''e'', ''b'']" by (simp add: demo_daemon_fs demo_state_def)
  from connection_stays_in_root [OF run demo_confined this] run show ?thesis
    by (auto simp: demo_daemon_fs demo_state_def)
qed

text \<open>C5. A write is visible at once. In every state the daemon can reach, a patch that is answered with
  success is, from the next call on, the one change that \<open>fs.changes\<close> reports since the version
  before it, and the next search, whatever the caches held, answers as a daemon without a search
  cache would.\<close>

theorem write_visible_at_once:
  assumes "d = daemon_run sv de en evs (daemon_new cfg fs now w)"
    and "0 < cfg_changelog_capacity cfg" "Suc (length evs) < 2 ^ 64"
    and "dispatch_method sv de en FS_APPLY_PATCH params d = (Ok v, d1)"
  shows "\<exists>p path. dec_fs_apply_patch de params = Ok p \<and>
      resolve_within (sv_os sv) (root_of d) (fapp_path p) = Ok path \<and>
      changes_since (cl_version (log_of d)) (log_of d1) =
        (Suc (cl_version (log_of d)),
         [\<lparr>ce_path = relative_str (root_of d) path, ce_kind = Modified,
           ce_version = Suc (cl_version (log_of d))\<rparr>], False) \<and>
      (\<forall>query. fst (dispatch_method sv de en SEARCH_GREP query d1) =
         fst (dispatch_method sv de en SEARCH_GREP query (d1\<lparr>dm_search_cache := search_cache_new 0\<rparr>)))"
proof -
  have inv: "daemon_inv cfg (length evs) d" unfolding assms(1) by (rule daemon_run_inv [OF assms(2,3)])
  obtain p r st where p: "dec_fs_apply_patch de params = Ok p"
    and run: "fs_apply_patch (sv_os sv) p (dm_fs d) = (Ok r, st)" and d1: "d1 = d\<lparr>dm_fs := st\<rparr>"
    using assms(4) by (rule dispatch_patchE)
  from run obtain path where path: "resolve_within (sv_os sv) (root_of d) (fapp_path p) = Ok path"
    and log: "log_of d1 = changelog_record (relative_str (root_of d) path) Modified (log_of d)"
    using d1 by (auto elim: apply_patch_records)
  have "dm_search_cache d1 = dm_search_cache d" using d1 by simp
  from recorded_change_visible [OF inv assms(2,3) log this] show ?thesis using p path by blast
qed

theorem write_visible_at_once_witness:
  "changes_since 0 (st_changelog demo_state1) =
     (1, [\<lparr>ce_path = relative_str [''r''] [''r'', ''a''], ce_kind = Modified, ce_version = 1\<rparr>], False)"
proof -
  have "demo_daemon = daemon_run demo_sv demo_de demo_en []
      (daemon_new demo_cfg [[''r'', ''a''] \<mapsto> demo_file] (Some 9) ())"
    by (simp add: demo_daemon_def)
  moreover have "0 < cfg_changelog_capacity demo_cfg" by (simp add: demo_cfg_def)
  ultimately show ?thesis
    using write_visible_at_once [OF _ _ _ demo_patched, of "[]" demo_cfg "[[''r'', ''a''] \<mapsto> demo_file]" "Some 9" "()"]
      demo_resolve(1)
    by (auto simp: demo_de_def demo_sv_def demo_patch_def demo_daemon_fs demo_state_def changelog_with_capacity_def)
qed



text \<open>Only \<open>fs.apply_patch\<close>, \<open>fs.replace_all\<close> and the programs of \<open>tool.run\<close> and \<open>tool.gh\<close> can change a
  file, and only the first two the change log: every other method, on every branch, leaves the
  files, the root and the log as they are.\<close>

theorem reading_methods_keep_files:
  assumes "m \<notin> {FS_APPLY_PATCH, FS_REPLACE_ALL, TOOL_RUN, TOOL_GH}"
  shows "dm_fs (snd (dispatch_method sv de en m params d)) = dm_fs d"
  using dispatch_method_effect [of sv m d de en params] assms
  by (elim daemon_effectE) (auto simp: on_search_def split: prod.splits)

theorem reading_methods_keep_files_witness:
  "dm_fs (snd (dispatch_method demo_sv demo_de demo_en SEARCH_GREP JNull demo_daemon)) = demo_state"
  using reading_methods_keep_files [of SEARCH_GREP demo_sv demo_de demo_en JNull demo_daemon]
  by (simp add: demo_daemon_fs FS_APPLY_PATCH_def FS_REPLACE_ALL_def TOOL_RUN_def TOOL_GH_def SEARCH_GREP_def)

end
