(* ===== verification/Prewarm.thy ===== *)
theory Prewarm
  imports Search
begin

text \<open>
  The page-cache warm-up, \<^verbatim>\<open>src/crates/daemon/src/prewarm.rs\<close>: a walk over the tree that reads the beginning
  of every file. What the walk yields and what \<open>open\<close> and \<open>read\<close> answer are parameters. An open file
  is a state \<open>'h\<close>; a read of at most \<open>k\<close> bytes answers the number of bytes it delivered, or an error.
\<close>

subsection \<open>The loop over one file\<close>

definition MAX_BYTES_PER_FILE :: nat where "MAX_BYTES_PER_FILE = 64 * 1024"
definition PREWARM_BUF :: nat where "PREWARM_BUF = 8 * 1024"

type_synonym 'h read_file = "nat \<Rightarrow> 'h \<Rightarrow> (nat, string) res \<times> 'h"

text \<open>The buffer holds at most \<open>to_read\<close> bytes, so a longer answer would be a panic in the
  subtraction; \<open>warm_loop\<close> has it as such.\<close>

function warm_loop :: "'h read_file \<Rightarrow> nat \<Rightarrow> nat \<Rightarrow> 'h \<Rightarrow> (nat, string) res" where
  "warm_loop rd remaining bytes h =
     (if remaining = 0 then Ok bytes
      else let to_read = min remaining PREWARM_BUF
           in case rd to_read h of
                (Ok n, h') \<Rightarrow>
                  if n = 0 then Ok bytes
                  else if remaining < n then Panic ''attempt to subtract with overflow''
                  else warm_loop rd (remaining - n) (bytes + n) h'
              | (Err e, h') \<Rightarrow> Ok bytes
              | (Panic m, h') \<Rightarrow> Panic m)"
  by pat_completeness auto
termination
  by (relation "measure (\<lambda>(_, remaining, _). remaining)") auto

declare warm_loop.simps [simp del]

definition warm_file :: "'h read_file \<Rightarrow> 'h \<Rightarrow> (nat, string) res" where
  "warm_file rd h = warm_loop rd MAX_BYTES_PER_FILE 0 h"

subsection \<open>The walk\<close>

record warm_count =
  wc_files :: nat
  wc_bytes :: nat

fun prewarm_run ::
  "'h read_file \<Rightarrow> (path \<Rightarrow> 'h option) \<Rightarrow> walk_entry list \<Rightarrow> warm_count \<Rightarrow> (warm_count, string) res" where
  "prewarm_run rd opens [] c = Ok c"
| "prewarm_run rd opens (e # es) c =
     (case walk_file e of
        None \<Rightarrow> prewarm_run rd opens es c
      | Some path \<Rightarrow>
          (case opens path of
             None \<Rightarrow> prewarm_run rd opens es c
           | Some h \<Rightarrow>
               res_bind (warm_file rd h) (\<lambda>n.
                 prewarm_run rd opens es \<lparr>wc_files = wc_files c + 1, wc_bytes = wc_bytes c + n\<rparr>)))"

subsection \<open>Files that deliver their bytes\<close>

text \<open>What \<open>read\<close> promises of a file with \<open>left h\<close> bytes to go: it never delivers more than it was asked
  for or than there is, and nothing only at the end. It may deliver less than it was asked for.\<close>

definition delivers :: "'h read_file \<Rightarrow> ('h \<Rightarrow> nat) \<Rightarrow> bool" where
  "delivers rd left \<longleftrightarrow>
     (\<forall>k h. 0 < k \<longrightarrow> (\<exists>n h'. rd k h = (Ok n, h') \<and> n \<le> k \<and> n \<le> left h \<and> left h' = left h - n \<and>
        (n = 0 \<longrightarrow> left h = 0)))"

lemma warm_loop_delivers:
  assumes "delivers rd left"
  shows "warm_loop rd remaining bytes h = Ok (bytes + min remaining (left h))"
proof (induction remaining arbitrary: bytes h rule: less_induct)
  case (less remaining)
  show ?case
  proof (cases "remaining = 0")
    case True
    then show ?thesis by (simp add: warm_loop.simps)
  next
    case False
    then have "0 < min remaining PREWARM_BUF" by (simp add: PREWARM_BUF_def)
    then obtain n h' where rd: "rd (min remaining PREWARM_BUF) h = (Ok n, h')"
      and n: "n \<le> min remaining PREWARM_BUF" "n \<le> left h" "left h' = left h - n" "n = 0 \<longrightarrow> left h = 0"
      using assms unfolding delivers_def by blast
    show ?thesis
    proof (cases "n = 0")
      case True
      then show ?thesis using rd n False by (subst warm_loop.simps) simp
    next
      case n0: False
      then have "warm_loop rd (remaining - n) (bytes + n) h' = Ok (bytes + n + min (remaining - n) (left h'))"
        using False by (intro less.IH) simp
      moreover have le: "n \<le> remaining" using n(1) by simp
      moreover have "n + min (remaining - n) (left h - n) = min remaining (left h)"
        using le n(2) by arith
      ultimately show ?thesis using rd n(3) n0 False by (subst warm_loop.simps) simp
    qed
  qed
qed

lemma prewarm_delivers:
  assumes "delivers rd left"
  shows "prewarm_run rd opens es c =
    (let hs = List.map_filter opens (List.map_filter walk_file es)
     in Ok \<lparr>wc_files = wc_files c + length hs,
            wc_bytes = wc_bytes c + sum_list (map (\<lambda>h. min MAX_BYTES_PER_FILE (left h)) hs)\<rparr>)"
proof (induction es arbitrary: c)
  case (Cons e es)
  then show ?case
    using warm_loop_delivers [OF assms, of MAX_BYTES_PER_FILE 0]
    by (auto simp: warm_file_def Let_def List.map_filter_simps split: option.splits)
qed (simp add: List.map_filter_simps)

text \<open>A file as its length, read in pieces of at most 5000 bytes.\<close>

definition short_reads :: "nat read_file" where
  "short_reads k left = (let n = min left (min k 5000) in (Ok n, left - n))"

lemma short_reads_deliver: "delivers short_reads id"
  by (auto simp: delivers_def short_reads_def Let_def)

subsection \<open>Properties\<close>

text \<open>The warm-up ends and touches the beginning of every file: however the reads are cut into
  pieces, it counts the files of the walk that open and reads of each exactly its bytes up to 64
  KiB.\<close>

theorem prewarm_reads_beginnings:
  assumes "delivers rd left" "hs = List.map_filter opens (List.map_filter walk_file es)"
  shows "prewarm_run rd opens es \<lparr>wc_files = 0, wc_bytes = 0\<rparr> =
    Ok \<lparr>wc_files = length hs, wc_bytes = sum_list (map (\<lambda>h. min (64 * 1024) (left h)) hs)\<rparr>"
  using prewarm_delivers [OF assms(1), of opens es "\<lparr>wc_files = 0, wc_bytes = 0\<rparr>"] assms(2)
  by (simp add: MAX_BYTES_PER_FILE_def Let_def)

theorem prewarm_reads_beginnings_witness:
  "prewarm_run short_reads (\<lambda>p. if p = [''r'', ''b''] then Some 100000 else if p = [''r'', ''c''] then None else Some 7)
      [Walk_Entry [''r''] (Some False), Walk_Entry [''r'', ''a''] (Some True), Walk_Error,
       Walk_Entry [''r'', ''b''] (Some True), Walk_Entry [''r'', ''c''] (Some True)]
      \<lparr>wc_files = 0, wc_bytes = 0\<rparr> =
    Ok \<lparr>wc_files = 2, wc_bytes = 65543\<rparr>"
  by (subst prewarm_reads_beginnings [OF short_reads_deliver refl]) (simp add: List.map_filter_simps)

end
