(* ===== verification/Startup.thy ===== *)
theory Startup
  imports Daemon_Run Prewarm Installer
begin

text \<open>
  How the processes start: the arguments of the daemon and of the bridge become their
  configurations (\<^verbatim>\<open>src/crates/daemon/src/main.rs\<close>, \<^verbatim>\<open>src/crates/mcp-bridge/src/main.rs\<close>), the daemon prepares its socket and
  its watcher, accepts until it is told to stop, and removes the socket (\<open>serve\<close> of
  \<^verbatim>\<open>src/crates/daemon/src/server.rs\<close>, \<open>ensure_socket_parent\<close> of \<^verbatim>\<open>src/crates/protocol/src/paths.rs\<close>, \<open>spawn\<close> of \<^verbatim>\<open>watcher.rs\<close>).

  The parsed arguments are records; parsing them, the duration syntax of humantime, the working
  directory and the operating system are parameters. A process has a number, so that it can be
  said whose socket a path leads to.
\<close>

subsection \<open>The daemon's configuration\<close>

record Args =
  ar_socket :: "string option"
  ar_root :: "string option"
  ar_changelog_capacity :: nat
  ar_search_cache_capacity :: nat
  ar_parse_cache_capacity :: nat
  ar_no_prewarm :: bool
  ar_idle_timeout :: string
  ar_io_uring :: bool
  ar_thread_per_core :: bool

text \<open>The values of the arguments that are not given.\<close>

definition default_args :: Args where
  "default_args =
     \<lparr>ar_socket = None, ar_root = None, ar_changelog_capacity = 4096, ar_search_cache_capacity = 64,
      ar_parse_cache_capacity = 256, ar_no_prewarm = False, ar_idle_timeout = ''30m'', ar_io_uring = False,
      ar_thread_per_core = True\<rparr>"

definition worker_threads :: "nat \<Rightarrow> Args \<Rightarrow> nat" where
  "worker_threads cpus args = (if ar_thread_per_core args then max cpus 1 else 1)"

definition parse_idle_timeout ::
  "(string \<Rightarrow> (nat, string) res) \<Rightarrow> string \<Rightarrow> (nat option, any_error) res" where
  "parse_idle_timeout parse_duration raw =
     (let trimmed = trim raw
      in if trimmed = [] \<or> trimmed = ''0'' then Ok None
         else case parse_duration trimmed of
                Err e \<Rightarrow> Err (WithContext (''invalid duration: '' @ trimmed) (Msg e))
              | Panic m \<Rightarrow> Panic m
              | Ok dur \<Rightarrow> if dur = 0 then Ok None else Ok (Some dur))"

definition io_msg :: "('a, string) res \<Rightarrow> ('a, any_error) res" where
  "io_msg r = (case r of Ok a \<Rightarrow> Ok a | Err e \<Rightarrow> Err (IoError (OtherKind e)) | Panic m \<Rightarrow> Panic m)"

definition context_res :: "string \<Rightarrow> ('a, any_error) res \<Rightarrow> ('a, any_error) res" where
  "context_res c r = (case r of Ok a \<Rightarrow> Ok a | Err e \<Rightarrow> Err (WithContext c e) | Panic m \<Rightarrow> Panic m)"

definition daemon_config ::
  "Os \<Rightarrow> Env \<Rightarrow> (string, string) res \<Rightarrow> (string \<Rightarrow> (nat, string) res) \<Rightarrow> Args \<Rightarrow> (Config, any_error) res" where
  "daemon_config os env current_dir parse_duration args =
     res_bind (case ar_root args of Some r \<Rightarrow> Ok r | None \<Rightarrow> io_msg current_dir) (\<lambda>r.
     res_bind (io_msg (os_canonicalize os r)) (\<lambda>root.
       let socket = (case ar_socket args of Some s \<Rightarrow> s | None \<Rightarrow> socket_path_for env (path_str root))
       in if ar_changelog_capacity args = 0 then Err (Msg ''--changelog-capacity must be > 0'')
          else res_bind (context_res ''parsing --idle-timeout''
                           (parse_idle_timeout parse_duration (ar_idle_timeout args))) (\<lambda>idle_timeout.
            Ok \<lparr>cfg_socket = socket, cfg_root = root,
                cfg_changelog_capacity = ar_changelog_capacity args,
                cfg_search_cache_capacity = ar_search_cache_capacity args,
                cfg_parse_cache_capacity = ar_parse_cache_capacity args,
                cfg_prewarm_enabled = (\<not> ar_no_prewarm args), cfg_idle_timeout = idle_timeout,
                cfg_io_uring_enabled = ar_io_uring args\<rparr>)))"

subsection \<open>The bridge's configuration\<close>

record BridgeArgs =
  ba_root :: "string option"
  ba_socket :: "string option"
  ba_daemon_bin :: "string option"
  ba_no_autospawn :: bool
  ba_daemon_args :: "string list"

text \<open>The \<open>RunConfig\<close> that \<open>main\<close> makes is handed on field by field as the client's \<open>ConnectConfig\<close>.\<close>

definition bridge_config ::
  "Os \<Rightarrow> Env \<Rightarrow> (string, string) res \<Rightarrow> BridgeArgs \<Rightarrow> (ConnectConfig, any_error) res" where
  "bridge_config os env current_dir args =
     res_bind (case ba_root args of
                 Some r \<Rightarrow> Ok r
               | None \<Rightarrow> context_res ''resolving current directory'' (io_msg current_dir)) (\<lambda>r.
     res_bind (context_res (''canonicalize root '' @ display r) (io_msg (os_canonicalize os r))) (\<lambda>root.
       Ok \<lparr>cc_socket = (case ba_socket args of
                          Some s \<Rightarrow> s | None \<Rightarrow> socket_path_for env (path_str root)),
           cc_root = path_str root, cc_daemon_bin = ba_daemon_bin args,
           cc_autospawn = (\<not> ba_no_autospawn args), cc_daemon_extra_args = ba_daemon_args args\<rparr>))"

subsection \<open>Serving\<close>

text \<open>\<open>sy_bind\<close> also gets the number of the process that binds.\<close>

record 'w Sys =
  sy_linux :: bool
  sy_exists :: "string \<Rightarrow> 'w \<Rightarrow> bool"
  sy_remove_file :: "string \<Rightarrow> 'w \<Rightarrow> (unit, error_kind) res \<times> 'w"
  sy_create_dir_all :: "string \<Rightarrow> 'w \<Rightarrow> (unit, error_kind) res \<times> 'w"
  sy_set_permissions :: "string \<Rightarrow> nat \<Rightarrow> 'w \<Rightarrow> (unit, error_kind) res \<times> 'w"
  sy_bind :: "nat \<Rightarrow> string \<Rightarrow> 'w \<Rightarrow> (unit, error_kind) res \<times> 'w"
  sy_new_watcher :: "'w \<Rightarrow> (unit, error_kind) res \<times> 'w"
  sy_watch :: "path \<Rightarrow> 'w \<Rightarrow> (unit, error_kind) res \<times> 'w"

definition ensure_socket_parent :: "'w Sys \<Rightarrow> string \<Rightarrow> 'w \<Rightarrow> (unit, error_kind) res \<times> 'w" where
  "ensure_socket_parent sy socket w =
     (case path_parent socket of
        None \<Rightarrow> (Ok (), w)
      | Some parent \<Rightarrow>
          if parent = [] \<or> sy_exists sy parent w then (Ok (), w)
          else (case sy_create_dir_all sy parent w of
                  (Ok _, w1) \<Rightarrow> (Ok (), snd (sy_set_permissions sy parent 448 w1))
                | (Err e, w1) \<Rightarrow> (Err e, w1)
                | (Panic m, w1) \<Rightarrow> (Panic m, w1)))"

definition watcher_spawn :: "'w Sys \<Rightarrow> path \<Rightarrow> 'w \<Rightarrow> (unit, any_error) res \<times> 'w" where
  "watcher_spawn sy root w =
     io_then (with_context ''creating fs watcher'' (io (sy_new_watcher sy w))) (\<lambda>_ w.
       with_context (''watching '' @ display (path_str root)) (io (sy_watch sy root w)))"

text \<open>Everything up to the loop.\<close>

definition serve_setup :: "'w Sys \<Rightarrow> Config \<Rightarrow> nat \<Rightarrow> 'w \<Rightarrow> (unit, any_error) res \<times> 'w" where
  "serve_setup sy cfg pid w =
     (if cfg_io_uring_enabled cfg \<and> \<not> sy_linux sy
      then (Err (Msg ''--io-uring is only supported on Linux''), w)
      else
        (let sock = cfg_socket cfg
         in io_then (if sy_exists sy sock w
                     then with_context (''removing stale socket '' @ display sock) (io (sy_remove_file sy sock w))
                     else (Ok (), w)) (\<lambda>_ w.
            io_then (with_context (''creating socket parent dir for '' @ display sock)
                       (io (ensure_socket_parent sy sock w))) (\<lambda>_ w.
            io_then (with_context (''binding '' @ display sock) (io (sy_bind sy pid sock w))) (\<lambda>_ w.
              watcher_spawn sy (cfg_root cfg) w)))))"

text \<open>What the loop is woken by: a connection or an error of \<open>accept\<close>, the end of a connection, the
  interrupt, and the idle timer, which is polled at some time.\<close>

datatype serve_event = Accepted | Accept_Failed error_kind | Conn_Ended nat | Ctrl_C | Idle_Tick nat

fun serve_loop :: "serve_event list \<Rightarrow> IdleTracker \<Rightarrow> (unit, any_error) res option \<times> IdleTracker" where
  "serve_loop [] t = (None, t)"
| "serve_loop (Accepted # es) t = serve_loop es (on_connect t)"
| "serve_loop (Accept_Failed e # es) t = (Some (Err (IoError e)), t)"
| "serve_loop (Conn_Ended now # es) t = serve_loop es (on_disconnect now t)"
| "serve_loop (Ctrl_C # es) t = (Some (Ok ()), t)"
| "serve_loop (Idle_Tick now # es) t =
     (if it_timeout t \<noteq> None \<and> idle_poll now t = Fire then (Some (Ok ()), t) else serve_loop es t)"

definition serve_cleanup :: "'w Sys \<Rightarrow> Config \<Rightarrow> 'w \<Rightarrow> 'w" where
  "serve_cleanup sy cfg w = snd (sy_remove_file sy (cfg_socket cfg) w)"

text \<open>\<open>None\<close>: the daemon is still serving. An error of \<open>accept\<close> ends it without the cleanup.\<close>

definition serve ::
  "'w Sys \<Rightarrow> Config \<Rightarrow> nat \<Rightarrow> nat \<Rightarrow> serve_event list \<Rightarrow> 'w \<Rightarrow> (unit, any_error) res option \<times> 'w" where
  "serve sy cfg pid now evs w =
     (case serve_setup sy cfg pid w of
        (Ok _, w1) \<Rightarrow>
          (case fst (serve_loop evs (idle_new (cfg_idle_timeout cfg) now)) of
             None \<Rightarrow> (None, w1)
           | Some (Ok _) \<Rightarrow> (Some (Ok ()), serve_cleanup sy cfg w1)
           | Some r \<Rightarrow> (Some r, w1))
      | (r, w1) \<Rightarrow> (Some r, w1))"

subsection \<open>Lemmas\<close>

lemma io_then_okE:
  assumes "io_then x f = (Ok b, w')"
  obtains a w where "x = (Ok a, w)" "f a w = (Ok b, w')"
  using assms by (cases x; cases "fst x") (auto simp: io_then_def)

lemma io_ok_iff:
  "io x = (Ok a, w) \<longleftrightarrow> x = (Ok a, w)" "with_context c y = (Ok b, w) \<longleftrightarrow> y = (Ok b, w)"
  by (cases x; cases "fst x"; auto simp: io_def) (cases y; cases "fst y"; auto simp: with_context_def)

lemma config_ok_iff:
  "io_msg r = Ok a \<longleftrightarrow> r = Ok a" "context_res c q = Ok b \<longleftrightarrow> q = Ok b"
  by (cases r; simp add: io_msg_def) (cases q; simp add: context_res_def)

lemma parse_idle_timeout_positive: "parse_idle_timeout pd raw = Ok t \<Longrightarrow> t \<noteq> Some 0"
  by (auto simp: parse_idle_timeout_def Let_def split: if_splits res.splits)

lemma daemon_configE:
  assumes "daemon_config os env cwd pd args = Ok cfg"
  obtains r root where "(case ar_root args of Some r \<Rightarrow> Ok r | None \<Rightarrow> cwd) = Ok r" "os_canonicalize os r = Ok root"
    "cfg_root cfg = root"
    "cfg_socket cfg = (case ar_socket args of Some s \<Rightarrow> s | None \<Rightarrow> socket_path_for env (path_str root))"
    "0 < cfg_changelog_capacity cfg" "cfg_idle_timeout cfg \<noteq> Some 0"
  using assms
  by (auto simp: daemon_config_def res_simps config_ok_iff Let_def split: if_splits option.splits
      dest: parse_idle_timeout_positive)

lemma bridge_configE:
  assumes "bridge_config os env cwd args = Ok c"
  obtains r root where "(case ba_root args of Some r \<Rightarrow> Ok r | None \<Rightarrow> cwd) = Ok r" "os_canonicalize os r = Ok root"
    "cc_root c = path_str root"
    "cc_socket c = (case ba_socket args of Some s \<Rightarrow> s | None \<Rightarrow> socket_path_for env (path_str root))"
  using assms
  by (auto simp: bridge_config_def res_simps config_ok_iff split: option.splits)

text \<open>Whose socket a path leads to: binding makes it the binder's, removing it makes it nobody's, a
  path that is somebody's exists, and nothing else the daemon does at its start changes it.\<close>

definition socket_laws :: "'w Sys \<Rightarrow> (string \<Rightarrow> 'w \<Rightarrow> nat option) \<Rightarrow> bool" where
  "socket_laws sy owner \<longleftrightarrow>
     (\<forall>p w. owner p w \<noteq> None \<longrightarrow> sy_exists sy p w) \<and>
     (\<forall>p w w'. sy_remove_file sy p w = (Ok (), w') \<longrightarrow> owner p w' = None) \<and>
     (\<forall>i p w w'. sy_bind sy i p w = (Ok (), w') \<longrightarrow> \<not> sy_exists sy p w \<and> owner p w' = Some i) \<and>
     (\<forall>p w. owner p (snd (sy_new_watcher sy w)) = owner p w) \<and>
     (\<forall>p q w. owner p (snd (sy_watch sy q w)) = owner p w)"

lemma serve_setup_owner:
  assumes "socket_laws sy owner" "serve_setup sy cfg pid w = (Ok (), w')"
  shows "owner (cfg_socket cfg) w' = Some pid"
proof -
  let ?s = "cfg_socket cfg"
  from assms(2) obtain w1 w2 where "sy_bind sy pid ?s w1 = (Ok (), w2)"
    and watch: "watcher_spawn sy (cfg_root cfg) w2 = (Ok (), w')"
    by (auto simp: serve_setup_def Let_def io_ok_iff elim!: io_then_okE split: if_splits)
  then have "owner ?s w2 = Some pid" using assms(1) unfolding socket_laws_def by blast
  moreover have "owner ?s w' = owner ?s w2"
    using watch assms(1) unfolding watcher_spawn_def socket_laws_def
    by (auto simp: io_ok_iff elim!: io_then_okE) (metis snd_conv)
  ultimately show ?thesis by simp
qed

subsection \<open>A host with nothing but sockets\<close>

definition demo_sys :: "(string \<Rightarrow> nat option) Sys" where
  "demo_sys =
     \<lparr>sy_linux = True, sy_exists = (\<lambda>p w. w p \<noteq> None \<or> p = ''/''),
      sy_remove_file = (\<lambda>p w. if w p = None then (Err NotFound, w) else (Ok (), w(p := None))),
      sy_create_dir_all = (\<lambda>_ w. (Ok (), w)), sy_set_permissions = (\<lambda>_ _ w. (Ok (), w)),
      sy_bind = (\<lambda>i p w. if w p \<noteq> None \<or> p = ''/'' then (Err (OtherKind ''in use''), w) else (Ok (), w(p \<mapsto> i))),
      sy_new_watcher = (\<lambda>w. (Ok (), w)), sy_watch = (\<lambda>_ w. (Ok (), w))\<rparr>"

lemma demo_sys_laws: "socket_laws demo_sys (\<lambda>p w. w p)"
  by (auto simp: socket_laws_def demo_sys_def split: if_splits)

lemma demo_setup: "serve_setup demo_sys demo_cfg i w = (Ok (), w(''/s'' \<mapsto> i))"
  by (auto simp: serve_setup_def demo_sys_def demo_cfg_def ensure_socket_parent_def watcher_spawn_def io_def
      with_context_def io_then_def Let_def split: option.splits)

text \<open>A system with one directory, and the configuration of a daemon started without arguments.\<close>

definition one_dir :: Os where
  "one_dir = \<lparr>os_canonicalize = (\<lambda>_. Ok [''r'']), os_base64 = (\<lambda>x. x)\<rparr>"

definition run_env :: Env where
  "run_env = \<lparr>env_XDG_RUNTIME_DIR = Some ''/run'', env_USER = None, env_LOGNAME = None\<rparr>"

lemma demo_config:
  "\<exists>cfg. daemon_config one_dir run_env (Ok ''/r'') (\<lambda>_. Ok 1800) default_args = Ok cfg"
proof -
  have "trim ''30m'' = ''30m''"
    using trim_graphic [of "CHR ''3''" "CHR ''m''" "''0''"] by (simp add: byte_def)
  then show ?thesis
    by (simp add: daemon_config_def default_args_def one_dir_def io_msg_def context_res_def parse_idle_timeout_def Let_def)
qed

subsection \<open>Properties\<close>





text \<open>C7. The invariant of a daemon that was started. Whatever its arguments are, if the daemon starts, then
  after any sequence of calls, counted requests, watcher events, changes by other programs and
  progress of background jobs, in any order and fewer than \<open>2 ^ 64\<close> of them: the root is the
  configured one; the change log is within its capacity, its entries and its overflow mark are not
  newer than its version; the search cache is within its capacity, has no key twice and is not
  newer than the log; the parse cache is within its capacity; every tool has one counter; and the
  job numbers in use are exactly those handed out. The idle timeout, if there is one, is not zero.\<close>

theorem started_daemon_invariant:
  assumes "daemon_config os env cwd pd args = Ok cfg" "Suc (length evs) < 2 ^ 64"
  shows "daemon_inv cfg (length evs) (daemon_run sv de en evs (daemon_new cfg fs now w)) \<and>
         cfg_idle_timeout cfg \<noteq> Some 0"
  using assms(1) daemon_run_inv [OF _ assms(2)] by (auto elim!: daemon_configE)

theorem started_daemon_invariant_witness:
  "\<exists>cfg. daemon_config one_dir run_env (Ok ''/r'') (\<lambda>_. Ok 1800) default_args = Ok cfg \<and>
     daemon_inv cfg 2 (daemon_run demo_sv demo_de demo_en
       [Call FS_APPLY_PATCH JNull, Watched ''/r/a'' ''a'' Modified]
       (daemon_new cfg [[''r'', ''a''] \<mapsto> demo_file] (Some 9) ()))"
proof -
  let ?evs = "[Call FS_APPLY_PATCH JNull, Watched ''/r/a'' ''a'' Modified]"
  obtain cfg where cfg: "daemon_config one_dir run_env (Ok ''/r'') (\<lambda>_. Ok 1800) default_args = Ok cfg"
    using demo_config by blast
  have "Suc (length ?evs) < 2 ^ 64" by simp
  from started_daemon_invariant [OF cfg this, of demo_sv demo_de demo_en] cfg show ?thesis
    by (auto simp: numeral_2_eq_2)
qed

end
