(* ===== verification/Daemon_Code.thy ===== *)
theory Daemon_Code
  imports Daemon_Run
begin

text \<open>
  The code methods of the daemon and its parse cache: as long as modification time and size tell
  the contents of a file, every method answers in every state the daemon reaches as a daemon
  without a parse cache would. \<open>agree\<close> relates the run of an operation with the cache to the run
  without one; a lemma for each way in which handlers are put together carries it to the table.
\<close>

subsection \<open>The same answer, with and without the cache\<close>

definition agree :: "('s \<Rightarrow> bool) \<Rightarrow> 's \<Rightarrow> 'r \<times> 's \<Rightarrow> 'r \<times> 's \<Rightarrow> bool" where
  "agree I g0 x y \<longleftrightarrow> fst x = fst y \<and> I (snd x) \<and> snd y = g0"

named_theorems agrees \<open>operations that answer alike with and without the cache\<close>

lemma agreeE:
  assumes "agree I g0 x y"
  obtains r g where "x = (r, g)" "y = (r, g0)" "I g"
  using assms by (cases x; cases y) (auto simp: agree_def)

lemma agree_pair [agrees]: "I g \<Longrightarrow> agree I g0 (r, g) (r, g0)"
  by (simp add: agree_def)

lemma agree_and_then [agrees]:
  assumes "agree I g0 x y" "\<And>a g. I g \<Longrightarrow> agree I g0 (f a g) (f a g0)"
  shows "agree I g0 (and_then x f) (and_then y f)"
  using assms by (elim agreeE, case_tac r) (simp_all add: agree_pair)

lemma agree_batch [agrees]:
  assumes "\<And>q g. I g \<Longrightarrow> agree I g0 (h q g) (h q g0)" "I g"
  shows "agree I g0 (batch h item qs g) (batch h item qs g0)"
  using assms(2)
proof (induction qs arbitrary: g)
  case (Cons q qs)
  from assms(1) [OF Cons.prems, of q] obtain r g1 where
    h: "h q g = (r, g1)" "h q g0 = (r, g0)" and "I g1" by (rule agreeE)
  from Cons.IH [OF \<open>I g1\<close>] show ?case
    using h \<open>I g1\<close> by (cases r) (auto intro!: agrees)
qed (simp add: agree_pair)

lemma get_or_parse_no_cache: "snd (get_or_parse gr fv path (parse_cache_new 0)) = parse_cache_new 0"
  by (simp add: get_or_parse_def parse_cache_store_def parse_cache_new_def parse_cache_lookup_def
      split: option.split res.split)

abbreviation tells ::
  "('t, 'w) Services \<Rightarrow> (string \<Rightarrow> FileStamp \<Rightarrow> (string, string) res) \<Rightarrow> 't ParseCache \<Rightarrow> bool" where
  "tells sv contents \<equiv> pc.consistent (parsed_at (ts_grammar (sx_ts (sv_sx sv))) contents)"

abbreviation alike ::
  "('t, 'w) Services \<Rightarrow> (string \<Rightarrow> FileStamp \<Rightarrow> (string, string) res) \<Rightarrow>
     'r \<times> 't ParseCache \<Rightarrow> 'r \<times> 't ParseCache \<Rightarrow> bool" where
  "alike sv contents \<equiv> agree (tells sv contents) (parse_cache_new 0)"

lemma ts_parse_alike [agrees]:
  assumes "tells sv contents g" "view_faithful contents fs"
  shows "alike sv contents (ts_parse (sx_ts (sv_sx sv)) fs path g) (ts_parse (sx_ts (sv_sx sv)) fs path (parse_cache_new 0))"
proof -
  let ?gr = "ts_grammar (sx_ts (sv_sx sv))"
  obtain r g' where r: "get_or_parse ?gr (fs path) path g = (r, g')" by (rule prod.exhaust)
  have "r = parse_fresh ?gr (fs path) path \<and> tells sv contents g'"
    using get_or_parse_fresh [OF assms(1) _ r] assms(2) by (simp add: view_faithful_def)
  moreover obtain r0 where "get_or_parse ?gr (fs path) path (parse_cache_new 0) = (r0, parse_cache_new 0)"
    using get_or_parse_no_cache [of ?gr "fs path" path] by (metis prod.collapse)
  ultimately show ?thesis
    using r by (auto simp: ts_parse_def parse_fresh_def agree_pair split: res.split)
qed

lemma registry_alike [agrees]:
  assumes "tells sv contents g" "view_faithful contents (view_of fs)"
  shows "alike sv contents (registry_outline (backends sv fs) path sg g) (registry_outline (backends sv fs) path sg (parse_cache_new 0))"
    and "alike sv contents (registry_symbols (backends sv fs) path g) (registry_symbols (backends sv fs) path (parse_cache_new 0))"
  using ts_parse_alike [OF assms, of path] assms(1)
  by (auto elim!: agreeE simp: registry_outline_def registry_symbols_def backends_def register_def
      registry_new_def for_language_def tree_sitter_backend_def map_some_def ts_outline_def ts_symbols_def
      agree_pair split: option.splits)

lemma inner_alike [agrees]:
  assumes "tells sv contents g" "view_faithful contents (view_of fs)"
  shows "alike sv contents (code_outline_inner os root (backends sv fs) p g)
           (code_outline_inner os root (backends sv fs) p (parse_cache_new 0))"
    and "alike sv contents (code_symbols_inner os root (backends sv fs) q g)
           (code_symbols_inner os root (backends sv fs) q (parse_cache_new 0))"
  unfolding code_outline_inner_def code_symbols_inner_def using assms by (auto intro!: agrees)

lemma occurrences_alike [agrees]:
  assumes "tells sv contents g" "view_faithful contents fs"
  shows "alike sv contents (occurrences_in os root (sv_sx sv) fs needle mx rels occ g)
           (occurrences_in os root (sv_sx sv) fs needle mx rels occ (parse_cache_new 0))"
  using assms(1)
proof (induction rels arbitrary: occ g)
  case (Cons rel rels)
  then show ?case using assms(2) by (auto intro!: agrees split: option.split)
qed (simp add: agree_pair)

lemma code_handlers_alike:
  assumes "tells sv contents g" "view_faithful contents (view_of fs)"
  shows "alike sv contents (code_outline_batch os root (backends sv fs) p1 g)
           (code_outline_batch os root (backends sv fs) p1 (parse_cache_new 0))"
    and "alike sv contents (code_symbols_batch os root (backends sv fs) p2 g)
           (code_symbols_batch os root (backends sv fs) p2 (parse_cache_new 0))"
    and "alike sv contents (code_find_occurrences os root (sv_sx sv) (view_of fs) walk p3 g)
           (code_find_occurrences os root (sv_sx sv) (view_of fs) walk p3 (parse_cache_new 0))"
    and "alike sv contents (fs_read_skeleton os (backends sv fs) p4 st g)
           (fs_read_skeleton os (backends sv fs) p4 st (parse_cache_new 0))"
  unfolding code_outline_batch_def code_symbols_batch_def code_find_occurrences_def fs_read_skeleton_def Let_def
  using assms by (auto intro!: agrees split: prod.split)

lemmas code_alike = inner_alike code_handlers_alike

subsection \<open>The table\<close>

definition daemon_agree ::
  "('t ParseCache \<Rightarrow> bool) \<Rightarrow> 'r \<times> ('t, 'w) Daemon \<Rightarrow> 'r \<times> ('t, 'w) Daemon \<Rightarrow> bool" where
  "daemon_agree I x y \<longleftrightarrow> fst x = fst y \<and> I (dm_parse_cache (snd x))"

lemma daemon_agree_json:
  assumes "\<And>p. daemon_agree I (h p d) (h p d0)" "I (dm_parse_cache d)"
  shows "daemon_agree I (json_handler dec enc h params d) (json_handler dec enc h params d0)"
  using json_handler_fst [of h d d0 dec enc params] assms
  by (auto simp: daemon_agree_def json_handler_snd split: res.split)

lemma daemon_agree_branch:
  "(m = k \<Longrightarrow> daemon_agree I a a') \<Longrightarrow> (m \<noteq> k \<Longrightarrow> daemon_agree I b b') \<Longrightarrow>
     daemon_agree I (if m = k then a else b) (if m = k then a' else b')"
  by simp

lemma on_code_agree:
  assumes "agree I g0 (h (dm_fs d) p (dm_parse_cache d)) (h (dm_fs d) p g0)"
  shows "daemon_agree I (on_code h p d) (on_code h p (d\<lparr>dm_parse_cache := g0\<rparr>))"
  using assms by (auto elim!: agreeE simp: on_code_def daemon_agree_def)

lemma other_lifts_agree:
  assumes "I (dm_parse_cache d)"
  shows "daemon_agree I (read_fs h1 p1 d) (read_fs h1 p1 (d\<lparr>dm_parse_cache := g0\<rparr>))"
    "daemon_agree I (on_fs h2 p2 d) (on_fs h2 p2 (d\<lparr>dm_parse_cache := g0\<rparr>))"
    "daemon_agree I (on_git h3 sv p3 d) (on_git h3 sv p3 (d\<lparr>dm_parse_cache := g0\<rparr>))"
    "daemon_agree I (on_search h4 p4 d) (on_search h4 p4 (d\<lparr>dm_parse_cache := g0\<rparr>))"
    "daemon_agree I (on_tools h5 p5 d) (on_tools h5 p5 (d\<lparr>dm_parse_cache := g0\<rparr>))"
    "daemon_agree I (on_jobs h6 p6 d) (on_jobs h6 p6 (d\<lparr>dm_parse_cache := g0\<rparr>))"
  using assms
  by (simp_all add: daemon_agree_def read_fs_def on_fs_def on_git_def on_search_def on_tools_def on_jobs_def
      split: prod.split)

lemma daemon_agree_pair: "I (dm_parse_cache d) \<Longrightarrow> daemon_agree I (r, d) (r, d0)"
  by (simp add: daemon_agree_def)

lemma snapshot_agree:
  "I (dm_parse_cache d) \<Longrightarrow>
     daemon_agree I (fs_snapshot_json en params d) (fs_snapshot_json en params (d\<lparr>dm_parse_cache := g0\<rparr>))"
  by (simp add: fs_snapshot_json_def fs_snapshot_def daemon_agree_pair split: prod.split)

lemma dispatch_agrees:
  assumes "tells sv contents (dm_parse_cache d)" "view_faithful contents (view_of (files_of d))"
  shows "daemon_agree (tells sv contents) (dispatch_method sv de en m params d)
           (dispatch_method sv de en m params (d\<lparr>dm_parse_cache := parse_cache_new 0\<rparr>))"
  unfolding dispatch_method_def Let_def fs_read_def code_outline_def code_symbols_def code_imports_def
    metrics_gain_def metrics_tool_latency_def
  using assms
  by (intro daemon_agree_branch daemon_agree_json daemon_agree_pair snapshot_agree)
    (simp_all add: other_lifts_agree on_code_agree code_alike daemon_agree_pair)

lemma step_tells:
  assumes "tells sv contents (dm_parse_cache d)" "view_faithful contents (view_of (files_of d))"
  shows "tells sv contents (dm_parse_cache (daemon_step sv de en ev d))"
  using dispatch_agrees [OF assms] assms(1)
  by (cases ev) (simp_all add: daemon_agree_def daemon_record_def evict_consistent)

definition told_apart ::
  "('t, 'w) Services \<Rightarrow> Decoders \<Rightarrow> Encoders \<Rightarrow> (string \<Rightarrow> FileStamp \<Rightarrow> (string, string) res) \<Rightarrow>
     'w daemon_event list \<Rightarrow> ('t, 'w) Daemon \<Rightarrow> bool" where
  "told_apart sv de en contents evs d \<longleftrightarrow>
     (\<forall>k \<le> length evs. view_faithful contents (view_of (files_of (daemon_run sv de en (take k evs) d))))"

lemma told_apart_snoc:
  "told_apart sv de en contents (evs @ [ev]) d \<longleftrightarrow>
     told_apart sv de en contents evs d \<and>
     view_faithful contents (view_of (files_of (daemon_run sv de en (evs @ [ev]) d)))"
  by (auto simp: told_apart_def le_Suc_eq)

lemma run_tells:
  "told_apart sv de en contents evs (daemon_new cfg fs now w) \<Longrightarrow>
     tells sv contents (dm_parse_cache (daemon_run sv de en evs (daemon_new cfg fs now w)))"
proof (induction evs rule: rev_induct)
  case Nil
  then show ?case by (simp add: daemon_new_def new_consistent)
next
  case (snoc ev evs)
  from snoc.prems have told: "told_apart sv de en contents evs (daemon_new cfg fs now w)"
    by (simp add: told_apart_snoc)
  then have "view_faithful contents (view_of (files_of (daemon_run sv de en evs (daemon_new cfg fs now w))))"
    by (auto simp: told_apart_def)
  from step_tells [OF snoc.IH [OF told] this] show ?case by simp
qed

subsection \<open>A daemon that has parsed a file\<close>

definition coding_de :: Decoders where
  "coding_de = demo_de\<lparr>dec_code_outline := (\<lambda>_. Ok \<lparr>cop_path = ''a.rs'', cop_signatures_only = False\<rparr>)\<rparr>"

definition coding_daemon :: "(unit, unit) Daemon" where
  "coding_daemon = daemon_new demo_cfg [[''r'', ''a.rs''] \<mapsto> demo_file] (Some 9) ()"

lemma code_outline_keeps_files:
  "dm_fs (snd (dispatch_method sv de en CODE_OUTLINE params d)) = dm_fs d"
  by (simp add: dispatch_method_def method_neqs code_outline_def json_handler_snd lift_snd split: res.split)

lemma coding_told_apart:
  "told_apart demo_sv coding_de demo_en (\<lambda>_ _. Ok (fl_bytes demo_file)) [Call CODE_OUTLINE JNull] coding_daemon"
proof -
  have "dm_fs (snd (dispatch_method demo_sv coding_de demo_en CODE_OUTLINE JNull d)) = dm_fs d" for d
    by (rule code_outline_keeps_files)
  moreover have "view_faithful (\<lambda>_ _. Ok (fl_bytes demo_file)) (view_of (files_of coding_daemon))"
    by (simp add: view_faithful_def view_of_def coding_daemon_def daemon_new_def demo_file_def split: option.split)
  ultimately show ?thesis
    by (auto simp: told_apart_def daemon_run_def le_Suc_eq)
qed

lemma coding_parses:
  "pc_entries (dm_parse_cache (daemon_run demo_sv coding_de demo_en [Call CODE_OUTLINE JNull] coding_daemon)) \<noteq> []"
proof -
  let ?fs = "[[''r'', ''a.rs''] \<mapsto> demo_file]"
  let ?q = "\<lparr>cop_path = ''a.rs'', cop_signatures_only = False\<rparr>"
  have dec: "dec_code_outline coding_de JNull = Ok ?q" by (simp add: coding_de_def)
  have res: "resolve_within demo_os [''r''] ''a.rs'' = Ok [''r'', ''a.rs'']"
    by (simp add: resolve_within_def demo_os_def is_absolute_def starts_with_def path_join_def
        path_str_def ends_with_def Let_def)
  have view: "view_of ?fs (path_str [''r'', ''a.rs'']) =
      \<lparr>fv_stamp = Some \<lparr>fst_mtime_ns = 7, fst_size = 2\<rparr>, fv_read = Ok (''a'' @ [nl])\<rparr>"
    by (simp add: view_of_def path_str_def demo_file_def file_stamp_def)
  have "pc_entries (snd (code_outline_inner (sv_os demo_sv) [''r''] (backends demo_sv ?fs) ?q (parse_cache_new 2))) \<noteq> []"
    using res view demo_rs
    by (simp add: code_outline_inner_def registry_outline_def backends_def register_def registry_new_def
        for_language_def tree_sitter_backend_def map_some_def ts_outline_def ts_parse_def demo_sv_def demo_syntax_def
        get_or_parse_def parse_cache_lookup_def parse_cache_new_def read_and_parse_def parse_cache_store_def
        and_then_def split: res.split)
  then show ?thesis
    by (simp add: daemon_run_def dispatch_method_def method_neqs code_outline_def json_handler_snd lift_snd dec
        coding_daemon_def daemon_new_def demo_cfg_def)
qed

subsection \<open>Properties\<close>

text \<open>C16. The parse cache never changes an answer of the daemon. In every state that calls of any
  methods, watcher events, other programs and background jobs lead to, every method answers as it
  would without a parse cache, errors included, as long as in all these states the modification
  time and the size of a file tell its contents.\<close>

theorem answers_without_parse_cache:
  assumes "told_apart sv de en contents evs (daemon_new cfg fs now w)"
    and "d = daemon_run sv de en evs (daemon_new cfg fs now w)"
  shows "fst (dispatch_method sv de en m params d) =
    fst (dispatch_method sv de en m params (d\<lparr>dm_parse_cache := parse_cache_new 0\<rparr>))"
proof -
  have "view_faithful contents (view_of (files_of d))"
    using assms by (auto simp: told_apart_def)
  from dispatch_agrees [OF run_tells [OF assms(1), folded assms(2)] this] show ?thesis
    by (simp add: daemon_agree_def)
qed

theorem answers_without_parse_cache_witness:
  "let d = daemon_run demo_sv coding_de demo_en [Call CODE_OUTLINE JNull] coding_daemon
   in pc_entries (dm_parse_cache d) \<noteq> [] \<and>
      fst (dispatch_method demo_sv coding_de demo_en CODE_OUTLINE JNull d) =
        fst (dispatch_method demo_sv coding_de demo_en CODE_OUTLINE JNull
          (d\<lparr>dm_parse_cache := parse_cache_new 0\<rparr>))"
proof -
  let ?d = "daemon_run demo_sv coding_de demo_en [Call CODE_OUTLINE JNull] coding_daemon"
  have "pc_entries (dm_parse_cache ?d) \<noteq> []"
    by (simp add: coding_parses)
  then show ?thesis
    using answers_without_parse_cache [OF coding_told_apart [unfolded coding_daemon_def] refl]
    unfolding Let_def by (simp add: coding_daemon_def)
qed

end
