(* ===== verification/Wire.thy ===== *)
theory Wire
  imports Daemon_Run
begin

text \<open>
  The parameters of the daemon's methods as they travel: the declarations of the parameter structs
  of \<^verbatim>\<open>src/crates/protocol/src/lib.rs\<close> with the types and the \<open>serde(default)\<close> attributes of their
  fields, what \<open>serde\<close> documents for a decoder derived from such a declaration, and the JSON schemas
  under which the bridge offers the methods as tools.

  The decoders stay parameters of the model. \<open>derives\<close> states the documented behaviour of a derived
  decoder on JSON objects: it accepts the objects in which every field that is present has a value
  of its type and every field that is absent has a default or is optional, it ignores unknown keys,
  absent fields take their default, and a missing field without a default is an error. What it says
  in its errors, and what it does with values of other types, is left open.
\<close>

subsection \<open>Declarations of structs\<close>

datatype ftype =
    TString
  | TBool
  | TU32
  | TU64
  | TValue
  | TOption ftype
  | TVec ftype
  | TStruct "(string \<times> bool \<times> ftype) list"

text \<open>A field has a name, the attribute \<open>serde(default)\<close> or not, and a type; \<open>usize\<close> is \<open>u64\<close>.\<close>

type_synonym field = "string \<times> bool \<times> ftype"

fun is_option :: "ftype \<Rightarrow> bool" where
  "is_option (TOption t) \<longleftrightarrow> True"
| "is_option _ \<longleftrightarrow> False"

abbreviation may_be_absent :: "field \<Rightarrow> bool" where
  "may_be_absent f \<equiv> fst (snd f) \<or> is_option (snd (snd f))"

fun fits :: "ftype \<Rightarrow> json \<Rightarrow> bool" where
  "fits TString j \<longleftrightarrow> (case j of JString _ \<Rightarrow> True | _ \<Rightarrow> False)"
| "fits TBool j \<longleftrightarrow> (case j of JBool _ \<Rightarrow> True | _ \<Rightarrow> False)"
| "fits TU32 j \<longleftrightarrow> (case j of JNumber (PosInt n) \<Rightarrow> n < 2 ^ 32 | _ \<Rightarrow> False)"
| "fits TU64 j \<longleftrightarrow> (case j of JNumber (PosInt n) \<Rightarrow> n < 2 ^ 64 | _ \<Rightarrow> False)"
| "fits TValue j \<longleftrightarrow> True"
| "fits (TOption t) j \<longleftrightarrow> j = JNull \<or> fits t j"
| "fits (TVec t) j \<longleftrightarrow> (case j of JArray js \<Rightarrow> list_all (fits t) js | _ \<Rightarrow> False)"
| "fits (TStruct fs) j \<longleftrightarrow>
     (case j of
        JObject kvs \<Rightarrow>
          list_all (\<lambda>f. case map_of kvs (fst f) of
                          Some x \<Rightarrow> fits (snd (snd f)) x
                        | None \<Rightarrow> may_be_absent f) fs
      | _ \<Rightarrow> False)"

text \<open>What every \<open>serde_json::Value\<close> is: the keys of an object are distinct, integers have 64 bits.\<close>

fun ints_below :: "nat \<Rightarrow> json \<Rightarrow> bool" where
  "ints_below b (JNumber (PosInt n)) \<longleftrightarrow> n < b"
| "ints_below b (JArray js) \<longleftrightarrow> list_all (ints_below b) js"
| "ints_below b (JObject kvs) \<longleftrightarrow> list_all (\<lambda>kv. ints_below b (snd kv)) kvs"
| "ints_below b _ \<longleftrightarrow> True"

fun keys_distinct :: "json \<Rightarrow> bool" where
  "keys_distinct (JArray js) \<longleftrightarrow> list_all keys_distinct js"
| "keys_distinct (JObject kvs) \<longleftrightarrow> distinct (map fst kvs) \<and> list_all (\<lambda>kv. keys_distinct (snd kv)) kvs"
| "keys_distinct _ \<longleftrightarrow> True"

definition json_value :: "json \<Rightarrow> bool" where
  "json_value v \<longleftrightarrow> keys_distinct v \<and> ints_below (2 ^ 64) v"

definition derives ::
  "field list \<Rightarrow> ((string \<times> json) list \<Rightarrow> 'p) \<Rightarrow> (json \<Rightarrow> ('p, string) res) \<Rightarrow> bool" where
  "derives fs mk dec \<longleftrightarrow>
     (\<forall>kvs. json_value (JObject kvs) \<longrightarrow>
        (fits (TStruct fs) (JObject kvs) \<longrightarrow> dec (JObject kvs) = Ok (mk kvs)) \<and>
        (\<forall>f \<in> set fs. \<not> may_be_absent f \<longrightarrow> fst f \<notin> fst ` set kvs \<longrightarrow> (\<exists>e. dec (JObject kvs) = Err e)))"

subsection \<open>JSON schemas\<close>

text \<open>Validity of a value for the keywords the tools use. A number is an integer when it is written
  without a fraction, as serde wants it.\<close>

definition has_type :: "string \<Rightarrow> json \<Rightarrow> bool" where
  "has_type t v \<longleftrightarrow>
     (case v of
        JString _ \<Rightarrow> t = ''string''
      | JBool _ \<Rightarrow> t = ''boolean''
      | JArray _ \<Rightarrow> t = ''array''
      | JObject _ \<Rightarrow> t = ''object''
      | JNull \<Rightarrow> t = ''null''
      | JNumber (Float _) \<Rightarrow> t = ''number''
      | JNumber _ \<Rightarrow> t = ''integer'' \<or> t = ''number'')"

fun at_least :: "json \<Rightarrow> json \<Rightarrow> bool" where
  "at_least (JNumber (PosInt b)) (JNumber (PosInt n)) \<longleftrightarrow> b \<le> n"
| "at_least (JNumber (PosInt b)) (JNumber (NegInt i)) \<longleftrightarrow> False"
| "at_least _ _ \<longleftrightarrow> True"

fun at_most :: "json \<Rightarrow> json \<Rightarrow> bool" where
  "at_most (JNumber (PosInt b)) (JNumber (PosInt n)) \<longleftrightarrow> n \<le> b"
| "at_most _ _ \<longleftrightarrow> True"

lemma size_snd_member: "kv \<in> set kvs \<Longrightarrow> size (snd kv) < size (JObject kvs)" for kv :: "string \<times> json"
  by (induction kvs) (auto simp: size_prod_simp)

function (sequential) conforms :: "json \<Rightarrow> json \<Rightarrow> bool" and meets :: "string \<Rightarrow> json \<Rightarrow> json \<Rightarrow> bool" where
  "conforms (JObject kws) v \<longleftrightarrow> list_all (\<lambda>kw. meets (fst kw) (snd kw) v) kws"
| "conforms _ v \<longleftrightarrow> True"
| "meets k s v \<longleftrightarrow>
     (if k = ''type'' then (case s of JString t \<Rightarrow> has_type t v | _ \<Rightarrow> True)
      else if k = ''properties'' then
        (case s of
           JObject ps \<Rightarrow>
             list_all (\<lambda>p. case json_get (fst p) v of Some x \<Rightarrow> conforms (snd p) x | None \<Rightarrow> True) ps
         | _ \<Rightarrow> True)
      else if k = ''required'' then
        (case (s, v) of
           (JArray rs, JObject kvs) \<Rightarrow>
             list_all (\<lambda>r. case r of JString p \<Rightarrow> p \<in> fst ` set kvs | _ \<Rightarrow> True) rs
         | _ \<Rightarrow> True)
      else if k = ''items'' then (case v of JArray vs \<Rightarrow> list_all (conforms s) vs | _ \<Rightarrow> True)
      else if k = ''minItems'' then
        (case (s, v) of (JNumber (PosInt n), JArray vs) \<Rightarrow> n \<le> length vs | _ \<Rightarrow> True)
      else if k = ''minimum'' then at_least s v
      else if k = ''maximum'' then at_most s v
      else if k = ''enum'' then (case s of JArray vs \<Rightarrow> v \<in> set vs | _ \<Rightarrow> True)
      else True)"
  by pat_completeness auto

termination
  by (relation "measure (\<lambda>x. case x of Inl (s, v) \<Rightarrow> 2 * size s | Inr (k, s, v) \<Rightarrow> 2 * size s + 1)")
    (auto dest!: size_snd_member)

declare meets.simps [simp del]

lemma meets_keywords [simp]:
  "meets ''type'' (JString t) v \<longleftrightarrow> has_type t v"
  "meets ''properties'' (JObject ps) v \<longleftrightarrow>
     list_all (\<lambda>p. case json_get (fst p) v of Some x \<Rightarrow> conforms (snd p) x | None \<Rightarrow> True) ps"
  "meets ''required'' (JArray rs) (JObject kvs) \<longleftrightarrow>
     list_all (\<lambda>r. case r of JString p \<Rightarrow> p \<in> fst ` set kvs | _ \<Rightarrow> True) rs"
  "meets ''items'' s (JArray vs) \<longleftrightarrow> list_all (conforms s) vs"
  "meets ''minItems'' (JNumber (PosInt n)) (JArray vs) \<longleftrightarrow> n \<le> length vs"
  "meets ''minimum'' s v \<longleftrightarrow> at_least s v"
  "meets ''maximum'' s v \<longleftrightarrow> at_most s v"
  "meets ''enum'' (JArray vs) v \<longleftrightarrow> v \<in> set vs"
  "meets ''description'' s v" "meets ''default'' s v"
  by (simp_all add: meets.simps)

text \<open>When a schema admits only values that fit a declaration, and names its fields and no others as
  properties: required are exactly the fields that may not be absent. \<open>b\<close> bounds the integers.\<close>

definition required_keys :: "json \<Rightarrow> string list" where
  "required_keys s = (case json_get ''required'' s of Some (JArray rs) \<Rightarrow> List.map_filter as_str rs | _ \<Rightarrow> [])"

definition properties_of :: "json \<Rightarrow> (string \<times> json) list" where
  "properties_of s = (case json_get ''properties'' s of Some (JObject ps) \<Rightarrow> ps | _ \<Rightarrow> [])"

abbreviation typed :: "string \<Rightarrow> json \<Rightarrow> bool" where
  "typed t s \<equiv> json_get ''type'' s = Some (JString t)"

definition natural :: "json \<Rightarrow> bool" where
  "natural s \<longleftrightarrow> typed ''integer'' s \<and>
     (case json_get ''minimum'' s of Some (JNumber (PosInt _)) \<Rightarrow> True | _ \<Rightarrow> False)"

fun covers :: "nat \<Rightarrow> ftype \<Rightarrow> json \<Rightarrow> bool" where
  "covers b TString s \<longleftrightarrow> typed ''string'' s"
| "covers b TBool s \<longleftrightarrow> typed ''boolean'' s"
| "covers b TU32 s \<longleftrightarrow> natural s \<and>
     (b \<le> 2 ^ 32 \<or> (case json_get ''maximum'' s of Some (JNumber (PosInt n)) \<Rightarrow> n < 2 ^ 32 | _ \<Rightarrow> False))"
| "covers b TU64 s \<longleftrightarrow> natural s \<and> b \<le> 2 ^ 64"
| "covers b TValue s \<longleftrightarrow> True"
| "covers b (TOption t) s \<longleftrightarrow> covers b t s"
| "covers b (TVec t) s \<longleftrightarrow> typed ''array'' s \<and>
     (case json_get ''items'' s of Some s' \<Rightarrow> covers b t s' | None \<Rightarrow> False)"
| "covers b (TStruct fs) s \<longleftrightarrow> typed ''object'' s \<and> map fst (properties_of s) = map fst fs \<and>
     required_keys s = map fst (filter (\<lambda>f. \<not> may_be_absent f) fs) \<and>
     list_all (\<lambda>f. case map_of (properties_of s) (fst f) of Some s' \<Rightarrow> covers b (snd (snd f)) s' | None \<Rightarrow> False) fs"

subsection \<open>The parameter structs\<close>

text \<open>The values of the fields of an object, with the defaults of absent ones.\<close>

definition str_of :: "string \<Rightarrow> (string \<times> json) list \<Rightarrow> string" where
  "str_of k kvs = (case map_of kvs k of Some (JString s) \<Rightarrow> s | _ \<Rightarrow> [])"

definition num_of :: "string \<Rightarrow> (string \<times> json) list \<Rightarrow> nat" where
  "num_of k kvs = (case map_of kvs k of Some (JNumber (PosInt n)) \<Rightarrow> n | _ \<Rightarrow> 0)"

definition flag_of :: "string \<Rightarrow> (string \<times> json) list \<Rightarrow> bool" where
  "flag_of k kvs = (case map_of kvs k of Some (JBool b) \<Rightarrow> b | _ \<Rightarrow> False)"

definition value_of :: "string \<Rightarrow> (string \<times> json) list \<Rightarrow> json" where
  "value_of k kvs = (case map_of kvs k of Some v \<Rightarrow> v | None \<Rightarrow> JNull)"

definition opt_str :: "string \<Rightarrow> (string \<times> json) list \<Rightarrow> string option" where
  "opt_str k kvs = Option.bind (map_of kvs k) as_str"

definition opt_num :: "string \<Rightarrow> (string \<times> json) list \<Rightarrow> nat option" where
  "opt_num k kvs = (case map_of kvs k of Some (JNumber (PosInt n)) \<Rightarrow> Some n | _ \<Rightarrow> None)"

definition strs_of :: "string \<Rightarrow> (string \<times> json) list \<Rightarrow> string list" where
  "strs_of k kvs = (case map_of kvs k of Some (JArray vs) \<Rightarrow> List.map_filter as_str vs | _ \<Rightarrow> [])"

definition structs_of :: "((string \<times> json) list \<Rightarrow> 'a) \<Rightarrow> string \<Rightarrow> (string \<times> json) list \<Rightarrow> 'a list" where
  "structs_of mk k kvs =
     (case map_of kvs k of
        Some (JArray vs) \<Rightarrow> map (\<lambda>v. mk (case v of JObject m \<Rightarrow> m | _ \<Rightarrow> [])) vs
      | _ \<Rightarrow> [])"

lemmas field_readers = str_of_def num_of_def flag_of_def value_of_def opt_str_def opt_num_def strs_of_def
  structs_of_def

definition FsReadParams_fields :: "field list" where
  "FsReadParams_fields = [(''path'', False, TString),
     (''offset'', True, TU64),
     (''length'', True, TOption TU64),
     (''binary'', True, TBool),
     (''strip_noise'', True, TBool)]"

definition FsReadParams_of :: "(string \<times> json) list \<Rightarrow> FsReadParams" where
  "FsReadParams_of kvs =
     \<lparr>frp_path = str_of ''path'' kvs,
      frp_offset = num_of ''offset'' kvs,
      frp_length = opt_num ''length'' kvs,
      frp_binary = flag_of ''binary'' kvs,
      frp_strip_noise = flag_of ''strip_noise'' kvs\<rparr>"

definition FsReadBatchParams_fields :: "field list" where
  "FsReadBatchParams_fields = [(''requests'', False, TVec (TStruct FsReadParams_fields))]"

definition FsReadBatchParams_of :: "(string \<times> json) list \<Rightarrow> FsReadBatchParams" where
  "FsReadBatchParams_of kvs =
     \<lparr>frbp_requests = structs_of FsReadParams_of ''requests'' kvs\<rparr>"

definition FsApplyPatchParams_fields :: "field list" where
  "FsApplyPatchParams_fields = [(''path'', False, TString),
     (''patch'', False, TString),
     (''expected_version'', True, TOption TU64),
     (''expected_mtime_ns'', True, TOption TU64)]"

definition FsApplyPatchParams_of :: "(string \<times> json) list \<Rightarrow> FsApplyPatchParams" where
  "FsApplyPatchParams_of kvs =
     \<lparr>fapp_path = str_of ''path'' kvs,
      fapp_patch = str_of ''patch'' kvs,
      fapp_expected_version = opt_num ''expected_version'' kvs,
      fapp_expected_mtime_ns = opt_num ''expected_mtime_ns'' kvs\<rparr>"

definition FsReplaceAllParams_fields :: "field list" where
  "FsReplaceAllParams_fields = [(''path'', False, TString),
     (''search'', False, TString),
     (''replacement'', False, TString),
     (''expected_version'', True, TOption TU64),
     (''expected_mtime_ns'', True, TOption TU64),
     (''max_replacements'', True, TOption TU64)]"

definition FsReplaceAllParams_of :: "(string \<times> json) list \<Rightarrow> FsReplaceAllParams" where
  "FsReplaceAllParams_of kvs =
     \<lparr>frap_path = str_of ''path'' kvs,
      frap_search = str_of ''search'' kvs,
      frap_replacement = str_of ''replacement'' kvs,
      frap_expected_version = opt_num ''expected_version'' kvs,
      frap_expected_mtime_ns = opt_num ''expected_mtime_ns'' kvs,
      frap_max_replacements = opt_num ''max_replacements'' kvs\<rparr>"

definition GitStatusParams_fields :: "field list" where
  "GitStatusParams_fields = [(''repo'', True, TOption TString),
     (''compact'', True, TBool)]"

definition GitStatusParams_of :: "(string \<times> json) list \<Rightarrow> GitStatusParams" where
  "GitStatusParams_of kvs =
     \<lparr>gsp_repo = opt_str ''repo'' kvs,
      gsp_compact = flag_of ''compact'' kvs\<rparr>"

definition GitLogParams_fields :: "field list" where
  "GitLogParams_fields = [(''repo'', True, TOption TString),
     (''max_count'', True, TOption TU64),
     (''revision'', True, TOption TString),
     (''path'', True, TOption TString)]"

definition GitLogParams_of :: "(string \<times> json) list \<Rightarrow> GitLogParams" where
  "GitLogParams_of kvs =
     \<lparr>glp_repo = opt_str ''repo'' kvs,
      glp_max_count = opt_num ''max_count'' kvs,
      glp_revision = opt_str ''revision'' kvs,
      glp_path = opt_str ''path'' kvs\<rparr>"

definition GitDiffParams_fields :: "field list" where
  "GitDiffParams_fields = [(''repo'', True, TOption TString),
     (''base'', True, TOption TString),
     (''target'', True, TOption TString),
     (''path'', True, TOption TString)]"

definition GitDiffParams_of :: "(string \<times> json) list \<Rightarrow> GitDiffParams" where
  "GitDiffParams_of kvs =
     \<lparr>gdp_repo = opt_str ''repo'' kvs,
      gdp_base = opt_str ''base'' kvs,
      gdp_target = opt_str ''target'' kvs,
      gdp_path = opt_str ''path'' kvs\<rparr>"

definition GitBlameParams_fields :: "field list" where
  "GitBlameParams_fields = [(''repo'', True, TOption TString),
     (''path'', False, TString)]"

definition GitBlameParams_of :: "(string \<times> json) list \<Rightarrow> GitBlameParams" where
  "GitBlameParams_of kvs =
     \<lparr>gbp_repo = opt_str ''repo'' kvs,
      gbp_path = str_of ''path'' kvs\<rparr>"

definition GitHistoryParams_fields :: "field list" where
  "GitHistoryParams_fields = [(''repo'', True, TOption TString),
     (''path'', False, TString),
     (''max_count'', True, TOption TU64)]"

definition GitHistoryParams_of :: "(string \<times> json) list \<Rightarrow> GitHistoryParams" where
  "GitHistoryParams_of kvs =
     \<lparr>ghp_repo = opt_str ''repo'' kvs,
      ghp_path = str_of ''path'' kvs,
      ghp_max_count = opt_num ''max_count'' kvs\<rparr>"

definition SearchGrepParams_fields :: "field list" where
  "SearchGrepParams_fields = [(''pattern'', False, TString),
     (''path'', True, TOption TString),
     (''glob'', True, TOption TString),
     (''max_results'', True, TOption TU64),
     (''case_insensitive'', True, TBool),
     (''compact'', True, TBool),
     (''context'', True, TU32)]"

definition SearchGrepParams_of :: "(string \<times> json) list \<Rightarrow> SearchGrepParams" where
  "SearchGrepParams_of kvs =
     \<lparr>sgp_pattern = str_of ''pattern'' kvs,
      sgp_path = opt_str ''path'' kvs,
      sgp_glob = opt_str ''glob'' kvs,
      sgp_max_results = opt_num ''max_results'' kvs,
      sgp_case_insensitive = flag_of ''case_insensitive'' kvs,
      sgp_compact = flag_of ''compact'' kvs,
      sgp_context = num_of ''context'' kvs\<rparr>"

definition FsChangesParams_fields :: "field list" where
  "FsChangesParams_fields = [(''since'', False, TU64)]"

definition FsChangesParams_of :: "(string \<times> json) list \<Rightarrow> FsChangesParams" where
  "FsChangesParams_of kvs =
     \<lparr>fchp_since = num_of ''since'' kvs\<rparr>"

definition FsScanParams_fields :: "field list" where
  "FsScanParams_fields = [(''path'', True, TOption TString),
     (''max_results'', True, TOption TU64),
     (''compact'', True, TBool)]"

definition FsScanParams_of :: "(string \<times> json) list \<Rightarrow> FsScanParams" where
  "FsScanParams_of kvs =
     \<lparr>fscp_path = opt_str ''path'' kvs,
      fscp_max_results = opt_num ''max_results'' kvs,
      fscp_compact = flag_of ''compact'' kvs\<rparr>"

definition CodeOutlineParams_fields :: "field list" where
  "CodeOutlineParams_fields = [(''path'', False, TString),
     (''signatures_only'', True, TBool)]"

definition CodeOutlineParams_of :: "(string \<times> json) list \<Rightarrow> CodeOutlineParams" where
  "CodeOutlineParams_of kvs =
     \<lparr>cop_path = str_of ''path'' kvs,
      cop_signatures_only = flag_of ''signatures_only'' kvs\<rparr>"

definition CodeSymbolsParams_fields :: "field list" where
  "CodeSymbolsParams_fields = [(''path'', False, TString)]"

definition CodeSymbolsParams_of :: "(string \<times> json) list \<Rightarrow> CodeSymbolsParams" where
  "CodeSymbolsParams_of kvs =
     \<lparr>csp_path = str_of ''path'' kvs\<rparr>"

definition CodeOutlineBatchParams_fields :: "field list" where
  "CodeOutlineBatchParams_fields = [(''requests'', False, TVec (TStruct CodeOutlineParams_fields))]"

definition CodeOutlineBatchParams_of :: "(string \<times> json) list \<Rightarrow> CodeOutlineBatchParams" where
  "CodeOutlineBatchParams_of kvs =
     \<lparr>cobp_requests = structs_of CodeOutlineParams_of ''requests'' kvs\<rparr>"

definition CodeSymbolsBatchParams_fields :: "field list" where
  "CodeSymbolsBatchParams_fields = [(''requests'', False, TVec (TStruct CodeSymbolsParams_fields))]"

definition CodeSymbolsBatchParams_of :: "(string \<times> json) list \<Rightarrow> CodeSymbolsBatchParams" where
  "CodeSymbolsBatchParams_of kvs =
     \<lparr>csbp_requests = structs_of CodeSymbolsParams_of ''requests'' kvs\<rparr>"

definition CodeImportsParams_fields :: "field list" where
  "CodeImportsParams_fields = [(''path'', False, TString)]"

definition CodeImportsParams_of :: "(string \<times> json) list \<Rightarrow> CodeImportsParams" where
  "CodeImportsParams_of kvs =
     \<lparr>cip_path = str_of ''path'' kvs\<rparr>"

definition CodeDependenciesParams_fields :: "field list" where
  "CodeDependenciesParams_fields = [(''path'', True, TOption TString),
     (''max_files'', True, TOption TU64)]"

definition CodeDependenciesParams_of :: "(string \<times> json) list \<Rightarrow> CodeDependenciesParams" where
  "CodeDependenciesParams_of kvs =
     \<lparr>cdp_path = opt_str ''path'' kvs,
      cdp_max_files = opt_num ''max_files'' kvs\<rparr>"

definition CodeFindOccurrencesParams_fields :: "field list" where
  "CodeFindOccurrencesParams_fields = [(''identifier'', False, TString),
     (''path'', True, TOption TString),
     (''max_results'', True, TOption TU64)]"

definition CodeFindOccurrencesParams_of :: "(string \<times> json) list \<Rightarrow> CodeFindOccurrencesParams" where
  "CodeFindOccurrencesParams_of kvs =
     \<lparr>cfop_identifier = str_of ''identifier'' kvs,
      cfop_path = opt_str ''path'' kvs,
      cfop_max_results = opt_num ''max_results'' kvs\<rparr>"

definition FsReadSkeletonParams_fields :: "field list" where
  "FsReadSkeletonParams_fields = [(''path'', False, TString),
     (''target_line'', True, TOption TU32),
     (''target_symbol'', True, TOption TString)]"

definition FsReadSkeletonParams_of :: "(string \<times> json) list \<Rightarrow> FsReadSkeletonParams" where
  "FsReadSkeletonParams_of kvs =
     \<lparr>frsp_path = str_of ''path'' kvs,
      frsp_target_line = opt_num ''target_line'' kvs,
      frsp_target_symbol = opt_str ''target_symbol'' kvs\<rparr>"

definition MetricsGainParams_fields :: "field list" where
  "MetricsGainParams_fields = []"

definition MetricsToolLatencyParams_fields :: "field list" where
  "MetricsToolLatencyParams_fields = []"

definition ToolRunEnv_fields :: "field list" where
  "ToolRunEnv_fields = [(''name'', False, TString),
     (''value'', False, TString)]"

definition ToolRunEnv_of :: "(string \<times> json) list \<Rightarrow> ToolRunEnv" where
  "ToolRunEnv_of kvs =
     \<lparr>tre_name = str_of ''name'' kvs,
      tre_value = str_of ''value'' kvs\<rparr>"

definition ToolRunParams_fields :: "field list" where
  "ToolRunParams_fields = [(''command'', False, TString),
     (''args'', True, TVec TString),
     (''cwd'', True, TOption TString),
     (''env'', True, TVec (TStruct ToolRunEnv_fields)),
     (''max_output_bytes'', True, TOption TU64),
     (''cache'', True, TBool)]"

definition ToolRunParams_of :: "(string \<times> json) list \<Rightarrow> ToolRunParams" where
  "ToolRunParams_of kvs =
     \<lparr>trp_command = str_of ''command'' kvs,
      trp_args = strs_of ''args'' kvs,
      trp_cwd = opt_str ''cwd'' kvs,
      trp_env = structs_of ToolRunEnv_of ''env'' kvs,
      trp_max_output_bytes = opt_num ''max_output_bytes'' kvs,
      trp_cache = flag_of ''cache'' kvs\<rparr>"

definition ToolGhParams_fields :: "field list" where
  "ToolGhParams_fields = [(''kind'', False, TString),
     (''selector'', True, TOption TString),
     (''repo'', True, TOption TString),
     (''fields'', True, TVec TString)]"

definition ToolGhParams_of :: "(string \<times> json) list \<Rightarrow> ToolGhParams" where
  "ToolGhParams_of kvs =
     \<lparr>tgp_kind = str_of ''kind'' kvs,
      tgp_selector = opt_str ''selector'' kvs,
      tgp_repo = opt_str ''repo'' kvs,
      tgp_fields = strs_of ''fields'' kvs\<rparr>"

definition ToolSpawnParams_fields :: "field list" where
  "ToolSpawnParams_fields = [(''command'', False, TString),
     (''args'', True, TVec TString),
     (''cwd'', True, TOption TString),
     (''env'', True, TVec (TStruct ToolRunEnv_fields))]"

definition ToolSpawnParams_of :: "(string \<times> json) list \<Rightarrow> ToolSpawnParams" where
  "ToolSpawnParams_of kvs =
     \<lparr>tsp_command = str_of ''command'' kvs,
      tsp_args = strs_of ''args'' kvs,
      tsp_cwd = opt_str ''cwd'' kvs,
      tsp_env = structs_of ToolRunEnv_of ''env'' kvs\<rparr>"

definition ToolReadLogsParams_fields :: "field list" where
  "ToolReadLogsParams_fields = [(''job_id'', False, TU64),
     (''offset'', True, TU64),
     (''max_bytes'', True, TOption TU64)]"

definition ToolReadLogsParams_of :: "(string \<times> json) list \<Rightarrow> ToolReadLogsParams" where
  "ToolReadLogsParams_of kvs =
     \<lparr>trlp_job_id = num_of ''job_id'' kvs,
      trlp_offset = num_of ''offset'' kvs,
      trlp_max_bytes = opt_num ''max_bytes'' kvs\<rparr>"

definition ToolKillParams_fields :: "field list" where
  "ToolKillParams_fields = [(''job_id'', False, TU64)]"

definition ToolKillParams_of :: "(string \<times> json) list \<Rightarrow> ToolKillParams" where
  "ToolKillParams_of kvs =
     \<lparr>tkp_job_id = num_of ''job_id'' kvs\<rparr>"

definition PipeStep_fields :: "field list" where
  "PipeStep_fields = [(''method'', False, TString),
     (''params'', True, TValue),
     (''for_each'', True, TOption TString),
     (''continue_on_error'', True, TBool),
     (''concurrency'', True, TOption TU64)]"

definition PipeStep_of :: "(string \<times> json) list \<Rightarrow> PipeStep" where
  "PipeStep_of kvs =
     \<lparr>ps_method = str_of ''method'' kvs,
      ps_params = value_of ''params'' kvs,
      ps_for_each = opt_str ''for_each'' kvs,
      ps_continue_on_error = flag_of ''continue_on_error'' kvs,
      ps_concurrency = opt_num ''concurrency'' kvs\<rparr>"

definition PipeParams_fields :: "field list" where
  "PipeParams_fields = [(''steps'', False, TVec (TStruct PipeStep_fields))]"

definition PipeParams_of :: "(string \<times> json) list \<Rightarrow> PipeParams" where
  "PipeParams_of kvs =
     \<lparr>pp_steps = structs_of PipeStep_of ''steps'' kvs\<rparr>"

text \<open>Every decoder of the daemon is derived from the declaration of its struct.\<close>

definition serde_derives :: "Decoders \<Rightarrow> bool" where
  "serde_derives de \<longleftrightarrow>
     derives FsReadParams_fields FsReadParams_of (dec_fs_read de) \<and>
     derives FsReadBatchParams_fields FsReadBatchParams_of (dec_fs_read_batch de) \<and>
     derives FsApplyPatchParams_fields FsApplyPatchParams_of (dec_fs_apply_patch de) \<and>
     derives FsReplaceAllParams_fields FsReplaceAllParams_of (dec_fs_replace_all de) \<and>
     derives FsChangesParams_fields FsChangesParams_of (dec_fs_changes de) \<and>
     derives FsScanParams_fields FsScanParams_of (dec_fs_scan de) \<and>
     derives GitStatusParams_fields GitStatusParams_of (dec_git_status de) \<and>
     derives GitLogParams_fields GitLogParams_of (dec_git_log de) \<and>
     derives GitDiffParams_fields GitDiffParams_of (dec_git_diff de) \<and>
     derives GitBlameParams_fields GitBlameParams_of (dec_git_blame de) \<and>
     derives GitHistoryParams_fields GitHistoryParams_of (dec_git_history de) \<and>
     derives SearchGrepParams_fields SearchGrepParams_of (dec_search_grep de) \<and>
     derives CodeOutlineParams_fields CodeOutlineParams_of (dec_code_outline de) \<and>
     derives CodeOutlineBatchParams_fields CodeOutlineBatchParams_of (dec_code_outline_batch de) \<and>
     derives CodeSymbolsParams_fields CodeSymbolsParams_of (dec_code_symbols de) \<and>
     derives CodeSymbolsBatchParams_fields CodeSymbolsBatchParams_of (dec_code_symbols_batch de) \<and>
     derives CodeImportsParams_fields CodeImportsParams_of (dec_code_imports de) \<and>
     derives CodeDependenciesParams_fields CodeDependenciesParams_of (dec_code_dependencies de) \<and>
     derives CodeFindOccurrencesParams_fields CodeFindOccurrencesParams_of (dec_code_find_occurrences de) \<and>
     derives FsReadSkeletonParams_fields FsReadSkeletonParams_of (dec_fs_read_skeleton de) \<and>
     derives ToolRunParams_fields ToolRunParams_of (dec_tool_run de) \<and>
     derives ToolGhParams_fields ToolGhParams_of (dec_tool_gh de) \<and>
     derives ToolSpawnParams_fields ToolSpawnParams_of (dec_tool_spawn de) \<and>
     derives ToolReadLogsParams_fields ToolReadLogsParams_of (dec_tool_read_logs de) \<and>
     derives ToolKillParams_fields ToolKillParams_of (dec_tool_kill de) \<and>
     derives MetricsGainParams_fields (\<lambda>_. ()) (dec_metrics_gain de) \<and>
     derives MetricsToolLatencyParams_fields (\<lambda>_. ()) (dec_metrics_tool_latency de) \<and>
     derives PipeParams_fields PipeParams_of (dec_pipe de)"

lemmas field_defs = FsReadParams_fields_def FsReadBatchParams_fields_def FsApplyPatchParams_fields_def FsReplaceAllParams_fields_def GitStatusParams_fields_def GitLogParams_fields_def GitDiffParams_fields_def GitBlameParams_fields_def GitHistoryParams_fields_def SearchGrepParams_fields_def FsChangesParams_fields_def FsScanParams_fields_def CodeOutlineParams_fields_def CodeSymbolsParams_fields_def CodeOutlineBatchParams_fields_def CodeSymbolsBatchParams_fields_def CodeImportsParams_fields_def CodeDependenciesParams_fields_def CodeFindOccurrencesParams_fields_def FsReadSkeletonParams_fields_def MetricsGainParams_fields_def MetricsToolLatencyParams_fields_def ToolRunEnv_fields_def ToolRunParams_fields_def ToolGhParams_fields_def ToolSpawnParams_fields_def ToolReadLogsParams_fields_def ToolKillParams_fields_def PipeStep_fields_def PipeParams_fields_def

definition method_params :: "(string \<times> field list) list" where
  "method_params =
     [(FS_READ, FsReadParams_fields),
      (FS_READ_BATCH, FsReadBatchParams_fields),
      (FS_APPLY_PATCH, FsApplyPatchParams_fields),
      (FS_REPLACE_ALL, FsReplaceAllParams_fields),
      (FS_CHANGES, FsChangesParams_fields),
      (FS_SCAN, FsScanParams_fields),
      (GIT_STATUS, GitStatusParams_fields),
      (GIT_LOG, GitLogParams_fields),
      (GIT_DIFF, GitDiffParams_fields),
      (GIT_BLAME, GitBlameParams_fields),
      (GIT_HISTORY, GitHistoryParams_fields),
      (SEARCH_GREP, SearchGrepParams_fields),
      (CODE_OUTLINE, CodeOutlineParams_fields),
      (CODE_OUTLINE_BATCH, CodeOutlineBatchParams_fields),
      (CODE_SYMBOLS, CodeSymbolsParams_fields),
      (CODE_SYMBOLS_BATCH, CodeSymbolsBatchParams_fields),
      (CODE_IMPORTS, CodeImportsParams_fields),
      (CODE_DEPENDENCIES, CodeDependenciesParams_fields),
      (CODE_FIND_OCCURRENCES, CodeFindOccurrencesParams_fields),
      (FS_READ_SKELETON, FsReadSkeletonParams_fields),
      (TOOL_RUN, ToolRunParams_fields),
      (TOOL_GH, ToolGhParams_fields),
      (TOOL_SPAWN, ToolSpawnParams_fields),
      (TOOL_READ_LOGS, ToolReadLogsParams_fields),
      (TOOL_KILL, ToolKillParams_fields),
      (METRICS_GAIN, MetricsGainParams_fields),
      (METRICS_TOOL_LATENCY, MetricsToolLatencyParams_fields),
      (PIPE, PipeParams_fields)]"

definition input_schema :: "json \<Rightarrow> json" where
  "input_schema tool = (case json_get ''inputSchema'' tool of Some s \<Rightarrow> s | None \<Rightarrow> JNull)"

text \<open>The bound below which the integers of a tool's arguments have to lie beside its schema: every
  64-bit integer will do, but for the one \<open>u32\<close> whose schema has no maximum.\<close>

definition int_limit :: "string \<Rightarrow> nat" where
  "int_limit meth = (if meth = FS_READ_SKELETON then 2 ^ 32 else 2 ^ 64)"

subsection \<open>A derived decoder\<close>

locale derived_decoder =
  fixes fs :: "field list" and mk :: "(string \<times> json) list \<Rightarrow> 'p" and dec :: "json \<Rightarrow> ('p, string) res"
  assumes accepts: "json_value (JObject kvs) \<Longrightarrow> fits (TStruct fs) (JObject kvs) \<Longrightarrow> dec (JObject kvs) = Ok (mk kvs)"
    and misses: "json_value (JObject kvs) \<Longrightarrow> f \<in> set fs \<Longrightarrow> \<not> may_be_absent f \<Longrightarrow>
      fst f \<notin> fst ` set kvs \<Longrightarrow> \<exists>e. dec (JObject kvs) = Err e"
begin

lemma no_error: "json_value j \<Longrightarrow> fits (TStruct fs) j \<Longrightarrow> decode_error dec j = None"
  using accepts by (cases j) (simp_all add: decode_error_def)

lemma missing_error:
  "json_value (JObject kvs) \<Longrightarrow> k \<in> set (map fst (filter (\<lambda>f. \<not> may_be_absent f) fs)) \<Longrightarrow>
     k \<notin> fst ` set kvs \<Longrightarrow> \<exists>e. decode_error dec (JObject kvs) = Some e"
  using misses [of kvs] by (fastforce simp: decode_error_def)

end

lemma derives_iff: "derives fs mk dec \<longleftrightarrow> derived_decoder fs mk dec"
  unfolding derives_def derived_decoder_def by blast

text \<open>A decoder that does no more than that.\<close>

definition plain_decoder ::
  "field list \<Rightarrow> ((string \<times> json) list \<Rightarrow> 'p) \<Rightarrow> json \<Rightarrow> ('p, string) res" where
  "plain_decoder fs mk j =
     (case j of
        JObject kvs \<Rightarrow> if fits (TStruct fs) j then Ok (mk kvs) else Err ''invalid''
      | _ \<Rightarrow> Err ''invalid'')"

interpretation plain: derived_decoder fs mk "plain_decoder fs mk" for fs mk
proof unfold_locales
  fix kvs :: "(string \<times> json) list" and f :: field
  assume "f \<in> set fs" "\<not> may_be_absent f" "fst f \<notin> fst ` set kvs"
  moreover from this have "map_of kvs (fst f) = None" by (simp add: map_of_eq_None_iff)
  ultimately show "\<exists>e. plain_decoder fs mk (JObject kvs) = Err e"
    by (fastforce simp: plain_decoder_def list_all_iff)
qed (simp add: plain_decoder_def)

definition plain_de :: Decoders where
  "plain_de =
     \<lparr>dec_fs_read = plain_decoder FsReadParams_fields FsReadParams_of,
      dec_fs_read_batch = plain_decoder FsReadBatchParams_fields FsReadBatchParams_of,
      dec_fs_apply_patch = plain_decoder FsApplyPatchParams_fields FsApplyPatchParams_of,
      dec_fs_replace_all = plain_decoder FsReplaceAllParams_fields FsReplaceAllParams_of,
      dec_fs_changes = plain_decoder FsChangesParams_fields FsChangesParams_of,
      dec_fs_scan = plain_decoder FsScanParams_fields FsScanParams_of,
      dec_git_status = plain_decoder GitStatusParams_fields GitStatusParams_of,
      dec_git_log = plain_decoder GitLogParams_fields GitLogParams_of,
      dec_git_diff = plain_decoder GitDiffParams_fields GitDiffParams_of,
      dec_git_blame = plain_decoder GitBlameParams_fields GitBlameParams_of,
      dec_git_history = plain_decoder GitHistoryParams_fields GitHistoryParams_of,
      dec_search_grep = plain_decoder SearchGrepParams_fields SearchGrepParams_of,
      dec_code_outline = plain_decoder CodeOutlineParams_fields CodeOutlineParams_of,
      dec_code_outline_batch = plain_decoder CodeOutlineBatchParams_fields CodeOutlineBatchParams_of,
      dec_code_symbols = plain_decoder CodeSymbolsParams_fields CodeSymbolsParams_of,
      dec_code_symbols_batch = plain_decoder CodeSymbolsBatchParams_fields CodeSymbolsBatchParams_of,
      dec_code_imports = plain_decoder CodeImportsParams_fields CodeImportsParams_of,
      dec_code_dependencies = plain_decoder CodeDependenciesParams_fields CodeDependenciesParams_of,
      dec_code_find_occurrences = plain_decoder CodeFindOccurrencesParams_fields CodeFindOccurrencesParams_of,
      dec_fs_read_skeleton = plain_decoder FsReadSkeletonParams_fields FsReadSkeletonParams_of,
      dec_tool_run = plain_decoder ToolRunParams_fields ToolRunParams_of,
      dec_tool_gh = plain_decoder ToolGhParams_fields ToolGhParams_of,
      dec_tool_spawn = plain_decoder ToolSpawnParams_fields ToolSpawnParams_of,
      dec_tool_read_logs = plain_decoder ToolReadLogsParams_fields ToolReadLogsParams_of,
      dec_tool_kill = plain_decoder ToolKillParams_fields ToolKillParams_of,
      dec_metrics_gain = plain_decoder MetricsGainParams_fields (\<lambda>_. ()),
      dec_metrics_tool_latency = plain_decoder MetricsToolLatencyParams_fields (\<lambda>_. ()),
      dec_pipe = plain_decoder PipeParams_fields PipeParams_of\<rparr>"

lemma plain_derives: "serde_derives plain_de"
  unfolding serde_derives_def derives_iff plain_de_def by (simp add: plain.derived_decoder_axioms)

subsection \<open>Schemas and declarations\<close>

lemma meets_keyword: "conforms s v \<Longrightarrow> json_get k s = Some x \<Longrightarrow> meets k x v"
  by (cases s) (force simp: json_get_def list_all_iff dest: map_of_SomeD)+

lemma conforms_typed: "conforms s v \<Longrightarrow> typed t s \<Longrightarrow> has_type t v"
  using meets_keyword [of s v "''type''"] by simp

lemma conforms_natural:
  assumes "conforms s v" "natural s"
  obtains n where "v = JNumber (PosInt n)"
proof -
  from assms(2) obtain b where "typed ''integer'' s" and b: "json_get ''minimum'' s = Some (JNumber (PosInt b))"
    by (auto simp: natural_def split: option.splits json.splits json_number.splits)
  then have "has_type ''integer'' v" using assms(1) conforms_typed by blast
  moreover have "at_least (JNumber (PosInt b)) v" using meets_keyword [OF assms(1) b] by simp
  ultimately show thesis
    using that by (auto simp: has_type_def split: json.splits json_number.splits)
qed

lemma as_str_Some: "as_str v = Some k \<longleftrightarrow> v = JString k"
  by (cases v) auto

lemma ints_below_member: "ints_below b (JObject kvs) \<Longrightarrow> map_of kvs k = Some x \<Longrightarrow> ints_below b x"
  by (force simp: list_all_iff dest: map_of_SomeD)

lemma conforms_required:
  assumes "conforms s (JObject kvs)" "k \<in> set (required_keys s)"
  shows "k \<in> fst ` set kvs"
proof -
  from assms(2) obtain rs where rs: "json_get ''required'' s = Some (JArray rs)" and "JString k \<in> set rs"
    by (auto simp: required_keys_def map_filter_def as_str_Some split: option.splits json.splits) metis
  with meets_keyword [OF assms(1) rs] show ?thesis by (auto simp: list_all_iff)
qed

lemma conforms_property:
  assumes "conforms s (JObject kvs)" "map_of (properties_of s) k = Some s'" "map_of kvs k = Some x"
  shows "conforms s' x"
proof -
  from assms(2) obtain ps where ps: "json_get ''properties'' s = Some (JObject ps)" and "(k, s') \<in> set ps"
    by (auto simp: properties_of_def split: option.splits json.splits dest: map_of_SomeD)
  with meets_keyword [OF assms(1) ps] assms(3) show ?thesis by (fastforce simp: list_all_iff json_get_def)
qed

lemma covers_fits: "covers b t s \<Longrightarrow> conforms s v \<Longrightarrow> ints_below b v \<Longrightarrow> fits t v"
proof (induction t v arbitrary: s rule: fits.induct)
  case (1 j)
  then show ?case by (auto dest!: conforms_typed simp: has_type_def split: json.splits json_number.splits)
next
  case (2 j)
  then show ?case by (auto dest!: conforms_typed simp: has_type_def split: json.splits json_number.splits)
next
  case (3 j)
  then obtain n where n: "j = JNumber (PosInt n)" by (auto elim: conforms_natural)
  with 3 show ?case
    using meets_keyword [of s j "''maximum''"] by (auto split: option.splits json.splits json_number.splits)
next
  case (4 j)
  then obtain n where n: "j = JNumber (PosInt n)" by (auto elim: conforms_natural)
  with 4 show ?case by simp
next
  case (7 t j)
  then obtain vs where vs: "j = JArray vs"
    by (auto dest!: conforms_typed simp: has_type_def split: json.splits json_number.splits)
  from "7.prems"(1) obtain s' where s': "json_get ''items'' s = Some s'" "covers b t s'"
    by (auto split: option.splits)
  from meets_keyword [OF "7.prems"(2) s'(1)] vs have "list_all (conforms s') vs" by simp
  then show ?case using "7.IH" [OF vs _ s'(2)] "7.prems"(3) vs by (auto simp: list_all_iff)
next
  case (8 fs j)
  then obtain kvs where kvs: "j = JObject kvs"
    by (auto dest!: conforms_typed simp: has_type_def split: json.splits json_number.splits)
  have "case map_of kvs (fst f) of Some x \<Rightarrow> fits (snd (snd f)) x | None \<Rightarrow> may_be_absent f" if f: "f \<in> set fs" for f
  proof (cases "map_of kvs (fst f)")
    case None
    then have "fst f \<notin> set (required_keys s)"
      using conforms_required [of s kvs "fst f"] "8.prems"(2) kvs by (auto simp: map_of_eq_None_iff)
    then show ?thesis using "8.prems"(1) f None by auto
  next
    case (Some x)
    from "8.prems"(1) f obtain s' where s': "map_of (properties_of s) (fst f) = Some s'" "covers b (snd (snd f)) s'"
      by (fastforce simp: list_all_iff split: option.splits)
    have "conforms s' x" using conforms_property [OF _ s'(1) Some] "8.prems"(2) kvs by simp
    moreover have "ints_below b x" using ints_below_member Some "8.prems"(3) kvs by blast
    ultimately show ?thesis using "8.IH" [OF kvs f Some s'(2)] Some by simp
  qed
  then show ?case using kvs by (simp add: list_all_iff)
qed auto

text \<open>Every tool's schema covers the declaration of its method's parameters.\<close>

definition schema_fits :: "string \<times> string \<Rightarrow> json \<Rightarrow> bool" where
  "schema_fits route tool \<longleftrightarrow>
     (case map_of method_params (snd route) of
        Some fs \<Rightarrow> covers (int_limit (snd route)) (TStruct fs) (input_schema tool)
      | None \<Rightarrow> snd route = FS_SNAPSHOT \<and> required_keys (input_schema tool) = [])"

lemmas method_neqs_sym = distinct_all_methods [unfolded all_methods_def, simplified]

lemmas schema_simps = schema_fits_def method_params_def method_neqs method_neqs_sym int_limit_def input_schema_def json_get_def
  properties_of_def required_keys_def natural_def field_defs map_filter_simps

lemma input_schema_tool: "input_schema (JObject [(''name'', n), (''description'', d), (''inputSchema'', s)]) = s"
  by (simp add: input_schema_def json_get_def)

lemma schemas_fit: "list_all2 schema_fits tool_routes tool_definitions"
  unfolding tool_routes_def tool_definitions_def list_all2_Cons list_all2_Nil tool_defs
    schema_fits_def input_schema_tool fst_conv snd_conv
  by (intro conjI) (simp_all add: schema_simps)

lemma tool_schema_fits:
  assumes "tool \<in> set tool_definitions" "tool_name tool = Some name" "daemon_method name = Some m"
  shows "schema_fits (name, m) tool"
proof -
  from assms(1) obtain i where i: "i < length tool_definitions" "tool_definitions ! i = tool"
    by (auto simp: in_set_conv_nth)
  have len: "length tool_routes = length tool_definitions"
    using schemas_fit by (rule list_all2_lengthD)
  have "map tool_name tool_definitions ! i = map (\<lambda>r. Some (fst r)) tool_routes ! i"
    by (simp only: tool_names)
  then have "name = fst (tool_routes ! i)" using i len assms(2) by simp
  moreover have "map_of tool_routes (fst (tool_routes ! i)) = Some (snd (tool_routes ! i))"
    using distinct_tools i len by (simp add: map_of_eq_Some_iff)
  ultimately have "(name, m) = tool_routes ! i"
    using assms(3) by (simp add: daemon_method_def prod_eq_iff)
  then show ?thesis using list_all2_nthD2 [OF schemas_fit i(1)] i(2) by simp
qed

text \<open>The decoders of all methods, with the one of \<open>pipe\<close>.\<close>

definition all_checks :: "Decoders \<Rightarrow> (string \<times> (json \<Rightarrow> string option)) list" where
  "all_checks de = parameter_checks de @ [(PIPE, decode_error (dec_pipe de))]"

definition checks_fields :: "string \<times> field list \<Rightarrow> string \<times> (json \<Rightarrow> string option) \<Rightarrow> bool" where
  "checks_fields mf kc \<longleftrightarrow> fst kc = fst mf \<and>
     (\<forall>j. json_value j \<longrightarrow> fits (TStruct (snd mf)) j \<longrightarrow> snd kc j = None) \<and>
     (\<forall>kvs k. json_value (JObject kvs) \<longrightarrow> k \<notin> fst ` set kvs \<longrightarrow>
        k \<in> set (map fst (filter (\<lambda>f. \<not> may_be_absent f) (snd mf))) \<longrightarrow> (\<exists>e. snd kc (JObject kvs) = Some e))"

lemma checks_fieldsI:
  assumes "derives fs mk dec"
  shows "checks_fields (m, fs) (m, decode_error dec)"
proof -
  from assms have d: "derived_decoder fs mk dec" by (simp only: derives_iff)
  show ?thesis
    unfolding checks_fields_def fst_conv snd_conv
    by (intro conjI allI impI refl derived_decoder.no_error [OF d] derived_decoder.missing_error [OF d])
qed

lemma all_checks_fields:
  assumes "serde_derives de"
  shows "list_all2 checks_fields method_params (all_checks de)"
  using assms
  unfolding serde_derives_def method_params_def all_checks_def parameter_checks_def append.simps
  by (elim conjE) (intro list_all2_Cons [THEN iffD2] conjI list.rel_intros(1); erule checks_fieldsI)

lemma distinct_checks: "distinct (map fst (all_checks de))"
  by (simp add: all_checks_def parameter_checks_def method_neqs method_neqs_sym)

lemma method_params_checked:
  assumes "serde_derives de" "map_of method_params m = Some fs"
  obtains chk where "map_of (all_checks de) m = Some chk" "checks_fields (m, fs) (m, chk)"
proof -
  from map_of_SomeD [OF assms(2)] obtain i where i: "i < length method_params" "method_params ! i = (m, fs)"
    by (auto simp: in_set_conv_nth)
  note all = all_checks_fields [OF assms(1)]
  have len: "i < length (all_checks de)" using i list_all2_lengthD [OF all] by simp
  have ck: "checks_fields (m, fs) (all_checks de ! i)" using list_all2_nthD [OF all i(1)] i(2) by simp
  then have "all_checks de ! i = (m, snd (all_checks de ! i))"
    by (simp add: checks_fields_def prod_eq_iff)
  moreover from this have "map_of (all_checks de) m = Some (snd (all_checks de ! i))"
    using distinct_checks len by (metis map_of_eq_Some_iff nth_mem)
  ultimately show thesis using that ck by metis
qed

lemma dispatch_missing:
  assumes "map_of (all_checks de) m = Some chk" "chk params = Some e"
  shows "\<exists>e. (if m = PIPE then daemon_pipe sv de en jp sched params d else dispatch_method sv de en m params d) =
    (Err (rpc_error (-32602) e), d)"
proof (cases "m = PIPE")
  case True
  then have "(PIPE, chk) \<in> set (all_checks de)" "(PIPE, decode_error (dec_pipe de)) \<in> set (all_checks de)"
    using map_of_SomeD [OF assms(1)] by (simp_all add: all_checks_def)
  then have "chk = decode_error (dec_pipe de)" using distinct_checks by (rule eq_key_imp_eq_value [rotated])
  then show ?thesis
    using True assms(2)
    by (auto simp: daemon_pipe_def pipe_def decode_error_def map_err_def split: res.splits)
next
  case False
  then have "(m, chk) \<in> set (parameter_checks de)"
    using map_of_SomeD [OF assms(1)] by (auto simp: all_checks_def)
  from dispatch_method_rejects [OF this assms(2)] show ?thesis using False by auto
qed

subsection \<open>Properties\<close>



end
