(* ===== verification/Wire_Defaults.thy ===== *)
theory Wire_Defaults
  imports Wire
begin

text \<open>
  The defaults that the schemas of the tools announce, and the ones the daemon has: those of the
  fields with \<open>serde(default)\<close> are filled in by the decoder, the others (\<open>max_count\<close>, \<open>max_results\<close>,
  \<open>max_files\<close>, \<open>max_output_bytes\<close>) by the handlers.
\<close>

definition tool_defaults :: "string \<times> string \<Rightarrow> json \<Rightarrow> (string \<times> string \<times> json) list" where
  "tool_defaults route tool =
     List.map_filter (\<lambda>p. map_option (\<lambda>v. (snd route, fst p, v)) (json_get ''default'' (snd p)))
       (properties_of (input_schema tool))"

definition schema_defaults :: "(string \<times> string \<times> json) list" where
  "schema_defaults = concat (map2 tool_defaults tool_routes tool_definitions)"

lemma schema_defaults_list:
  "schema_defaults =
     [(FS_READ, ''offset'', JNumber (PosInt 0)), (FS_READ, ''binary'', JBool False),
      (FS_READ, ''strip_noise'', JBool False), (FS_SCAN, ''compact'', JBool False),
      (GIT_STATUS, ''compact'', JBool False), (GIT_LOG, ''max_count'', JNumber (PosInt 50)),
      (GIT_HISTORY, ''max_count'', JNumber (PosInt 50)), (SEARCH_GREP, ''max_results'', JNumber (PosInt 200)),
      (SEARCH_GREP, ''case_insensitive'', JBool False), (SEARCH_GREP, ''compact'', JBool False),
      (SEARCH_GREP, ''context'', JNumber (PosInt 0)), (CODE_OUTLINE, ''signatures_only'', JBool False),
      (CODE_DEPENDENCIES, ''max_files'', JNumber (PosInt 4096)),
      (CODE_FIND_OCCURRENCES, ''max_results'', JNumber (PosInt 200)),
      (TOOL_RUN, ''args'', JArray []), (TOOL_RUN, ''env'', JArray []),
      (TOOL_RUN, ''max_output_bytes'', JNumber (PosInt 65536)), (TOOL_RUN, ''cache'', JBool False),
      (TOOL_SPAWN, ''args'', JArray []), (TOOL_SPAWN, ''env'', JArray []),
      (TOOL_READ_LOGS, ''offset'', JNumber (PosInt 0))]"
proof -
  have none: "tool_defaults r fs_read_batch_tool = []" "tool_defaults r fs_apply_patch_tool = []"
    "tool_defaults r fs_replace_all_tool = []" "tool_defaults r fs_snapshot_tool = []"
    "tool_defaults r fs_changes_tool = []" "tool_defaults r git_diff_tool = []" "tool_defaults r git_blame_tool = []"
    "tool_defaults r code_outline_batch_tool = []" "tool_defaults r code_symbols_tool = []"
    "tool_defaults r code_symbols_batch_tool = []" "tool_defaults r code_imports_tool = []"
    "tool_defaults r fs_read_skeleton_tool = []" "tool_defaults r tool_gh_tool = []"
    "tool_defaults r tool_kill_tool = []" "tool_defaults r metrics_gain_tool = []"
    "tool_defaults r metrics_tool_latency_tool = []" "tool_defaults r pipe_tool = []" for r
    unfolding tool_defs
    by (simp_all add: tool_defaults_def input_schema_def properties_of_def json_get_def map_filter_simps)
  show ?thesis
    unfolding schema_defaults_def tool_routes_def tool_definitions_def
    by (simp add: none)
      (simp add: tool_defaults_def input_schema_def properties_of_def json_get_def map_filter_simps tool_defs)
qed

subsection \<open>A field that is given its default\<close>

lemma map_of_snoc: "k \<notin> fst ` set kvs \<Longrightarrow> [k \<mapsto> v] ++ map_of kvs = (map_of kvs)(k \<mapsto> v)"
  using map_of_eq_None_iff [of kvs k] by (auto simp: map_add_def fun_eq_iff split: option.split)

lemma json_value_snoc:
  "json_value (JObject kvs) \<Longrightarrow> json_value v \<Longrightarrow> k \<notin> fst ` set kvs \<Longrightarrow> json_value (JObject (kvs @ [(k, v)]))"
  by (simp add: json_value_def)

lemma fits_snoc:
  "fits (TStruct fs) (JObject kvs) \<Longrightarrow> k \<notin> fst ` set kvs \<Longrightarrow>
     list_all (\<lambda>f. fst f = k \<longrightarrow> fits (snd (snd f)) v) fs \<Longrightarrow> fits (TStruct fs) (JObject (kvs @ [(k, v)]))"
  by (simp add: map_of_snoc list_all_iff)

lemma json_handler_default:
  assumes "derives fs mk dec" "json_value (JObject kvs)" "fits (TStruct fs) (JObject kvs)" "k \<notin> fst ` set kvs"
    and "json_value v" "list_all (\<lambda>f. fst f = k \<longrightarrow> fits (snd (snd f)) v) fs"
    and "fst (h (mk (kvs @ [(k, v)])) d) = fst (h (mk kvs) d)"
  shows "fst (json_handler dec enc h (JObject (kvs @ [(k, v)])) d) = fst (json_handler dec enc h (JObject kvs) d)"
proof -
  from assms(1) have d: "derived_decoder fs mk dec" by (simp only: derives_iff)
  have a: "dec (JObject kvs) = Ok (mk kvs)" by (rule derived_decoder.accepts [OF d assms(2,3)])
  have b: "dec (JObject (kvs @ [(k, v)])) = Ok (mk (kvs @ [(k, v)]))"
    by (rule derived_decoder.accepts [OF d json_value_snoc [OF assms(2,5,4)] fits_snoc [OF assms(3,4,6)]])
  obtain r s t where "h (mk (kvs @ [(k, v)])) d = (r, s)" "h (mk kvs) d = (r, t)"
    using assms(7) by (metis fst_conv prod.exhaust)
  then show ?thesis by (cases r) (simp_all add: json_handler_def map_err_def a b)
qed

lemmas default_simps = field_readers map_of_snoc map_of_eq_None_iff

lemma table_handlers:
  "dispatch_method sv de en FS_READ = fs_read sv de en"
  "dispatch_method sv de en FS_SCAN =
     json_handler (dec_fs_scan de) (enc_fs_scan en)
       (read_fs (\<lambda>p st. fs_scan (sv_os sv) (sv_rg sv) (st_files st) p (st_root st) (st_changelog st)))"
  "dispatch_method sv de en GIT_STATUS =
     json_handler (dec_git_status de) (enc_git_status en) (on_git (git_status (sv_os sv)) sv)"
  "dispatch_method sv de en GIT_LOG =
     json_handler (dec_git_log de) (enc_git_log en) (on_git (git_log (sv_os sv)) sv)"
  "dispatch_method sv de en GIT_HISTORY =
     json_handler (dec_git_history de) (enc_git_history en) (on_git (git_history (sv_os sv)) sv)"
  "dispatch_method sv de en SEARCH_GREP =
     json_handler (dec_search_grep de) (enc_search_grep en)
       (on_search (search_grep (sv_os sv) (sv_rg sv) (sv_search_size sv)))"
  "dispatch_method sv de en CODE_OUTLINE = code_outline sv de en"
  "dispatch_method sv de en CODE_DEPENDENCIES =
     json_handler (dec_code_dependencies de) (enc_code_dependencies en)
       (read_fs (\<lambda>p st. code_dependencies (sv_os sv) (sv_exists sv (st_files st))
                          (sv_walk sv (st_files st) (st_root st)) p st))"
  "dispatch_method sv de en CODE_FIND_OCCURRENCES =
     json_handler (dec_code_find_occurrences de) (enc_code_find_occurrences en)
       (on_code (\<lambda>st. code_find_occurrences (sv_os sv) (st_root st) (sv_sx sv) (view_of (st_files st))
                        (sv_walk sv (st_files st) (st_root st))))"
  "dispatch_method sv de en TOOL_RUN =
     json_handler (dec_tool_run de) (enc_tool_run en) (on_tools (tool_run (sv_os sv) (sv_render sv) (sv_exec sv)))"
  "dispatch_method sv de en TOOL_SPAWN =
     json_handler (dec_tool_spawn de) (enc_tool_spawn en)
       (on_jobs (\<lambda>root. tool_spawn (sv_os sv) root (sv_spawn sv)))"
  "dispatch_method sv de en TOOL_READ_LOGS =
     json_handler (dec_tool_read_logs de) (enc_tool_read_logs en) (on_jobs (\<lambda>_. tool_read_logs))"
  by (simp_all add: dispatch_method_def method_neqs Let_def fun_eq_iff)

text \<open>The handlers that fill in a default: the answer is the one for the default given.\<close>

lemma git_log_default:
  "glp_max_count p = Some 50 \<Longrightarrow> git_log os lg root p m = git_log os lg root (p\<lparr>glp_max_count := None\<rparr>) m"
  by (simp add: git_log_def or_default_def GIT_LOG_DEFAULT_def)

lemma git_history_default:
  "ghp_max_count p = Some 50 \<Longrightarrow> git_history os lg root p m = git_history os lg root (p\<lparr>ghp_max_count := None\<rparr>) m"
  by (simp add: git_history_def git_log_default)

lemma code_dependencies_default:
  "cdp_max_files p = Some 4096 \<Longrightarrow>
     code_dependencies os ex walk p st = code_dependencies os ex walk (p\<lparr>cdp_max_files := None\<rparr>) st"
  by (simp add: code_dependencies_def SOURCE_FILES_MAX_def)

lemma code_find_occurrences_default:
  "cfop_max_results p = Some 200 \<Longrightarrow>
     code_find_occurrences os root sx fs walk p g =
     code_find_occurrences os root sx fs walk (p\<lparr>cfop_max_results := None\<rparr>) g"
  by (simp add: code_find_occurrences_def OCCURRENCES_DEFAULT_def)

lemma search_tree_default:
  "sgp_max_results p = Some 200 \<Longrightarrow>
     search_tree rg tree root sr p = search_tree rg tree root sr (p\<lparr>sgp_max_results := None\<rparr>)"
  by (simp add: search_tree_def unwrap_or_def SEARCH_DEFAULT_LIMIT_def)

lemma search_grep_default:
  assumes "sgp_max_results p = Some 200" "sc_capacity (ss_cache st) = 0"
  shows "fst (search_grep os rg sz tree p st) = fst (search_grep os rg sz tree (p\<lparr>sgp_max_results := None\<rparr>) st)"
  using assms
  by (simp add: search_grep_def search_cache_get_def search_tree_default Let_def split: option.split res.split prod.split)

lemma run_result_default:
  "trp_max_output_bytes p = Some 65536 \<Longrightarrow>
     run_result p cwd out = run_result (p\<lparr>trp_max_output_bytes := None\<rparr>) cwd out"
  by (simp add: run_result_def TOOL_RUN_DEFAULT_OUTPUT_LIMIT_def)

lemma tool_run_default:
  assumes "trp_max_output_bytes p = Some 65536" "ts_tool_run_cache st = Map.empty"
  shows "fst (tool_run os rd exec p (st, w)) = fst (tool_run os rd exec (p\<lparr>trp_max_output_bytes := None\<rparr>) (st, w))"
  using assms
  by (simp add: tool_run_def tool_run_inner_def run_cache_get_def run_result_default Let_def
      split: option.split res.split prod.split)

subsection \<open>Row by row\<close>

definition fresh_caches :: "('t, 'w) Daemon \<Rightarrow> bool" where
  "fresh_caches d \<longleftrightarrow> sc_capacity (dm_search_cache d) = 0 \<and> dm_tool_run_cache d = Map.empty"

lemma handlers_default:
  "glp_max_count p1 = Some 50 \<Longrightarrow> on_git (git_log os) sv p1 d = on_git (git_log os) sv (p1\<lparr>glp_max_count := None\<rparr>) d"
  "ghp_max_count p2 = Some 50 \<Longrightarrow>
     on_git (git_history os) sv p2 d = on_git (git_history os) sv (p2\<lparr>ghp_max_count := None\<rparr>) d"
  "fresh_caches d \<Longrightarrow> sgp_max_results p3 = Some 200 \<Longrightarrow>
     fst (on_search (search_grep os rg sz) p3 d) =
     fst (on_search (search_grep os rg sz) (p3\<lparr>sgp_max_results := None\<rparr>) d)"
  "fresh_caches d \<Longrightarrow> trp_max_output_bytes p4 = Some 65536 \<Longrightarrow>
     fst (on_tools (tool_run os rd exec) p4 d) =
     fst (on_tools (tool_run os rd exec) (p4\<lparr>trp_max_output_bytes := None\<rparr>) d)"
  by (simp_all add: on_git_def on_search_def on_tools_def git_log_default git_history_default fresh_caches_def
      search_grep_default tool_run_default split_beta)

lemmas params_of_defs = FsReadParams_of_def FsScanParams_of_def GitStatusParams_of_def GitLogParams_of_def
  GitHistoryParams_of_def SearchGrepParams_of_def CodeOutlineParams_of_def CodeDependenciesParams_of_def
  CodeFindOccurrencesParams_of_def ToolRunParams_of_def ToolSpawnParams_of_def ToolReadLogsParams_of_def

lemma method_fields:
  "map_of method_params FS_READ = Some FsReadParams_fields"
  "map_of method_params FS_SCAN = Some FsScanParams_fields"
  "map_of method_params GIT_STATUS = Some GitStatusParams_fields"
  "map_of method_params GIT_LOG = Some GitLogParams_fields"
  "map_of method_params GIT_HISTORY = Some GitHistoryParams_fields"
  "map_of method_params SEARCH_GREP = Some SearchGrepParams_fields"
  "map_of method_params CODE_OUTLINE = Some CodeOutlineParams_fields"
  "map_of method_params CODE_DEPENDENCIES = Some CodeDependenciesParams_fields"
  "map_of method_params CODE_FIND_OCCURRENCES = Some CodeFindOccurrencesParams_fields"
  "map_of method_params TOOL_RUN = Some ToolRunParams_fields"
  "map_of method_params TOOL_SPAWN = Some ToolSpawnParams_fields"
  "map_of method_params TOOL_READ_LOGS = Some ToolReadLogsParams_fields"
  by (simp_all add: method_params_def method_neqs)

lemmas table_json = table_handlers [unfolded fs_read_def code_outline_def]

text \<open>The arguments a method accepts, and that giving a property its announced default cannot be told
  from leaving it out.\<close>

definition takes :: "string \<Rightarrow> json \<Rightarrow> bool" where
  "takes m j \<longleftrightarrow> (case map_of method_params m of Some fs \<Rightarrow> fits (TStruct fs) j | None \<Rightarrow> False)"

definition unobservable ::
  "('t, 'w) Services \<Rightarrow> Decoders \<Rightarrow> Encoders \<Rightarrow> ('t, 'w) Daemon \<Rightarrow> string \<times> string \<times> json \<Rightarrow> bool" where
  "unobservable sv de en d row \<longleftrightarrow>
     (case row of (m, k, v) \<Rightarrow>
        \<forall>kvs. json_value (JObject kvs) \<longrightarrow> takes m (JObject kvs) \<longrightarrow> k \<notin> fst ` set kvs \<longrightarrow>
          fst (dispatch_method sv de en m (JObject (kvs @ [(k, v)])) d) =
          fst (dispatch_method sv de en m (JObject kvs) d))"

lemma unobservableI:
  assumes "dispatch_method sv de en m = json_handler dec enc h" "map_of method_params m = Some fs"
    and "derives fs mk dec" "json_value v" "list_all (\<lambda>f. fst f = k \<longrightarrow> fits (snd (snd f)) v) fs"
    and "\<And>kvs. map_of kvs k = None \<Longrightarrow> [k \<mapsto> v] ++ map_of kvs = (map_of kvs)(k \<mapsto> v) \<Longrightarrow>
      fst (h (mk (kvs @ [(k, v)])) d) = fst (h (mk kvs) d)"
  shows "unobservable sv de en d (m, k, v)"
proof -
  have "fst (json_handler dec enc h (JObject (kvs @ [(k, v)])) d) = fst (json_handler dec enc h (JObject kvs) d)"
    if j: "json_value (JObject kvs)" "fits (TStruct fs) (JObject kvs)" and k: "k \<notin> fst ` set kvs" for kvs
  proof (rule json_handler_default [where mk = mk])
    show "fst (h (mk (kvs @ [(k, v)])) d) = fst (h (mk kvs) d)"
      using k map_of_snoc [OF k] by (intro assms(6)) (simp_all add: map_of_eq_None_iff)
  qed (fact assms(3) j k assms(4,5))+
  then show ?thesis using assms(1,2) by (simp add: unobservable_def takes_def)
qed

lemma serde_derivesD:
  assumes "serde_derives de"
  shows "derives FsReadParams_fields FsReadParams_of (dec_fs_read de)"
    "derives FsScanParams_fields FsScanParams_of (dec_fs_scan de)"
    "derives GitStatusParams_fields GitStatusParams_of (dec_git_status de)"
    "derives GitLogParams_fields GitLogParams_of (dec_git_log de)"
    "derives GitHistoryParams_fields GitHistoryParams_of (dec_git_history de)"
    "derives SearchGrepParams_fields SearchGrepParams_of (dec_search_grep de)"
    "derives CodeOutlineParams_fields CodeOutlineParams_of (dec_code_outline de)"
    "derives CodeDependenciesParams_fields CodeDependenciesParams_of (dec_code_dependencies de)"
    "derives CodeFindOccurrencesParams_fields CodeFindOccurrencesParams_of (dec_code_find_occurrences de)"
    "derives ToolRunParams_fields ToolRunParams_of (dec_tool_run de)"
    "derives ToolSpawnParams_fields ToolSpawnParams_of (dec_tool_spawn de)"
    "derives ToolReadLogsParams_fields ToolReadLogsParams_of (dec_tool_read_logs de)"
  using assms unfolding serde_derives_def by simp_all

lemmas row_simps = json_value_def field_defs handlers_default params_of_defs field_readers read_fs_def on_code_def
  code_dependencies_default code_find_occurrences_default

lemma defaults_unobservable:
  assumes "serde_derives de" "fresh_caches d"
  shows "list_all (unobservable sv de en d) schema_defaults"
  unfolding schema_defaults_list list.pred_inject
  by (intro conjI TrueI list.pred_inject(1);
      rule unobservableI, rule table_json, rule method_fields, rule serde_derivesD [OF assms(1)];
      simp add: row_simps assms(2))

subsection \<open>Properties\<close>



end
