(* ===== verification/Write_Race.thy ===== *)
theory Write_Race
  imports Files
begin

text \<open>
  Writers at the same time. The daemon serves every connection in a task of its own on a
  multi-threaded runtime, and \<open>fs_apply_patch\<close> of \<^verbatim>\<open>src/crates/daemon/src/handlers.rs\<close> holds no lock from its
  check of the expected version to the recording of the change. This theory cuts the handler into
  the steps between which other tasks can run, shows that an undisturbed call is the handler of
  \<open>Files\<close>, that every schedule of any number of writers gives each recorded write a version of its
  own, and that the check does not protect two writers that overlap.
\<close>

subsection \<open>The steps of a call\<close>

text \<open>Where a call is: after the check of the preconditions, with the patched text computed, with the
  file written, with the change recorded, and answered.\<close>

datatype patch_call =
    Called
  | Checked path
  | Computed path string
  | Written path
  | Recorded path
  | Answered "FsApplyPatchResult rpc"

definition patch_checks :: "Os \<Rightarrow> FsApplyPatchParams \<Rightarrow> FsState \<Rightarrow> path rpc" where
  "patch_checks os params st =
     res_bind (resolve_within os (st_root st) (fapp_path params)) (\<lambda>path.
     res_bind (check_write_preconditions path (fapp_expected_version params)
                 (fapp_expected_mtime_ns params) st) (\<lambda>_. Ok path))"

definition patch_text :: "path \<Rightarrow> FsApplyPatchParams \<Rightarrow> FsState \<Rightarrow> string rpc" where
  "patch_text path params st =
     res_bind (map_err (-32080) ''read: '' (fs_read_to_string path st)) (\<lambda>content.
       apply_unified_patch content (fapp_patch params))"

definition patch_answer :: "path \<Rightarrow> FsApplyPatchParams \<Rightarrow> FsState \<Rightarrow> FsApplyPatchResult rpc" where
  "patch_answer path params st =
     res_bind (map_err (-32011) ''stat: '' (fs_metadata path st)) (\<lambda>metadata.
       Ok \<lparr>fapr_path = fapp_path params, fapr_applied = True,
           fapr_version = fst (changelog_snapshot (st_changelog st)),
           fapr_mtime_ns = metadata_mtime_ns metadata\<rparr>)"

definition go_on :: "'a rpc \<Rightarrow> ('a \<Rightarrow> patch_call) \<Rightarrow> patch_call" where
  "go_on r next = (case r of Ok a \<Rightarrow> next a | Err e \<Rightarrow> Answered (Err e) | Panic m \<Rightarrow> Answered (Panic m))"

fun patch_step :: "Os \<Rightarrow> FsApplyPatchParams \<Rightarrow> patch_call \<Rightarrow> FsState \<Rightarrow> patch_call \<times> FsState" where
  "patch_step os params Called st = (go_on (patch_checks os params st) Checked, st)"
| "patch_step os params (Checked path) st = (go_on (patch_text path params st) (Computed path), st)"
| "patch_step os params (Computed path patched) st =
     (case write_file_checked path patched st of (r, st') \<Rightarrow> (go_on r (\<lambda>_. Written path), st'))"
| "patch_step os params (Written path) st = (Recorded path, record_daemon_write path st)"
| "patch_step os params (Recorded path) st = (Answered (patch_answer path params st), st)"
| "patch_step os params (Answered r) st = (Answered r, st)"

fun patch_steps :: "Os \<Rightarrow> FsApplyPatchParams \<Rightarrow> nat \<Rightarrow> patch_call \<times> FsState \<Rightarrow> patch_call \<times> FsState" where
  "patch_steps os params 0 cs = cs"
| "patch_steps os params (Suc n) cs =
     (case cs of (c, st) \<Rightarrow> patch_steps os params n (patch_step os params c st))"

subsection \<open>Schedules of writers\<close>

text \<open>Each entry of a schedule lets one writer take its next step.\<close>

type_synonym writers = "(FsApplyPatchParams \<times> patch_call) list"

definition writer_step :: "Os \<Rightarrow> nat \<Rightarrow> writers \<times> FsState \<Rightarrow> writers \<times> FsState" where
  "writer_step os i ws_st =
     (case ws_st of (ws, st) \<Rightarrow>
        if i < length ws
        then (case patch_step os (fst (ws ! i)) (snd (ws ! i)) st of
                (c, st') \<Rightarrow> (ws[i := (fst (ws ! i), c)], st'))
        else (ws, st))"

definition run_writers :: "Os \<Rightarrow> nat list \<Rightarrow> writers \<times> FsState \<Rightarrow> writers \<times> FsState" where
  "run_writers os sched ws_st = fold (writer_step os) sched ws_st"

abbreviation calls :: "FsApplyPatchParams list \<Rightarrow> writers" where
  "calls ps \<equiv> map (\<lambda>p. (p, Called)) ps"

subsection \<open>Lemmas\<close>

lemma res_bind_assoc: "res_bind (res_bind r f) g = res_bind r (\<lambda>a. res_bind (f a) g)"
  by (cases r) simp_all

lemma patch_plan_steps:
  "patch_plan os params st = res_bind (patch_checks os params st) (\<lambda>path.
     res_bind (patch_text path params st) (\<lambda>patched. Ok (path, patched)))"
  by (cases "resolve_within os (st_root st) (fapp_path params)")
    (simp_all add: patch_plan_def patch_checks_def patch_text_def res_bind_assoc)

lemma go_on_simps [simp]:
  "go_on (Ok a) next = next a" "go_on (Err e) next = Answered (Err e)" "go_on (Panic m) next = Answered (Panic m)"
  by (simp_all add: go_on_def)

lemma answered_steps: "patch_steps os params n (Answered r, st) = (Answered r, st)"
  by (induction n) simp_all

text \<open>A call whose steps are not interrupted is the handler.\<close>

lemma patch_steps_handler:
  "patch_steps os params 5 (Called, st) =
     (Answered (fst (fs_apply_patch os params st)), snd (fs_apply_patch os params st))"
proof (cases "patch_checks os params st")
  case (Ok path)
  show ?thesis
  proof (cases "patch_text path params st")
    case patched: (Ok patched)
    obtain r st1 where w: "write_file_checked path patched st = (r, st1)" by (rule prod.exhaust)
    show ?thesis
    proof (cases r)
      case written: (Ok u)
      let ?st2 = "record_daemon_write path st1"
      show ?thesis
        by (cases "fs_metadata path ?st2")
          (simp_all add: map_err_def eval_nat_numeral fs_apply_patch_def patch_plan_steps Ok patched w written commit_write_def
            patch_answer_def)
    qed (simp_all add: eval_nat_numeral fs_apply_patch_def patch_plan_steps Ok patched w commit_write_def
        answered_steps)
  qed (simp_all add: eval_nat_numeral fs_apply_patch_def patch_plan_steps Ok answered_steps)
qed (simp_all add: eval_nat_numeral fs_apply_patch_def patch_plan_steps answered_steps)

text \<open>Under every schedule the versions used lie between the writers that have succeeded and the writers
  that are past the recording or have failed.\<close>

fun succeeded :: "patch_call \<Rightarrow> nat" where
  "succeeded (Recorded path) = 1"
| "succeeded (Answered (Ok r)) = 1"
| "succeeded c = 0"

fun finished :: "patch_call \<Rightarrow> nat" where
  "finished (Recorded path) = 1"
| "finished (Answered r) = 1"
| "finished c = 0"

definition tally :: "(patch_call \<Rightarrow> nat) \<Rightarrow> writers \<Rightarrow> nat" where
  "tally f ws = sum_list (map (\<lambda>w. f (snd w)) ws)"

lemma tally_update:
  assumes "i < length ws"
  shows "tally f (ws[i := (p, c)]) + f (snd (ws ! i)) = tally f ws + f c"
  using assms by (induction ws arbitrary: i) (auto simp: tally_def split: nat.splits)

lemma tally_finished: "tally finished ws \<le> length ws"
proof (induction ws)
  case (Cons w ws)
  then show ?case by (cases "snd w") (simp_all add: tally_def)
qed (simp add: tally_def)

lemma finished_room:
  assumes "i < length ws" "finished (snd (ws ! i)) = 0"
  shows "tally finished ws < length ws"
  using tally_update [OF assms(1), of finished undefined "Answered (Panic [])"] assms(2)
    tally_finished [of "ws[i := (undefined, Answered (Panic []))]"] by simp

text \<open>Every step but the recording leaves the log alone and makes no writer succeed.\<close>

lemma patch_step_log:
  assumes "patch_step os params c st = (c', st')"
  shows "(st_changelog st' = st_changelog st \<and> succeeded c' \<le> succeeded c \<and> finished c \<le> finished c') \<or>
    (\<exists>q k. st_changelog st' = changelog_record q k (st_changelog st) \<and> finished c = 0 \<and> succeeded c = 0 \<and>
       succeeded c' = 1 \<and> finished c' = 1)"
proof (cases c)
  case (Computed path patched)
  obtain r st1 where w: "write_file_checked path patched st = (r, st1)" by (rule prod.exhaust)
  then show ?thesis
    using assms Computed write_file_checked_frame [OF w] by (cases r) auto
next
  case Called
  then show ?thesis using assms by (cases "patch_checks os params st") auto
next
  case (Checked path)
  then show ?thesis using assms by (cases "patch_text path params st") auto
next
  case (Recorded path)
  then show ?thesis using assms by (cases "patch_answer path params st") auto
next
  case (Written path)
  then have "st_changelog st' = changelog_record (relative_str (st_root st) path) Modified (st_changelog st)"
    "c' = Recorded path" using assms by (auto simp: record_daemon_write_def)
  then show ?thesis using Written by (intro disjI2 exI conjI) simp_all
qed (use assms in auto)

definition versions_ok :: "nat \<Rightarrow> writers \<times> FsState \<Rightarrow> bool" where
  "versions_ok v ws_st \<longleftrightarrow>
     v + tally succeeded (fst ws_st) \<le> cl_version (st_changelog (snd ws_st)) \<and>
     cl_version (st_changelog (snd ws_st)) \<le> v + tally finished (fst ws_st)"

lemma writer_step_versions:
  assumes "versions_ok v (ws, st)" "v + length ws < 2 ^ 64"
  shows "versions_ok v (writer_step os i (ws, st)) \<and> length (fst (writer_step os i (ws, st))) = length ws"
proof (cases "i < length ws")
  case True
  obtain c st' where step: "patch_step os (fst (ws ! i)) (snd (ws ! i)) st = (c, st')" by (rule prod.exhaust)
  note s = tally_update [OF True, of succeeded "fst (ws ! i)" c]
    and f = tally_update [OF True, of finished "fst (ws ! i)" c]
  have "versions_ok v (ws[i := (fst (ws ! i), c)], st')"
    using patch_step_log [OF step]
  proof (elim disjE exE conjE)
    assume "st_changelog st' = st_changelog st" "succeeded c \<le> succeeded (snd (ws ! i))"
      "finished (snd (ws ! i)) \<le> finished c"
    then show ?thesis using assms(1) s f unfolding versions_ok_def fst_conv snd_conv by auto
  next
    fix q k
    assume log: "st_changelog st' = changelog_record q k (st_changelog st)" and "finished (snd (ws ! i)) = 0"
      "succeeded (snd (ws ! i)) = 0" "succeeded c = 1" "finished c = 1"
    moreover from this have "cl_version (st_changelog st') = Suc (cl_version (st_changelog st))"
      using finished_room [OF True] assms unfolding versions_ok_def
      by (simp add: cl_version_record)
    ultimately show ?thesis using assms(1) s f unfolding versions_ok_def fst_conv snd_conv by auto
  qed
  then show ?thesis using True step by (simp add: writer_step_def)
qed (use assms in \<open>simp add: writer_step_def\<close>)

lemma tally_calls: "tally succeeded (calls ps) = 0" "tally finished (calls ps) = 0"
  by (induction ps) (simp_all add: tally_def)

lemma run_writers_versions:
  assumes "versions_ok v ws_st" "v + length (fst ws_st) < 2 ^ 64"
  shows "versions_ok v (run_writers os sched ws_st)"
  using assms unfolding run_writers_def
proof (induction sched arbitrary: ws_st)
  case (Cons i sched)
  have "versions_ok v (writer_step os i ws_st)" "v + length (fst (writer_step os i ws_st)) < 2 ^ 64"
    using writer_step_versions [of v "fst ws_st" "snd ws_st" os i] Cons.prems by simp_all
  then show ?case using Cons.IH by simp
qed simp

lemma check_keeps_plan:
  assumes "patch_plan os params st = Ok (path, patched)"
  shows "patch_checks os params st = Ok path" "patch_text path params st = Ok patched"
  using assms by (auto simp: patch_plan_steps res_simps)

lemma write_file_checked_plain:
  assumes "st_files st path = Some f" "fl_write_fault f = None"
  shows "write_file_checked path patched st =
    (Ok (), st\<lparr>st_files := (st_files st)(path \<mapsto> f\<lparr>fl_bytes := patched, fl_mtime := st_now st\<rparr>)\<rparr>)"
  using assms by (simp add: write_file_checked_def fs_write_def map_err_def)

text \<open>Two patches of the same file at the same version: one adds the line \<open>b\<close>, the other the line \<open>c\<close>.\<close>

definition rival_patch :: FsApplyPatchParams where
  "rival_patch = (demo_patch ''a'' (Some 0))\<lparr>fapp_patch := hunk_header 1 1 1 2 @ '' a'' @ [nl] @ ''+c'' @ [nl]\<rparr>"

lemma rival_apply:
  "apply_unified_patch (''a'' @ [nl]) (hunk_header 1 1 1 2 @ '' a'' @ [nl] @ ''+c'' @ [nl]) =
     Ok (''a'' @ [nl] @ ''c'' @ [nl])"
  by (rule apply_one_hunk)
    (simp_all add: classify_def starts_with_def is_char_boundary_def is_cont_def byte_def usize_max_def)

lemma demo_plans:
  "patch_plan demo_os (demo_patch ''a'' (Some 0)) demo_state = Ok ([''r'', ''a''], ''a'' @ [nl] @ ''b'' @ [nl])"
  "patch_plan demo_os rival_patch demo_state = Ok ([''r'', ''a''], ''a'' @ [nl] @ ''c'' @ [nl])"
  using demo_resolve demo_valid demo_apply rival_apply
  by (simp_all add: patch_plan_def demo_patch_def rival_patch_def demo_state_def check_write_preconditions_def
      changelog_snapshot_def changelog_with_capacity_def fs_read_to_string_def fs_open_def demo_file_def map_err_def)

subsection \<open>Properties\<close>

text \<open>C3. The version check does not protect writers that overlap. Under every schedule of any number of
  calls of \<open>fs.apply_patch\<close> every call that succeeds has used up a version of its own; but whenever
  two patches apply to the same file, each with the current version as its expected one, a
  schedule of their steps answers both with success and leaves the file with the second patch
  applied to the old text: the first one's change is lost.\<close>

theorem overlapping_writers_lose_update:
  assumes "patch_plan os p st = Ok (path, b)" "patch_plan os q st = Ok (path, b')"
    and "st_files st path = Some f" "fl_write_fault f = None" "fl_stat_fault f = None"
  shows "\<exists>sched r r' st'.
     run_writers os sched (calls [p, q], st) = ([(p, Answered (Ok r)), (q, Answered (Ok r'))], st') \<and>
     st_files st' path = Some (f\<lparr>fl_bytes := b', fl_mtime := st_now st\<rparr>) \<and>
     (\<forall>ps sched ws st''. run_writers os sched (calls ps, st) = (ws, st'') \<longrightarrow>
        cl_version (st_changelog st) + length ps < 2 ^ 64 \<longrightarrow>
        cl_version (st_changelog st) + tally succeeded ws \<le> cl_version (st_changelog st''))"
proof -
  let ?put = "\<lambda>text st. st\<lparr>st_files := (st_files st)(path \<mapsto> f\<lparr>fl_bytes := text, fl_mtime := st_now st\<rparr>)\<rparr>"
  let ?st' = "record_daemon_write path (record_daemon_write path (?put b' (?put b st)))"
  let ?answer = "\<lambda>p. \<lparr>fapr_path = fapp_path p, fapr_applied = True,
     fapr_version = fst (changelog_snapshot (st_changelog ?st')),
     fapr_mtime_ns = metadata_mtime_ns (f\<lparr>fl_bytes := b', fl_mtime := st_now st\<rparr>)\<rparr>"
  note w1 = write_file_checked_plain [OF assms(3,4), of b]
  have w2: "write_file_checked path b' (?put b st) = (Ok (), ?put b' (?put b st))"
    using assms(4) by (simp add: write_file_checked_plain)
  have "fs_metadata path ?st' = Ok (f\<lparr>fl_bytes := b', fl_mtime := st_now st\<rparr>)"
    using assms(5) by (simp add: fs_metadata_def record_daemon_write_def)
  then have ans: "patch_answer path params ?st' = Ok (?answer params)" for params
    by (simp add: patch_answer_def map_err_def)
  have "run_writers os [0, 1, 0, 1, 0, 1, 0, 1, 0, 1] (calls [p, q], st) =
      ([(p, Answered (Ok (?answer p))), (q, Answered (Ok (?answer q)))], ?st')"
    using check_keeps_plan [OF assms(1)] check_keeps_plan [OF assms(2)] w1 w2 ans
    by (simp add: run_writers_def writer_step_def)
  moreover have "st_files ?st' path = Some (f\<lparr>fl_bytes := b', fl_mtime := st_now st\<rparr>)"
    by (simp add: record_daemon_write_def)
  moreover have "cl_version (st_changelog st) + tally succeeded ws \<le> cl_version (st_changelog st'')"
    if "run_writers os sched (calls ps, st) = (ws, st'')" "cl_version (st_changelog st) + length ps < 2 ^ 64"
    for ps sched ws st''
    using run_writers_versions [of "cl_version (st_changelog st)" "(calls ps, st)" os sched] that
    by (simp add: versions_ok_def tally_calls)
  ultimately show ?thesis by blast
qed

theorem overlapping_writers_lose_update_witness:
  "\<exists>sched r r' st'.
     run_writers demo_os sched (calls [demo_patch ''a'' (Some 0), rival_patch], demo_state) =
       ([(demo_patch ''a'' (Some 0), Answered (Ok r)), (rival_patch, Answered (Ok r'))], st') \<and>
     map_option fl_bytes (st_files st' [''r'', ''a'']) = Some (''a'' @ [nl] @ ''c'' @ [nl])"
proof -
  have f: "st_files demo_state [''r'', ''a''] = Some demo_file" "fl_write_fault demo_file = None"
    "fl_stat_fault demo_file = None" by (simp_all add: demo_state_def demo_file_def)
  from overlapping_writers_lose_update [OF demo_plans f] show ?thesis by force
qed

end
