(* ===== verification/Daemon_Watch.thy ===== *)
theory Daemon_Watch
  imports Daemon_Run Watcher
begin

text \<open>
  The daemon and its watcher together. \<^verbatim>\<open>src/crates/daemon/src/watcher.rs\<close> \<open>spawn\<close> hands the
  change log and the parse cache the daemon serves from to a callback, which handles each notify
  event on its own thread. \<open>system_run\<close> interleaves the callback with everything else that
  happens to the daemon. Such a run is a run of \<open>Daemon_Run\<close> whose \<open>Watched\<close> events the callback
  makes (\<open>system_run_daemon\<close>), so the invariant of the daemon holds with the watcher running; and
  the filter of the callback answers for the rules on the disk (\<open>system_run_coherent\<close>).
\<close>

subsection \<open>The callback\<close>

text \<open>What the callback sees of the daemon, and the daemon after it.\<close>

definition watch_view :: "'g Filter \<Rightarrow> ('t, 'w) Daemon \<Rightarrow> ('g, 't) watch_state" where
  "watch_view f d = \<lparr>wt_filter = f, wt_log = log_of d, wt_parse_cache = dm_parse_cache d\<rparr>"

definition watch_back :: "('g, 't) watch_state \<Rightarrow> ('t, 'w) Daemon \<Rightarrow> ('t, 'w) Daemon" where
  "watch_back w d =
     d\<lparr>dm_parse_cache := wt_parse_cache w, dm_fs := (dm_fs d)\<lparr>st_changelog := wt_log w\<rparr>\<rparr>"

definition watch_callback ::
  "('d, 'g) Gitignores \<Rightarrow> 'd \<Rightarrow> (notify_event, string) res \<Rightarrow> 'g Filter \<times> ('t, 'w) Daemon \<Rightarrow>
     'g Filter \<times> ('t, 'w) Daemon" where
  "watch_callback gi disk res fd =
     (case res of
        Ok event \<Rightarrow>
          (let w = handle_event gi disk event (watch_view (fst fd) (snd fd))
           in (wt_filter w, watch_back w (snd fd)))
      | _ \<Rightarrow> fd)"

subsection \<open>The daemon with its watcher\<close>

text \<open>A notification comes with the disk at the time it is handled.\<close>

datatype ('d, 'w) system_event =
  Served "'w daemon_event"
| Notified 'd "(notify_event, string) res"

fun system_step ::
  "('t, 'w) Services \<Rightarrow> Decoders \<Rightarrow> Encoders \<Rightarrow> ('d, 'g) Gitignores \<Rightarrow> ('d, 'w) system_event \<Rightarrow>
     'g Filter \<times> ('t, 'w) Daemon \<Rightarrow> 'g Filter \<times> ('t, 'w) Daemon" where
  "system_step sv de en gi (Served ev) (f, d) = (f, daemon_step sv de en ev d)"
| "system_step sv de en gi (Notified disk res) (f, d) = watch_callback gi disk res (f, d)"

definition system_run ::
  "('t, 'w) Services \<Rightarrow> Decoders \<Rightarrow> Encoders \<Rightarrow> ('d, 'g) Gitignores \<Rightarrow> ('d, 'w) system_event list \<Rightarrow>
     'g Filter \<times> ('t, 'w) Daemon \<Rightarrow> 'g Filter \<times> ('t, 'w) Daemon" where
  "system_run sv de en gi evs fd = fold (system_step sv de en gi) evs fd"

text \<open>The daemon starts with a filter that has read no rules yet.\<close>

definition system_new :: "Config \<Rightarrow> files \<Rightarrow> nat option \<Rightarrow> 'w \<Rightarrow> 'g Filter \<times> ('t, 'w) Daemon" where
  "system_new cfg fs now w = (filter_new (cfg_root cfg), daemon_new cfg fs now w)"

text \<open>How many changes an event can record, and the events the watcher was told about.\<close>

fun event_weight :: "('d, 'w) system_event \<Rightarrow> nat" where
  "event_weight (Served _) = 1"
| "event_weight (Notified _ (Ok event)) = (case event_kinds event of None \<Rightarrow> 0 | Some ks \<Rightarrow> length ks)"
| "event_weight (Notified _ _) = 0"

fun notification :: "('d, 'w) system_event \<Rightarrow> ('d \<times> notify_event) list" where
  "notification (Notified disk (Ok event)) = [(disk, event)]"
| "notification _ = []"

abbreviation weight :: "('d, 'w) system_event list \<Rightarrow> nat" where
  "weight evs \<equiv> sum_list (map event_weight evs)"

abbreviation notifications :: "('d, 'w) system_event list \<Rightarrow> ('d \<times> notify_event) list" where
  "notifications evs \<equiv> concat (map notification evs)"

subsection \<open>The watcher's changes are events of the daemon\<close>

lemma watch_view_sel [simp]:
  "wt_filter (watch_view f d) = f" "wt_log (watch_view f d) = log_of d"
  "wt_parse_cache (watch_view f d) = dm_parse_cache d"
  by (simp_all add: watch_view_def)

lemma watch_back_view [simp]: "watch_back (watch_view f d) d = d"
  by (simp add: watch_back_def watch_view_def)

lemma watch_view_back: "watch_view (wt_filter w) (watch_back w d) = w"
  by (simp add: watch_back_def watch_view_def)

lemma watch_back_again: "watch_back u (watch_back w d) = watch_back u d"
  by (simp add: watch_back_def)

lemma handle_change_daemon:
  "\<exists>evs. length evs \<le> 1 \<and>
     watch_back (handle_change gi disk p k w) d = daemon_run sv de en evs (watch_back w d)"
proof -
  obtain b f where k: "filter_keep gi disk p (touch_gitignore p (wt_filter w)) = (b, f)" by (rule prod.exhaust)
  show ?thesis
  proof (cases "\<exists>rel. b \<and> filter_relative f p = Some rel \<and> rel \<noteq> []")
    case True
    then obtain rel where "b" "filter_relative f p = Some rel" "rel \<noteq> []" by blast
    then show ?thesis
      using k by (intro exI [of _ "[Watched (path_str p) rel k]"])
        (simp add: handle_change_def watch_back_def daemon_run_def Let_def)
  next
    case False
    then show ?thesis
      using k by (intro exI [of _ "[]"])
        (auto simp: handle_change_def watch_back_def Let_def split: option.splits)
  qed
qed

lemma handle_changes_daemon:
  "\<exists>evs. length evs \<le> length ks \<and>
     watch_back (handle_changes gi disk ps ks w) d = daemon_run sv de en evs (watch_back w d)"
proof (induction ks arbitrary: w)
  case Nil
  show ?case by (intro exI [of _ "[]"]) simp
next
  case (Cons ik ks)
  obtain i k where ik: "ik = (i, k)" by (rule prod.exhaust)
  let ?u = "if i < length ps then handle_change gi disk (ps ! i) k w else w"
  obtain xs where x: "length xs \<le> 1" "watch_back ?u d = daemon_run sv de en xs (watch_back w d)"
    using handle_change_daemon [of gi disk "ps ! i" k w d sv de en] that [of "[]"] by (cases "i < length ps") auto
  obtain ys where y: "length ys \<le> length ks"
    "watch_back (handle_changes gi disk ps ks ?u) d = daemon_run sv de en ys (watch_back ?u d)"
    using Cons.IH by blast
  show ?case
    using x y ik by (intro exI [of _ "xs @ ys"]) (auto simp: daemon_run_def)
qed

lemma system_step_daemon:
  "\<exists>evs. length evs \<le> event_weight ev \<and>
     snd (system_step sv de en gi ev (f, d)) = daemon_run sv de en evs d"
proof (cases ev)
  case (Served e)
  then show ?thesis by (intro exI [of _ "[e]"]) (simp add: daemon_run_def)
next
  case (Notified disk res)
  show ?thesis
  proof (cases "\<exists>event ks. res = Ok event \<and> event_kinds event = Some ks")
    case True
    then obtain event ks where e: "res = Ok event" "event_kinds event = Some ks" by blast
    show ?thesis
      using handle_changes_daemon [of ks gi disk "ne_paths event" "watch_view f d" d sv de en] Notified e
      by (simp add: watch_callback_def handle_event_def Let_def)
  next
    case False
    then show ?thesis
      using Notified by (intro exI [of _ "[]"]) (cases res; auto simp: watch_callback_def handle_event_def Let_def)
  qed
qed

lemma system_run_snoc [simp]:
  "system_run sv de en gi [] fd = fd"
  "system_run sv de en gi (evs @ [ev]) fd = system_step sv de en gi ev (system_run sv de en gi evs fd)"
  by (simp_all add: system_run_def)

lemma system_run_daemon:
  "\<exists>devs. length devs \<le> weight evs \<and> snd (system_run sv de en gi evs fd) = daemon_run sv de en devs (snd fd)"
proof (induction evs rule: rev_induct)
  case Nil
  show ?case by (intro exI [of _ "[]"]) simp
next
  case (snoc ev evs)
  obtain xs where x: "length xs \<le> weight evs"
    "snd (system_run sv de en gi evs fd) = daemon_run sv de en xs (snd fd)" using snoc by blast
  obtain ys where y: "length ys \<le> event_weight ev"
    "snd (system_run sv de en gi (evs @ [ev]) fd) = daemon_run sv de en ys (daemon_run sv de en xs (snd fd))"
    using system_step_daemon [of ev sv de en gi "fst (system_run sv de en gi evs fd)"] x(2)
    by (metis prod.collapse system_run_snoc(2))
  show ?case using x y by (intro exI [of _ "xs @ ys"]) (auto simp: daemon_run_def)
qed

lemma system_run_inv:
  assumes "0 < cfg_changelog_capacity cfg" "Suc (weight evs) < 2 ^ 64"
    and "(f, d) = system_run sv de en gi evs (system_new cfg fs now w)"
  shows "daemon_inv cfg (weight evs) d"
proof -
  obtain devs where d: "length devs \<le> weight evs" "d = daemon_run sv de en devs (daemon_new cfg fs now w)"
    using system_run_daemon [of evs sv de en gi "system_new cfg fs now w"] assms(3)
    by (metis snd_conv system_new_def)
  then have "daemon_inv cfg (length devs) d" using daemon_run_inv [OF assms(1), of devs] assms(2) by simp
  then show ?thesis using d(1) by (rule daemon_inv_mono)
qed

subsection \<open>The filter of the running watcher\<close>

text \<open>The disk after the last notification.\<close>

fun disk_after :: "'d \<Rightarrow> ('d \<times> notify_event) list \<Rightarrow> 'd" where
  "disk_after disk [] = disk"
| "disk_after disk (de # des) = disk_after (fst de) des"

lemma announced_append:
  "announced gi disk (xs @ ys) \<longleftrightarrow> announced gi disk xs \<and> announced gi (disk_after disk xs) ys"
  by (induction xs arbitrary: disk) auto

lemma disk_after_append [simp]: "disk_after disk (xs @ ys) = disk_after (disk_after disk xs) ys"
  by (induction xs arbitrary: disk) auto

lemma system_run_coherent:
  assumes "announced gi disk (notifications evs)" "(f, d) = system_run sv de en gi evs (system_new cfg fs now w)"
  shows "coherent gi (disk_after disk (notifications evs)) f \<and> ft_root f = cfg_root cfg"
  using assms
proof (induction evs arbitrary: f d rule: rev_induct)
  case Nil
  then show ?case by (simp add: system_new_def filter_new_def coherent_def)
next
  case (snoc ev evs)
  obtain g e where g: "(g, e) = system_run sv de en gi evs (system_new cfg fs now w)"
    by (metis prod.collapse)
  have a: "announced gi disk (notifications evs)"
    "announced gi (disk_after disk (notifications evs)) (notification ev)"
    using snoc.prems(1) by (simp_all add: announced_append)
  note c = snoc.IH [OF a(1) g]
  have step: "(f, d) = system_step sv de en gi ev (g, e)" using snoc.prems(2) g by simp
  show ?case
  proof (cases "\<exists>disk' event. ev = Notified disk' (Ok event)")
    case True
    then obtain disk' event where ev: "ev = Notified disk' (Ok event)" by blast
    then have "announces gi (disk_after disk (notifications evs)) (disk', event)" using a(2) by simp
    from handle_event_spec [OF _ _ this, of "watch_view g e" "cfg_root cfg"] c ev step show ?thesis
      by (simp add: watch_callback_def Let_def)
  next
    case False
    then have "f = g" "notification ev = []"
      using step by (cases ev rule: notification.cases; simp add: watch_callback_def)+
    then show ?thesis using c by simp
  qed
qed

subsection \<open>Properties\<close>

text \<open>One path of an event, when the filter answers for the disk.\<close>

lemma watch_callback_one:
  assumes "announces gi disk (disk', event)" "coherent gi disk f" "ft_root f = root_of d"
    and "event_kinds event = Some [(0, k)]" "ne_paths event = [p]"
    and "(f', d') = watch_callback gi disk' (Ok event) (f, d)"
  shows "log_of d' = (if keeps gi disk' (root_of d) p \<and> rel_str (root_of d) p \<noteq> []
      then changelog_record (rel_str (root_of d) p) k (log_of d) else log_of d)"
    and "d' = d\<lparr>dm_parse_cache := dm_parse_cache d', dm_fs := dm_fs d'\<rparr>"
    and "dm_fs d' = (dm_fs d)\<lparr>st_changelog := log_of d'\<rparr>"
  using handle_event_spec [OF _ _ assms(1), of "watch_view f d" "root_of d"] assms(2-6)
  by (simp_all add: watch_callback_def watch_back_def event_records_def recorded_def Let_def)

text \<open>C11. A change another program makes is visible at once, or not at all. From the start of the daemon,
  let requests, time, jobs and notifications interleave in any order, as long as every change of an
  ignore file is announced. When the watcher is then told of a change of one path, a path the rules
  on the disk let through is the one change that \<open>fs.changes\<close> reports since the version before, and
  the next search answers as a daemon without a search cache would; any other path leaves the log,
  and so every cursor, where it was.\<close>

theorem external_change_visible:
  assumes "(f, d) = system_run sv de en gi evs (system_new cfg fs now w)"
    and "announced gi disk (notifications evs @ [(disk', event)])"
    and "0 < cfg_changelog_capacity cfg" "Suc (weight evs) < 2 ^ 64"
    and "event_kinds event = Some [(0, k)]" "ne_paths event = [p]" "rel = rel_str (cfg_root cfg) p"
    and "(f', d') = watch_callback gi disk' (Ok event) (f, d)"
  shows "if keeps gi disk' (cfg_root cfg) p \<and> rel \<noteq> []
         then changes_since (cl_version (log_of d)) (log_of d') =
                (Suc (cl_version (log_of d)),
                 [\<lparr>ce_path = rel, ce_kind = k, ce_version = Suc (cl_version (log_of d))\<rparr>], False) \<and>
              (\<forall>query. fst (dispatch_method sv de en SEARCH_GREP query d') =
                 fst (dispatch_method sv de en SEARCH_GREP query (d'\<lparr>dm_search_cache := search_cache_new 0\<rparr>)))
         else log_of d' = log_of d"
proof -
  have inv: "daemon_inv cfg (weight evs) d" by (rule system_run_inv [OF assms(3,4,1)])
  then have root: "root_of d = cfg_root cfg" by (simp add: daemon_inv_def)
  have a: "announced gi disk (notifications evs)"
    "announces gi (disk_after disk (notifications evs)) (disk', event)"
    using assms(2) by (simp_all add: announced_append)
  from system_run_coherent [OF a(1) assms(1)] root
  have c: "coherent gi (disk_after disk (notifications evs)) f" "ft_root f = root_of d" by simp_all
  note one = watch_callback_one [OF a(2) c assms(5,6,8)]
  have "dm_search_cache d' = dm_search_cache d" by (subst one(2)) simp
  from recorded_change_visible [OF inv assms(3,4) _ this] one(1) root assms(7) show ?thesis by auto
qed

text \<open>A created file the rules let through, in a daemon that has just started.\<close>

theorem external_change_visible_witness:
  "changes_since 0 (log_of (snd (watch_callback demo_gi ''b'' (Ok (demo_created [''r'', ''a'']))
      (system_new demo_cfg Map.empty None () :: string Filter \<times> (unit, unit) Daemon)))) =
     (1, [\<lparr>ce_path = ''a'', ce_kind = Created, ce_version = 1\<rparr>], False)"
proof -
  let ?new = "system_new demo_cfg Map.empty None () :: string Filter \<times> (unit, unit) Daemon"
  let ?ev = "demo_created [''r'', ''a'']"
  have "(fst ?new, snd ?new) = system_run demo_sv demo_de demo_en demo_gi [] ?new" by simp
  moreover have "announced demo_gi ''b'' (notifications [] @ [(''b'', ?ev)])" by (simp add: announces_def)
  moreover have "event_kinds ?ev = Some [(0, Created)]" "ne_paths ?ev = [[''r'', ''a'']]"
    by (simp_all add: demo_created_def event_kinds_def each_path_def)
  moreover have "''a'' = rel_str (cfg_root demo_cfg) [''r'', ''a'']"
    by (simp add: demo_cfg_def rel_str_def demo_lossy_ab)
  moreover have "keeps demo_gi ''b'' (cfg_root demo_cfg) [''r'', ''a'']"
    by (simp add: keeps_def dot_git_def rule_dirs_def demo_gi_def demo_cfg_def)
  moreover have "cl_version (log_of (snd ?new)) = 0"
    by (simp add: system_new_def daemon_new_def changelog_with_capacity_def)
  ultimately show ?thesis
    using external_change_visible [where evs = "[]" and event = ?ev and rel = "''a''" and k = Created
        and p = "[''r'', ''a'']" and f = "fst ?new" and d = "snd ?new" and cfg = demo_cfg and gi = demo_gi
        and sv = demo_sv and de = demo_de and en = demo_en and fs = Map.empty and now = None and w = "()"
        and f' = "fst (watch_callback demo_gi ''b'' (Ok ?ev) ?new)"
        and d' = "snd (watch_callback demo_gi ''b'' (Ok ?ev) ?new)" and disk = "''b''" and disk' = "''b''"]
    by (simp add: demo_cfg_def)
qed

text \<open>The watcher also reports the daemon's own writes. After a patch that was answered with success and
  the notification of it, the version in the answer is no longer current: a client that chains its
  next patch on the version it was given is refused as stale, though nobody else has written.\<close>

lemma stale_version_refused:
  assumes "resolve_within os (st_root st) (fapp_path q) = Ok path"
    and "fapp_expected_version q = Some v" "cl_version (st_changelog st) \<noteq> v"
  shows "\<exists>m. fs_apply_patch os q st = (Err (rpc_error (-32082) m), st)"
  using assms
  by (simp add: fs_apply_patch_def patch_plan_def check_write_preconditions_def changelog_snapshot_def)

theorem own_write_echo_stales_version:
  assumes "(f, d) = system_run sv de en gi evs (system_new cfg fs now w)"
    and "announced gi disk (notifications evs @ [(disk', event)])"
    and "0 < cfg_changelog_capacity cfg" "Suc (Suc (weight evs)) < 2 ^ 64"
    and "fs_apply_patch (sv_os sv) pp (dm_fs d) = (Ok r, st)"
    and "resolve_within (sv_os sv) (root_of d) (fapp_path pp) = Ok path"
    and "event_kinds event = Some [(0, k)]" "ne_paths event = [path]"
    and "keeps gi disk' (cfg_root cfg) path" "rel_str (cfg_root cfg) path \<noteq> []"
    and "(f', d') = watch_callback gi disk' (Ok event) (f, d\<lparr>dm_fs := st\<rparr>)"
    and "fapp_path qq = fapp_path pp" "fapp_expected_version qq = Some (fapr_version r)"
  shows "\<exists>m. fs_apply_patch (sv_os sv) qq (dm_fs d') = (Err (rpc_error (-32082) m), dm_fs d')"
proof -
  have inv: "daemon_inv cfg (weight evs) d" using system_run_inv [OF assms(3) _ assms(1)] assms(4) by simp
  then have root: "root_of d = cfg_root cfg" and ok: "log_ok (cfg_changelog_capacity cfg) (weight evs) (log_of d)"
    by (simp_all add: daemon_inv_parts)
  from assms(5) obtain rel where st: "st_root st = root_of d" "st_changelog st = changelog_record rel Modified (log_of d)"
    by (auto elim: apply_patch_records)
  have r: "fapr_version r = cl_version (st_changelog st)"
    using assms(5) by (auto simp: fs_apply_patch_def changelog_snapshot_def and_then_Ok_iff split: prod.splits)
  have ok1: "log_ok (cfg_changelog_capacity cfg) (Suc (weight evs)) (st_changelog st)"
    using log_ok_record [OF ok assms(3)] assms(4) st(2) by simp
  have a: "announced gi disk (notifications evs)"
    "announces gi (disk_after disk (notifications evs)) (disk', event)"
    using assms(2) by (simp_all add: announced_append)
  from system_run_coherent [OF a(1) assms(1)] root st(1)
  have c: "coherent gi (disk_after disk (notifications evs)) f" "ft_root f = root_of (d\<lparr>dm_fs := st\<rparr>)" by simp_all
  note one = watch_callback_one [OF a(2) c assms(7,8,11)]
  have "log_of d' = changelog_record (rel_str (cfg_root cfg) path) k (st_changelog st)"
    using one(1) assms(9,10) root st(1) by simp
  then have "cl_version (log_of d') \<noteq> fapr_version r" using log_ok_record [OF ok1 assms(3,4)] r by simp
  moreover have "root_of d' = root_of d" by (subst one(3)) (simp add: st(1))
  ultimately show ?thesis using stale_version_refused assms(6,12,13) by metis
qed

theorem own_write_echo_stales_version_witness:
  "\<exists>m. fs_apply_patch demo_os (demo_patch ''a'' (Some 1))
      (dm_fs (snd (watch_callback demo_gi ''b'' (Ok (demo_created [''r'', ''a'']))
         (filter_new [''r''], demo_daemon\<lparr>dm_fs := demo_state1\<rparr>)))) =
    (Err (rpc_error (-32082) m),
     dm_fs (snd (watch_callback demo_gi ''b'' (Ok (demo_created [''r'', ''a'']))
         (filter_new [''r''], demo_daemon\<lparr>dm_fs := demo_state1\<rparr>))))"
proof -
  let ?ev = "demo_created [''r'', ''a'']"
  let ?after = "watch_callback demo_gi ''b'' (Ok ?ev) (filter_new [''r''] :: string Filter, demo_daemon\<lparr>dm_fs := demo_state1\<rparr>)"
  have run: "(filter_new [''r''] :: string Filter, demo_daemon) =
      system_run demo_sv demo_de demo_en demo_gi []
        (system_new demo_cfg [[''r'', ''a''] \<mapsto> demo_file] (Some 9) ())"
    by (simp add: system_new_def demo_daemon_def demo_cfg_def)
  have ann: "announced demo_gi ''b'' (notifications [] @ [(''b'', ?ev)])" by (simp add: announces_def)
  have ev: "event_kinds ?ev = Some [(0, Created)]" "ne_paths ?ev = [[''r'', ''a'']]"
    by (simp_all add: demo_created_def event_kinds_def each_path_def)
  have cfg: "rel_str (cfg_root demo_cfg) [''r'', ''a''] \<noteq> []" "0 < cfg_changelog_capacity demo_cfg"
    by (simp_all add: demo_cfg_def rel_str_def demo_lossy_ab)
  have keeps: "keeps demo_gi ''b'' (cfg_root demo_cfg) [''r'', ''a'']"
    by (simp add: keeps_def dot_git_def rule_dirs_def demo_gi_def demo_cfg_def)
  have patch: "fs_apply_patch (sv_os demo_sv) (demo_patch ''a'' (Some 0)) (dm_fs demo_daemon) =
     (Ok \<lparr>fapr_path = ''a'', fapr_applied = True, fapr_version = 1, fapr_mtime_ns = 9\<rparr>, demo_state1)"
    using demo_run [of "Some 0"] by (simp add: demo_daemon_fs demo_sv_def)
  have path: "resolve_within (sv_os demo_sv) (root_of demo_daemon) (fapp_path (demo_patch ''a'' (Some 0))) = Ok [''r'', ''a'']"
    using demo_resolve by (simp add: demo_daemon_fs demo_sv_def demo_patch_def demo_state_def)
  have after: "(fst ?after, snd ?after) = ?after" by simp
  from own_write_echo_stales_version [OF run ann cfg(2) _ patch path ev keeps cfg(1) after,
      of "demo_patch ''a'' (Some 1)"] show ?thesis
    by (simp add: demo_sv_def demo_patch_def)
qed

end
