(* ===== verification/Spec2Isabelle.thy ===== *)
theory Spec2Isabelle
  imports Search_Cache Buffer_Pool Backends Compact Files Metrics Pipe Server Tool_Run Jobs
    Search Watcher Code_Handlers Imports Git Bridge Mcp Codex Installer Daemon_Run Startup Daemon_Code Wire_Defaults
    Write_Race Daemon_Watch
begin

text \<open>
  A verification of mcp-cli: a daemon that serves file, search, git, code and tool requests of
  coding agents, the bridge that connects an agent to it, and the installer that registers the
  bridge with the agents.

  \<^bold>\<open>The program.\<close> An agent starts the bridge (\<^verbatim>\<open>src/crates/mcp-bridge\<close>) and speaks JSON-RPC with
  it, a message per line. The bridge turns a tool call into a request, frames it with a 4-byte
  length and sends it over a Unix socket, whose path is a hash of the project's root, to the
  daemon (\<^verbatim>\<open>src/crates/daemon\<close>), which it starts when nothing listens. The daemon reads frames,
  dispatches each request to a handler and frames the answer. Its handlers share a change log
  fed by a file watcher and by the daemon's own writes, a cache of search results keyed by the
  log's version, a cache of parsed files keyed by the file's stamp, a cache of command results,
  a table of background jobs, a pool of buffers and counters. The request and result structures
  are in \<^verbatim>\<open>src/crates/protocol\<close>, the installer in \<^verbatim>\<open>src/crates/mcp-cli\<close>.

  \<^bold>\<open>Conventions.\<close> A struct is a record whose fields carry a prefix, an enum a datatype, a Rust
  \<open>Result\<close> the type \<open>res\<close> of \<open>Prelude\<close> with a third constructor for a panic. Strings are
  sequences of bytes. Unsigned integers are natural numbers; where the code can wrap the
  reduction is written out (\<open>u64_add\<close>), hashes and frame lengths are words. State is passed
  explicitly; concurrent operations are \<open>inductive\<close> step relations. Code outside the repository
  (libgit2, tree-sitter, the regex search, the directory walk, serde's encoding, JSONPath, TOML
  documents) and the operating system are parameters, records of functions, and what is relied
  on of them is a named hypothesis (\<open>clock_ok\<close>, \<open>toml_laws\<close>, \<open>fs_laws\<close>, \<open>net_calm\<close>, \<open>socket_laws\<close>,
  \<open>programs_confined\<close>, \<open>delivers\<close>, \<open>serde_derives\<close>), met by a
  concrete instance in the witness of each property that has one.

  \<^bold>\<open>Foundations.\<close>
  \<^item> \<open>Prelude\<close>: results, positions and association lists, decimal numbers, the collections
    \<open>res_simps\<close>, \<open>pos_simps\<close> and \<open>map_simps\<close>. \<open>Rust_Str\<close>: the string functions of the standard
    library the code uses (lines, splitting, trimming, UTF-8 validation, lossy decoding).
  \<^item> \<open>Protocol\<close>: every structure and method name of \<^verbatim>\<open>protocol/src/lib.rs\<close>, JSON values.
  \<^item> \<open>Paths\<close>: \<^verbatim>\<open>protocol/src/paths.rs\<close>; roots that differ in one byte have different sockets.
  \<^item> \<open>Cache_Interface\<close>: the locale \<open>versioned_cache\<close>, what a cache must promise so that answering
    through it is answering afresh; interpreted by the search cache, the parse cache and the
    cache of command results.

  \<^bold>\<open>The daemon.\<close>
  \<^item> \<open>Changelog\<close> (\<^verbatim>\<open>changelog.rs\<close>): the bounded ring refines the complete history; the overflow flag
    is exact; replaying coalesced changes is replaying every event.
  \<^item> \<open>Watcher\<close> (\<^verbatim>\<open>watcher.rs\<close>): the ignore filter with its rule cache and the event handler; the
    cached rules are never stale when rule changes are announced, recorded paths are inside the
    root and have left the parse cache.
  \<^item> \<open>Search_Cache\<close> (\<^verbatim>\<open>search_cache.rs\<close>) and \<open>Search\<close> (\<open>search_grep\<close>, \<open>fs_scan\<close> and the context sink
    of \<^verbatim>\<open>handlers.rs\<close>): the cache is an LRU list of one version and cannot be observed; a search
    returns the first matches with their context.
  \<^item> \<open>Parse_Cache\<close>, \<open>Languages\<close>, \<open>Outline\<close>, \<open>Backends\<close> (the files of these names): language
    detection and outline queries, parsing through the cache, outlines and symbols, and the locale
    \<open>language_backend\<close> for the trait with the same laws. \<open>Code_Handlers\<close> and \<open>Imports\<close> (\<^verbatim>\<open>handlers.rs\<close>):
    outlines, symbols and batches, occurrences of identifiers, skeletons, imports and dependencies.
  \<^item> \<open>Files\<close> and \<open>Patch\<close> (\<^verbatim>\<open>handlers.rs\<close>): reading, patching, replacing. Writes stay inside the root,
    a stale writer is refused, a refused write changes nothing, the patch of an edit script gives
    the edited text and every accepted patch is one of some script. \<open>Write_Race\<close>: the steps of
    \<open>fs_apply_patch\<close> under every schedule of concurrent calls; the version check does not protect
    calls that overlap.
  \<^item> \<open>Git\<close> (\<^verbatim>\<open>handlers.rs\<close>) and \<open>Compact\<close> (\<^verbatim>\<open>compact/mod.rs\<close>): status, log, diff, blame, history and
    the compact forms. \<open>Strip_Noise\<close> (\<^verbatim>\<open>compact/strip_noise.rs\<close>): every line is kept or in one
    reported region.
  \<^item> \<open>Tool_Run\<close> and \<open>Jobs\<close> (\<^verbatim>\<open>handlers.rs\<close>, \<^verbatim>\<open>server.rs\<close>): running commands with a result cache;
    background jobs with their log readers as a step relation, polled logs, kills.
  \<^item> \<open>Metrics\<close> (\<^verbatim>\<open>metrics.rs\<close>): two-phase insertion under interleaving loses no call.
    \<open>Buffer_Pool\<close> (\<^verbatim>\<open>buffer_pool.rs\<close>): the pool stays within its bounds.
  \<^item> \<open>Pipe\<close> (\<^verbatim>\<open>pipe.rs\<close>): references, steps and fan-out; \<open>Framing\<close> (\<^verbatim>\<open>framing.rs\<close>) with the locale
    \<open>frame_codec\<close> for both ends of the socket; \<open>Server\<close> (\<^verbatim>\<open>server.rs\<close>): the idle tracker, a
    connection and dispatch.
  \<^item> \<open>Dispatch_Contract\<close>: the locales \<open>method_table\<close> and \<open>served_table\<close>, what the pipe and the server loop
    rely on of the method table, as a relation every call respects; a pipe, a request and a whole
    connection then respect it too.
  \<^item> \<open>Daemon\<close> (\<^verbatim>\<open>server.rs\<close>, the JSON wrappers of \<^verbatim>\<open>handlers.rs\<close>): one state that all handlers share, the
    table \<open>dispatch_method\<close> and the state a configuration starts with; serde's decoders and encoders
    are the records \<open>Decoders\<close> and \<open>Encoders\<close>, the rest of the outside is \<open>Services\<close>. \<open>Daemon_Run\<close>: the
    effect of every method as an inductive relation (\<open>daemon_effect\<close>), the two interpretations of the
    contract, runs of calls, watcher events, other programs and background jobs, and the invariant
    of every state on them; a connection stays in the root, a write is visible at once.
    \<open>Daemon_Code\<close>: in all these states every method answers as it would without the parse cache.
    \<open>Daemon_Watch\<close>: the daemon with the callback of \<^verbatim>\<open>watcher.rs\<close> running beside it; such a run is a run of
    \<open>Daemon_Run\<close>, a change of another program is visible at once when the ignore rules let it
    through, and the notification of the daemon's own write makes the version it answered stale.
  \<^item> \<open>Wire\<close> (\<^verbatim>\<open>protocol/src/lib.rs\<close>, the schemas of \<^verbatim>\<open>mcp.rs\<close>): the declarations of the parameter structs with
    their \<open>serde\<close> attributes, the locale \<open>derived_decoder\<close> for what serde documents of a decoder derived
    from one, JSON schemas; the schema of every tool admits what its method decodes and requires what
    it needs. \<open>Wire_Defaults\<close>: the defaults the schemas announce are those of decoders and handlers.
  \<^item> \<open>Prewarm\<close> (\<^verbatim>\<open>prewarm.rs\<close>): the warm-up ends and reads the beginning of every file. \<open>Startup\<close> (\<^verbatim>\<open>main.rs\<close> of
    daemon and bridge, \<open>serve\<close> of \<^verbatim>\<open>server.rs\<close>, \<open>ensure_socket_parent\<close> of \<^verbatim>\<open>paths.rs\<close>): arguments to
    configurations, the preparation of the socket and the watcher, the accept loop; bridge and
    daemon meet at the same socket, a second daemon takes it from the first.

  \<^bold>\<open>The bridge.\<close> \<open>Bridge\<close> (\<^verbatim>\<open>daemon_client.rs\<close>, \<^verbatim>\<open>spawn.rs\<close>): connecting, starting a daemon, waiting,
  calling with one retry. \<open>Mcp_Tools\<close> and \<open>Mcp\<close> (\<^verbatim>\<open>mcp.rs\<close>): the tools, their schemas and routes, the
  message loop. A call returns, hands a request to a working daemon once, and answers every
  message in order.

  \<^bold>\<open>The installer.\<close> \<open>Codex\<close> (\<^verbatim>\<open>codex.rs\<close>) edits a TOML document given by its laws: installing is
  idempotent, touches nothing else and is undone by uninstalling. \<open>Installer\<close> (\<^verbatim>\<open>codex.rs\<close>,
  \<^verbatim>\<open>claude_code.rs\<close>, \<^verbatim>\<open>main.rs\<close>): the configuration file is replaced as a whole or not at all.

  \<^bold>\<open>Bounds and fuel.\<close> Loops over data are structural or have a measure. The wait for a new daemon
  in \<open>Bridge\<close> depends on the clock and has fuel, a unit per connection attempt; with backoffs of
  25, 50, 100, 200, 320, 320, ... milliseconds and a budget of two seconds 11 units are enough
  whenever sleeping moves the clock on (\<open>attempts_budget\<close>, \<open>call_settles\<close>). \<open>unframe_all\<close> in
  \<open>Framing\<close> has fuel bounded by the length of the stream, as each frame takes at least four bytes.
  Properties of counters assume fewer than \<open>2 ^ 64\<close> events or \<open>2 ^ 32\<close> lines where the code would wrap.

  \<^bold>\<open>Below.\<close> This theory composes the parts: what a client sees of the watched file system, and a
  tool call from the agent's line through bridge and daemon to the answer.

  \<^bold>\<open>Not modelled.\<close> The parsing of command lines (clap), logging, the tokio runtime and the creation of
  threads; the Windows build; the io_uring flag, which only changes a log line on Linux; the time
  between the critical sections of one handler, except where a step relation is given (idle
  tracker, metrics, jobs, buffer pool, patches); serde's encoding of the structures, libgit2, tree-sitter, the
  search and walk crates, JSONPath and TOML documents, which are third-party code. The benchmarks
  and the unit tests are not part of the program.
\<close>

section \<open>Properties that span components\<close>



text \<open>The bridge's side of a tool call, for any response.\<close>

lemma tool_call_answered:
  assumes "jt_parse jt line = Ok (JObject [(''id'', i), (''method'', JString ''tools/call''),
             (''params'', JObject [(''name'', JString name), (''arguments'', args)])])"
    and "trim line \<noteq> []" "(name, meth) \<in> set tool_routes" "wr_room out = None"
    and "cd_request cd \<lparr>req_id = dc_next_id c, req_method = meth, req_params = args\<rparr> = Ok p"
    and "length p \<le> unat MAX_FRAME" "length (srv p) \<le> unat MAX_FRAME" "cd_response cd (srv p) = Ok resp"
  shows "\<exists>c'. mcp_loop (link_net srv) cd jt fuel [line] None out (c, idle_link served 0) =
      Some (Ok (), out\<lparr>wr_bytes := wr_bytes out @ jt_print jt
          (case result_of resp of
             Ok v \<Rightarrow> result_message i (JObject [(''content'', JArray [JObject [(''type'', JString ''text''),
                       (''text'', JString (jt_pretty jt v))]]), (''isError'', JBool False)])
           | Err e \<Rightarrow> error_message i (-32000) (error_text (link_net srv) e)) @ newline\<rparr>,
        c', idle_link (served @ [p]) 0)"
proof -
  have m: "daemon_method name = Some meth"
    using assms(3) distinct_tools by (simp add: daemon_method_def)
  obtain c' where call: "call (link_net srv) cd fuel meth args (c, idle_link served 0) =
      Some (result_of resp, c', idle_link (served @ [p]) 0)"
    using call_frame [where serve = srv, OF assms(5-8)] by blast
  have "result_of resp \<noteq> Panic e" for e by (simp add: result_of_def split: option.splits)
  then show ?thesis
    using assms(1,2,4) m call
    by (cases "result_of resp")
      (auto simp: is_notification_def message_method_def message_params_def json_get_def starts_with_def
        respond_def mcp_handle_def tools_call_def write_message_unlimited message_id_def [of "JObject _"])
qed

text \<open>The daemon's side: the frame it answers a payload with, in a given state.\<close>

definition daemon_answer ::
  "(string \<Rightarrow> (Request, string) res) \<Rightarrow> (Response \<Rightarrow> string) \<Rightarrow>
     (Request \<Rightarrow> 'd \<Rightarrow> (Response, string) res \<times> 'd) \<Rightarrow> 'd \<Rightarrow> string \<Rightarrow> string" where
  "daemon_answer dec enc h d p = (case fst (answer dec h p d) of Ok resp \<Rightarrow> enc resp | _ \<Rightarrow> [])"


definition ping_json :: Json_Text where
  "ping_json =
     \<lparr>jt_parse = (\<lambda>_. Ok (JObject [(''id'', JNumber (PosInt 7)), (''method'', JString ''tools/call''),
         (''params'', JObject [(''name'', JString ''fs_apply_patch''), (''arguments'', JNull)])])),
      jt_print = (\<lambda>_. ''m''), jt_pretty = (\<lambda>_. ''t'')\<rparr>"

definition demo_request :: Request where
  "demo_request = \<lparr>req_id = dc_next_id some_client, req_method = FS_APPLY_PATCH, req_params = JNull\<rparr>"

abbreviation demo_handler :: "Request \<Rightarrow> (unit, unit) Daemon \<Rightarrow> (Response, string) res \<times> (unit, unit) Daemon" where
  "demo_handler \<equiv> daemon_request demo_sv demo_de demo_en (\<lambda>_. Err ''p'') (\<lambda>n. ([], [])) (\<lambda>_ _. 5)"


end
